theory Spec2Isabelle
  imports Complex_Main "HOL-Library.AList" "HOL-Library.Char_ord" "HOL-Library.List_Lexorder"
begin

section \<open>Python values, dictionaries and the object store\<close>

text \<open>
  The pipeline of \<^verbatim>\<open>process_one_file.py\<close> works on Python dictionaries that are
  shared between the job store, the summary and the result document, and it mutates
  them in place. Dictionaries therefore live in an explicit store: a dictionary value
  is a reference \<open>Ref a\<close>, and the store maps the address \<open>a\<close> to an insertion-ordered
  association list, as a Python \<^verbatim>\<open>dict\<close> is.

  Floats are modelled as exact rationals: rounding, overflow to \<^verbatim>\<open>inf\<close> and
  \<^verbatim>\<open>OverflowError\<close> are outside the model. A \<^verbatim>\<open>datetime\<close> is its number of
  microseconds since the epoch, and \<open>SIso t\<close> is the string \<^verbatim>\<open>t.isoformat()\<close>.
\<close>

type_synonym addr = nat

datatype scalar = SNone | SBool bool | SInt int | SFloat rat | SStr string | SIso int

datatype pyval = Val scalar | Ref addr

type_synonym pydict = "(string \<times> pyval) list"

datatype py_error =
    KeyError string
  | TypeError
  | AttributeError
  | ZeroDivisionError
  | OSError string
  | ParserError string

section \<open>The operating system interface\<close>

text \<open>
  The file system is not part of the repository: the calls of \<^verbatim>\<open>os\<close> and
  \<^verbatim>\<open>os.path\<close> that the code makes are the fields of a record, over any type \<open>'fs\<close>
  of file-system states. A call that raises returns \<open>Inl\<close>.
\<close>

record 'fs os_api =
  os_path_exists :: "'fs \<Rightarrow> string \<Rightarrow> bool"
  os_path_isfile :: "'fs \<Rightarrow> string \<Rightarrow> bool"
  os_listdir :: "'fs \<Rightarrow> string \<Rightarrow> py_error + string list"
  os_makedirs :: "'fs \<Rightarrow> string \<Rightarrow> (py_error + unit) \<times> 'fs"
  os_rename :: "'fs \<Rightarrow> string \<Rightarrow> string \<Rightarrow> (py_error + unit) \<times> 'fs"

text \<open>\<^verbatim>\<open>posixpath.join\<close> on two components.\<close>

definition path_join :: "string \<Rightarrow> string \<Rightarrow> string" where
  "path_join a b =
     (if b \<noteq> [] \<and> hd b = CHR ''/'' then b
      else if a = [] \<or> last a = CHR ''/'' then a @ b
      else a @ ''/'' @ b)"

text \<open>\<^verbatim>\<open>os.path.join(p, name)\<close> where \<open>p\<close> may be \<^verbatim>\<open>None\<close>: a \<^verbatim>\<open>TypeError\<close>.\<close>

definition os_path_join :: "string option \<Rightarrow> string \<Rightarrow> py_error + string" where
  "os_path_join p name = (case p of None \<Rightarrow> Inl TypeError | Some d \<Rightarrow> Inr (path_join d name))"

section \<open>FilesManager.get_first_available_file\<close>

record pending_file =
  file_name :: string
  full_path :: string

text \<open>\<^verbatim>\<open>files.sort(reverse=r)\<close> on a list of strings.\<close>

definition sort_files :: "bool \<Rightarrow> string list \<Rightarrow> string list" where
  "sort_files r files = (if r then rev (sort files) else sort files)"

definition get_first_available_file ::
  "'fs os_api \<Rightarrow> 'fs \<Rightarrow> (string \<rightharpoonup> string) \<Rightarrow> bool \<Rightarrow> py_error + pending_file option" where
  "get_first_available_file os fs files_path reverse_time_order =
     (case files_path ''repo_path'' of
        None \<Rightarrow> Inr None
      | Some repo_path \<Rightarrow>
          if repo_path = [] \<or> \<not> os_path_exists os fs repo_path then Inr None
          else (case os_listdir os fs repo_path of
                  Inl e \<Rightarrow> Inl e
                | Inr names \<Rightarrow>
                    let files = filter (\<lambda>f. os_path_isfile os fs (path_join repo_path f)) names
                    in if files = [] then Inr None
                       else let files' = sort_files reverse_time_order files
                            in Inr (Some \<lparr>file_name = hd files',
                                          full_path = path_join repo_path (hd files')\<rparr>)))"


section \<open>Program state\<close>

text \<open>
  One record holds what the module-level singletons of the source hold (the job store of
  \<^verbatim>\<open>MongoCommonCollections\<close>, \<^verbatim>\<open>log_mgr.task_id\<close>), the object store, the file system,
  and the local variables of \<^verbatim>\<open>process_next_file\<close> that are read after its
  \<^verbatim>\<open>try\<close> block (\<open>file_to_proc\<close>, \<open>process_results_doc\<close>, \<open>local_err\<close>) together with
  \<open>summary\<close>. \<open>calls\<close> lists, in order, the calls made to the job recorder, the file
  relocator and the queue cleanup. Log output is not modelled.
\<close>

datatype call =
    Call_create_job string
  | Call_update_job string
  | Call_move_file string "string option" "string option"
  | Call_clean_file_process_q string "py_error option"

record 'fs state =
  store :: "addr \<Rightarrow> pydict"
  next_addr :: addr
  jobs :: "string \<rightharpoonup> addr"
  job_counter :: nat
  task_id :: "string option"
  filesys :: 'fs
  calls :: "call list"
  file_to_proc :: "pending_file option"
  process_results_doc :: pyval
  local_err :: "py_error option"
  summary :: "addr option"

text \<open>
  A statement is a function from the state to an outcome and the state after it:
  \<open>Inl e\<close> is the exception \<open>e\<close> raised, \<open>Inr x\<close> the value \<open>x\<close>. The state changes made
  before an exception is raised are kept, as in Python.
\<close>

type_synonym ('fs, 'a) prog = "'fs state \<Rightarrow> (py_error + 'a) \<times> 'fs state"

definition ret :: "'a \<Rightarrow> ('fs, 'a) prog" where
  "ret x = (\<lambda>s. (Inr x, s))"

definition raise :: "py_error \<Rightarrow> ('fs, 'a) prog" where
  "raise e = (\<lambda>s. (Inl e, s))"

definition seq :: "('fs, 'a) prog \<Rightarrow> ('a \<Rightarrow> ('fs, 'b) prog) \<Rightarrow> ('fs, 'b) prog" where
  "seq m f = (\<lambda>s. case m s of (Inl e, s') \<Rightarrow> (Inl e, s') | (Inr x, s') \<Rightarrow> f x s')"

text \<open>\<^verbatim>\<open>try: m  except Exception as e: h e\<close>\<close>

definition try_except :: "('fs, 'a) prog \<Rightarrow> (py_error \<Rightarrow> ('fs, 'a) prog) \<Rightarrow> ('fs, 'a) prog" where
  "try_except m h = (\<lambda>s. case m s of (Inl e, s') \<Rightarrow> h e s' | (Inr x, s') \<Rightarrow> (Inr x, s'))"

subsection \<open>Dictionary operations\<close>

text \<open>A dictionary display or \<^verbatim>\<open>dict(...)\<close>: a later duplicate key overwrites the value.\<close>

definition dict_of :: "(string \<times> 'v) list \<Rightarrow> (string \<times> 'v) list" where
  "dict_of xs = foldl (\<lambda>d (k, v). AList.update k v d) [] xs"

text \<open>A new object holding the entries \<open>d\<close>, at the next free address.\<close>

definition alloc :: "pydict \<Rightarrow> ('fs, pyval) prog" where
  "alloc d = (\<lambda>s. (Inr (Ref (next_addr s)),
                    s\<lparr>store := (store s)(next_addr s := d),
                      next_addr := Suc (next_addr s)\<rparr>))"

definition new_dict :: "pydict \<Rightarrow> ('fs, pyval) prog" where
  "new_dict d = alloc (dict_of d)"

text \<open>\<^verbatim>\<open>x[k]\<close>\<close>

definition get_item :: "pyval \<Rightarrow> string \<Rightarrow> ('fs, pyval) prog" where
  "get_item x k = (\<lambda>s. case x of
       Val _ \<Rightarrow> (Inl TypeError, s)
     | Ref a \<Rightarrow> (case map_of (store s a) k of
                   None \<Rightarrow> (Inl (KeyError k), s)
                 | Some v \<Rightarrow> (Inr v, s)))"

text \<open>\<^verbatim>\<open>x.get(k)\<close>\<close>

definition get_method :: "pyval \<Rightarrow> string \<Rightarrow> ('fs, pyval) prog" where
  "get_method x k = (\<lambda>s. case x of
       Val _ \<Rightarrow> (Inl AttributeError, s)
     | Ref a \<Rightarrow> (case map_of (store s a) k of
                   None \<Rightarrow> (Inr (Val SNone), s)
                 | Some v \<Rightarrow> (Inr v, s)))"

text \<open>\<^verbatim>\<open>x.get(k, dflt)\<close>\<close>

definition get_method_default :: "pyval \<Rightarrow> string \<Rightarrow> pyval \<Rightarrow> ('fs, pyval) prog" where
  "get_method_default x k dflt = (\<lambda>s. case x of
       Val _ \<Rightarrow> (Inl AttributeError, s)
     | Ref a \<Rightarrow> (case map_of (store s a) k of
                   None \<Rightarrow> (Inr dflt, s)
                 | Some v \<Rightarrow> (Inr v, s)))"

text \<open>\<^verbatim>\<open>x[k] = v\<close>\<close>

definition set_item :: "pyval \<Rightarrow> string \<Rightarrow> pyval \<Rightarrow> ('fs, unit) prog" where
  "set_item x k v = (\<lambda>s. case x of
       Val _ \<Rightarrow> (Inl TypeError, s)
     | Ref a \<Rightarrow> (Inr (), s\<lparr>store := (store s)(a := AList.update k v (store s a))\<rparr>))"

text \<open>\<^verbatim>\<open>del x[k]\<close>\<close>

definition del_item :: "pyval \<Rightarrow> string \<Rightarrow> ('fs, unit) prog" where
  "del_item x k = (\<lambda>s. case x of
       Val _ \<Rightarrow> (Inl TypeError, s)
     | Ref a \<Rightarrow> (case map_of (store s a) k of
                   None \<Rightarrow> (Inl (KeyError k), s)
                 | Some _ \<Rightarrow> (Inr (), s\<lparr>store := (store s)(a := AList.delete k (store s a))\<rparr>)))"

text \<open>\<^verbatim>\<open>k in x\<close>\<close>

definition contains :: "pyval \<Rightarrow> string \<Rightarrow> ('fs, bool) prog" where
  "contains x k = (\<lambda>s. case x of
       Val _ \<Rightarrow> (Inl TypeError, s)
     | Ref a \<Rightarrow> (Inr (map_of (store s a) k \<noteq> None), s))"

text \<open>\<^verbatim>\<open>dict(x)\<close>: a shallow copy, a new object with the same keys and values.\<close>

definition dict_copy :: "pyval \<Rightarrow> ('fs, pyval) prog" where
  "dict_copy x = (\<lambda>s. case x of
       Val _ \<Rightarrow> (Inl TypeError, s)
     | Ref a \<Rightarrow> alloc (store s a) s)"

text \<open>The keys of a dictionary, in insertion order (\<^verbatim>\<open>for key in x\<close>).\<close>

definition dict_keys :: "pyval \<Rightarrow> ('fs, string list) prog" where
  "dict_keys x = (\<lambda>s. case x of
       Val _ \<Rightarrow> (Inl TypeError, s)
     | Ref a \<Rightarrow> (Inr (map fst (store s a)), s))"

text \<open>\<^verbatim>\<open>isinstance(v, dict)\<close>: the store holds dictionaries only.\<close>

fun is_dict :: "pyval \<Rightarrow> bool" where
  "is_dict (Ref a) = True"
| "is_dict (Val v) = False"

text \<open>Truth value of an object.\<close>

fun truthy :: "(addr \<Rightarrow> pydict) \<Rightarrow> pyval \<Rightarrow> bool" where
  "truthy st (Val SNone) = False"
| "truthy st (Val (SBool b)) = b"
| "truthy st (Val (SInt i)) = (i \<noteq> 0)"
| "truthy st (Val (SFloat r)) = (r \<noteq> 0)"
| "truthy st (Val (SStr x)) = (x \<noteq> [])"
| "truthy st (Val (SIso t)) = True"
| "truthy st (Ref a) = (st a \<noteq> [])"

definition is_true :: "pyval \<Rightarrow> ('fs, bool) prog" where
  "is_true x = (\<lambda>s. (Inr (truthy (store s) x), s))"

text \<open>\<^verbatim>\<open>x or y\<close>, both already evaluated (\<open>y\<close> is a literal wherever the source uses it).\<close>

definition py_or :: "pyval \<Rightarrow> pyval \<Rightarrow> ('fs, pyval) prog" where
  "py_or x y = (\<lambda>s. (Inr (if truthy (store s) x then x else y), s))"

subsection \<open>Arithmetic\<close>

fun num_of :: "pyval \<Rightarrow> rat option" where
  "num_of (Val (SInt i)) = Some (of_int i)"
| "num_of (Val (SFloat r)) = Some r"
| "num_of (Val (SBool b)) = Some (if b then 1 else 0)"
| "num_of _ = None"

text \<open>\<^verbatim>\<open>x / y\<close>: true division, a float.\<close>

definition py_truediv :: "pyval \<Rightarrow> pyval \<Rightarrow> ('fs, pyval) prog" where
  "py_truediv x y = (\<lambda>s. case (num_of x, num_of y) of
       (Some a, Some b) \<Rightarrow> if b = 0 then (Inl ZeroDivisionError, s)
                           else (Inr (Val (SFloat (a / b))), s)
     | _ \<Rightarrow> (Inl TypeError, s))"

text \<open>\<^verbatim>\<open>x * 100\<close> for a float \<open>x\<close> (the only use in the source is on a quotient).\<close>

definition py_mul_float :: "pyval \<Rightarrow> int \<Rightarrow> ('fs, pyval) prog" where
  "py_mul_float x n = (\<lambda>s. case x of
       Val (SFloat r) \<Rightarrow> (Inr (Val (SFloat (r * of_int n))), s)
     | _ \<Rightarrow> (Inl TypeError, s))"

text \<open>
  \<^verbatim>\<open>int((end - start).total_seconds() * 1000)\<close>: whole milliseconds, truncated
  towards zero.
\<close>

definition elapsed_millis :: "int \<Rightarrow> int \<Rightarrow> int" where
  "elapsed_millis start now =
     (let d = now - start in if 0 \<le> d then d div 1000 else - ((- d) div 1000))"

section \<open>MongoCommonCollections\<close>

text \<open>\<^verbatim>\<open>str(n)\<close> for a natural number.\<close>

fun str_of_nat :: "nat \<Rightarrow> string" where
  "str_of_nat n =
     (if n < 10 then [''0123456789'' ! n]
      else str_of_nat (n div 10) @ [''0123456789'' ! (n mod 10)])"

declare str_of_nat.simps [simp del]

definition create_job :: "pyval \<Rightarrow> ('fs, string) prog" where
  "create_job payload = (\<lambda>s. case payload of
       Val _ \<Rightarrow> (Inl TypeError, s)
     | Ref p \<Rightarrow>
         let n = job_counter s + 1;
             job_id = ''JOB_'' @ str_of_nat n
         in (Inr job_id, s\<lparr>job_counter := n,
                           jobs := (jobs s)(job_id \<mapsto> p),
                           calls := calls s @ [Call_create_job job_id]\<rparr>))"

text \<open>\<^verbatim>\<open>d.update(other)\<close>\<close>

definition dict_update :: "pydict \<Rightarrow> pydict \<Rightarrow> pydict" where
  "dict_update d other = foldl (\<lambda>d (k, v). AList.update k v d) d other"

definition update_job :: "string \<Rightarrow> pyval \<Rightarrow> ('fs, bool) prog" where
  "update_job job_id payload = (\<lambda>s.
     let s0 = s\<lparr>calls := calls s @ [Call_update_job job_id]\<rparr>
     in case jobs s0 job_id of
          None \<Rightarrow> (Inr True, s0)
        | Some a \<Rightarrow>
            (case payload of
               Val _ \<Rightarrow> (Inl TypeError, s0)
             | Ref p \<Rightarrow>
                 (Inr True,
                  s0\<lparr>store := (store s0)(a := dict_update (store s0 a) (store s0 p))\<rparr>)))"

section \<open>FilesManager.move_file and clean_file_process_q\<close>

definition do_makedirs :: "'fs os_api \<Rightarrow> string \<Rightarrow> ('fs, unit) prog" where
  "do_makedirs os p = (\<lambda>s. case os_makedirs os (filesys s) p of
                              (r, fs') \<Rightarrow> (r, s\<lparr>filesys := fs'\<rparr>))"

definition do_rename :: "'fs os_api \<Rightarrow> string \<Rightarrow> string \<Rightarrow> ('fs, unit) prog" where
  "do_rename os src dst = (\<lambda>s. case os_rename os (filesys s) src dst of
                                  (r, fs') \<Rightarrow> (r, s\<lparr>filesys := fs'\<rparr>))"

definition path_exists :: "'fs os_api \<Rightarrow> string \<Rightarrow> ('fs, bool) prog" where
  "path_exists os p = (\<lambda>s. (Inr (os_path_exists os (filesys s) p), s))"

definition lift :: "py_error + 'a \<Rightarrow> ('fs, 'a) prog" where
  "lift r = (\<lambda>s. (r, s))"

definition note_call :: "call \<Rightarrow> ('fs, unit) prog" where
  "note_call c = (\<lambda>s. (Inr (), s\<lparr>calls := calls s @ [c]\<rparr>))"

definition move_file ::
  "'fs os_api \<Rightarrow> string \<Rightarrow> string option \<Rightarrow> string option \<Rightarrow> ('fs, bool) prog" where
  "move_file os name from_path to_path =
     seq (note_call (Call_move_file name from_path to_path)) (\<lambda>_.
     try_except
       (seq (lift (os_path_join from_path name)) (\<lambda>src.
        seq (lift (os_path_join to_path name)) (\<lambda>dst.
        seq (case to_path of None \<Rightarrow> raise TypeError | Some d \<Rightarrow> do_makedirs os d) (\<lambda>_.
        seq (path_exists os src) (\<lambda>ex.
        if ex then seq (do_rename os src dst) (\<lambda>_. ret True)
        else ret False)))))
       (\<lambda>e. ret False))"

definition clean_file_process_q :: "string \<Rightarrow> py_error option \<Rightarrow> ('fs, unit) prog" where
  "clean_file_process_q name error = note_call (Call_clean_file_process_q name error)"

section \<open>FileParser.import_feed_file\<close>

text \<open>
  What a parser returns: a dictionary whose values are scalars or dictionaries of
  scalars. The orchestrator receives it as fresh objects.
\<close>

datatype field_lit = Scalar scalar | Nested "(string \<times> scalar) list"

type_synonym summary_lit = "(string \<times> field_lit) list"

type_synonym parser = "pending_file \<Rightarrow> string \<Rightarrow> py_error + summary_lit"

text \<open>
  The parser of the source: its \<^verbatim>\<open>try\<close> body builds a fixed summary and sleeps, so the
  \<^verbatim>\<open>except Exception\<close> branch with the \<^verbatim>\<open>FAIL\<close> summary is never taken.
\<close>

definition import_feed_file :: parser where
  "import_feed_file f job_id =
     Inr [(''totals'', Nested [(''raw_lines'', SInt 100),
                               (''records_ok'', SInt 95),
                               (''transactions'', SInt 95),
                               (''site_name'', SStr ''Site_A'')]),
          (''error'', Scalar SNone)]"

fun alloc_fields :: "(string \<times> field_lit) list \<Rightarrow> ('fs, pydict) prog" where
  "alloc_fields [] = ret []"
| "alloc_fields ((k, Scalar v) # r) =
     seq (alloc_fields r) (\<lambda>d. ret ((k, Val v) # d))"
| "alloc_fields ((k, Nested n) # r) =
     seq (new_dict (map (\<lambda>(k', v). (k', Val v)) n)) (\<lambda>a.
     seq (alloc_fields r) (\<lambda>d. ret ((k, a) # d)))"

text \<open>The call \<^verbatim>\<open>await file_parser.import_feed_file(file_to_proc, job_id)\<close>.\<close>

definition call_parser :: "parser \<Rightarrow> pending_file \<Rightarrow> string \<Rightarrow> ('fs, pyval) prog" where
  "call_parser parser f job_id =
     (case parser f job_id of
        Inl e \<Rightarrow> raise e
      | Inr lit \<Rightarrow> seq (alloc_fields (dict_of lit)) (\<lambda>d. alloc d))"

section \<open>create_process_doc\<close>

fun copy_dicts :: "string list \<Rightarrow> pyval \<Rightarrow> pyval \<Rightarrow> ('fs, unit) prog" where
  "copy_dicts [] summ doc = ret ()"
| "copy_dicts (key # keys) summ doc =
     seq (get_item summ key) (\<lambda>v.
     if is_dict v
     then seq (get_item summ key) (\<lambda>v'.
          seq (set_item doc key v') (\<lambda>_. copy_dicts keys summ doc))
     else copy_dicts keys summ doc)"

definition create_process_doc :: "int \<Rightarrow> int \<Rightarrow> pyval \<Rightarrow> ('fs, pyval) prog" where
  "create_process_doc start_proc_file_time now summ =
     try_except
       (seq (new_dict []) (\<lambda>doc.
        seq (get_item summ ''totals'') (\<lambda>tot.
        seq (set_item doc ''start_time'' (Val (SIso start_proc_file_time))) (\<lambda>_.
        seq (set_item doc ''end_time'' (Val (SIso now))) (\<lambda>_.
        seq (set_item doc ''elapsed_time_in_millisecs''
               (Val (SInt (elapsed_millis start_proc_file_time now)))) (\<lambda>_.
        seq (get_item doc ''elapsed_time_in_millisecs'') (\<lambda>ms.
        seq (py_truediv ms (Val (SInt 1000))) (\<lambda>secs.
        seq (set_item doc ''elapsed_time_in_secs'' secs) (\<lambda>_.
        seq (get_item tot ''records_ok'') (\<lambda>records_ok.
        seq (get_method tot ''raw_lines'') (\<lambda>raw_lines.
        seq (py_or raw_lines (Val (SInt 1))) (\<lambda>divisor.
        seq (py_truediv records_ok divisor) (\<lambda>q.
        seq (py_mul_float q 100) (\<lambda>perc.
        seq (set_item doc ''valid_transac_perc'' perc) (\<lambda>_.
        seq (get_method tot ''transactions'') (\<lambda>transactions.
        seq (py_or transactions (Val (SInt (- 1)))) (\<lambda>numerator.
        seq (get_item doc ''elapsed_time_in_secs'') (\<lambda>secs'.
        seq (py_or secs' (Val (SInt 1))) (\<lambda>divisor'.
        seq (py_truediv numerator divisor') (\<lambda>tps.
        seq (set_item doc ''tps'' tps) (\<lambda>_.
        seq (dict_keys summ) (\<lambda>keys.
        seq (copy_dicts keys summ doc) (\<lambda>_.
        ret doc)))))))))))))))))))))))
       (\<lambda>err. raise err)"

section \<open>process_next_file\<close>

datatype retval = RNone | RResult string pyval

definition my_proc_name :: string where
  "my_proc_name = ''FileProcessor''"

definition proc_name :: string where
  "proc_name = ''input_processor''"

definition FAIL :: pyval where
  "FAIL = Val (SStr ''FAIL'')"

definition mv_out_arr :: "string list" where
  "mv_out_arr = [''start_time'', ''end_time'', ''elapsed_time_in_millisecs'',
                 ''elapsed_time_in_secs'', ''valid_transac_perc'', ''tps'']"

text \<open>The loop \<^verbatim>\<open>for key in mv_out_arr\<close> of lines 238 to 241.\<close>

fun mv_out :: "string list \<Rightarrow> pyval \<Rightarrow> pyval \<Rightarrow> ('fs, unit) prog" where
  "mv_out [] summ_src job_payload = ret ()"
| "mv_out (key # keys) summ_src job_payload =
     seq (contains summ_src key) (\<lambda>b.
     if b
     then seq (get_item summ_src key) (\<lambda>v.
          seq (get_item job_payload proc_name) (\<lambda>stage.
          seq (set_item stage key v) (\<lambda>_.
          seq (del_item summ_src key) (\<lambda>_. mv_out keys summ_src job_payload))))
     else mv_out keys summ_src job_payload)"

definition set_file_to_proc :: "pending_file option \<Rightarrow> ('fs, unit) prog" where
  "set_file_to_proc v = (\<lambda>s. (Inr (), s\<lparr>file_to_proc := v\<rparr>))"

definition set_process_results_doc :: "pyval \<Rightarrow> ('fs, unit) prog" where
  "set_process_results_doc v = (\<lambda>s. (Inr (), s\<lparr>process_results_doc := v\<rparr>))"

definition set_local_err :: "py_error option \<Rightarrow> ('fs, unit) prog" where
  "set_local_err v = (\<lambda>s. (Inr (), s\<lparr>local_err := v\<rparr>))"

definition set_summary :: "pyval \<Rightarrow> ('fs, unit) prog" where
  "set_summary v = (\<lambda>s. (Inr (), s\<lparr>summary := (case v of Ref a \<Rightarrow> Some a | Val _ \<Rightarrow> None)\<rparr>))"

definition set_task_id :: "string option \<Rightarrow> ('fs, unit) prog" where
  "set_task_id v = (\<lambda>s. (Inr (), s\<lparr>task_id := v\<rparr>))"

text \<open>Line 212: the error flag of the summary, or \<^verbatim>\<open>'OK'\<close>.\<close>

definition error_flag :: "pyval \<Rightarrow> ('fs, pyval) prog" where
  "error_flag summ =
     seq (get_method summ ''error'') (\<lambda>e.
     seq (is_true e) (\<lambda>t.
     if t
     then seq (new_dict []) (\<lambda>dflt.
          seq (get_method_default summ ''error'' dflt) (\<lambda>e'.
          get_method e' ''flag''))
     else ret (Val (SStr ''OK''))))"

text \<open>Lines 218 to 220: a truthy \<^verbatim>\<open>site_name\<close> moves from the totals to the job record.\<close>

definition move_site_name :: "pyval \<Rightarrow> pyval \<Rightarrow> ('fs, unit) prog" where
  "move_site_name summ job_payload =
     seq (get_item summ ''totals'') (\<lambda>tot.
     seq (get_method tot ''site_name'') (\<lambda>sn.
     seq (is_true sn) (\<lambda>t.
     if t
     then seq (get_item summ ''totals'') (\<lambda>tot1.
          seq (get_item tot1 ''site_name'') (\<lambda>v.
          seq (get_item job_payload proc_name) (\<lambda>stage.
          seq (set_item stage ''site_name'' v) (\<lambda>_.
          seq (get_item summ ''totals'') (\<lambda>tot2.
          del_item tot2 ''site_name'')))))
     else ret ())))"

text \<open>Lines 193 to 208: the job record is built and created, and the task id is set.\<close>

definition open_job :: "int \<Rightarrow> pending_file \<Rightarrow> ('fs, pyval \<times> string) prog" where
  "open_job start_proc_file_time f =
     seq (new_dict [(''start_time'', Val (SIso start_proc_file_time)),
                    (''status'', Val (SStr ''processing''))]) (\<lambda>stage0.
     seq (new_dict [(''process_id'', Val (SStr my_proc_name)),
                    (''file'', Val (SStr (file_name f))),
                    (''star_date'', Val (SIso start_proc_file_time)),
                    (proc_name, stage0)]) (\<lambda>job_payload.
     seq (create_job job_payload) (\<lambda>job_id.
     seq (set_task_id (Some job_id)) (\<lambda>_.
     ret (job_payload, job_id)))))"

text \<open>Lines 212 to 216: the destination is chosen by the error flag and the file is moved.\<close>

definition route_file ::
  "'fs os_api \<Rightarrow> (string \<rightharpoonup> string) \<Rightarrow> pending_file \<Rightarrow> pyval \<Rightarrow> ('fs, pyval) prog" where
  "route_file os files_path f summ =
     seq (error_flag summ) (\<lambda>r.
     seq (move_file os (file_name f) (files_path ''repo_path'')
            (if r = FAIL then files_path ''err_path'' else files_path ''ok_path'')) (\<lambda>_.
     ret r))"

text \<open>
  Lines 218 to 241: the result document is computed, and the job record receives the
  status, a copy of the document and the metric fields moved out of that copy.
\<close>

definition fold_results :: "int \<Rightarrow> int \<Rightarrow> pyval \<Rightarrow> pyval \<Rightarrow> pyval \<Rightarrow> ('fs, pyval) prog" where
  "fold_results start_proc_file_time now job_payload summ r =
     seq (move_site_name summ job_payload) (\<lambda>_.
     seq (create_process_doc start_proc_file_time now summ) (\<lambda>doc.
     seq (set_process_results_doc doc) (\<lambda>_.
     seq (get_item job_payload proc_name) (\<lambda>stage.
     seq (set_item stage ''status''
            (Val (SStr (if r = FAIL then ''error'' else ''finished'')))) (\<lambda>_.
     seq (dict_copy doc) (\<lambda>summ_src.
     seq (get_item job_payload proc_name) (\<lambda>stage'.
     seq (set_item stage' ''summary'' summ_src) (\<lambda>_.
     seq (mv_out mv_out_arr summ_src job_payload) (\<lambda>_.
     ret doc)))))))))"

text \<open>Lines 193 to 247: the steps after a file was selected.\<close>

definition process_selected ::
  "'fs os_api \<Rightarrow> parser \<Rightarrow> int \<Rightarrow> int \<Rightarrow> (string \<rightharpoonup> string) \<Rightarrow> pending_file
     \<Rightarrow> ('fs, retval) prog" where
  "process_selected os parser start_proc_file_time now files_path f =
     seq (open_job start_proc_file_time f) (\<lambda>(job_payload, job_id).
     seq (call_parser parser f job_id) (\<lambda>summ.
     seq (set_summary summ) (\<lambda>_.
     seq (route_file os files_path f summ) (\<lambda>r.
     seq (fold_results start_proc_file_time now job_payload summ r) (\<lambda>doc.
     seq (update_job job_id job_payload) (\<lambda>_.
     seq (set_task_id None) (\<lambda>_.
     ret (RResult (file_name f) doc))))))))"

text \<open>Lines 188 to 247: the body of the inner \<^verbatim>\<open>try\<close>.\<close>

definition try_block ::
  "'fs os_api \<Rightarrow> parser \<Rightarrow> int \<Rightarrow> int \<Rightarrow> (string \<rightharpoonup> string) \<Rightarrow> bool \<Rightarrow> ('fs, retval) prog" where
  "try_block os parser start_proc_file_time now files_path reverse_time_order =
     seq (\<lambda>s. (get_first_available_file os (filesys s) files_path reverse_time_order, s))
       (\<lambda>sel.
     seq (set_file_to_proc sel) (\<lambda>_.
     case sel of
       None \<Rightarrow> ret RNone
     | Some f \<Rightarrow> process_selected os parser start_proc_file_time now files_path f))"

text \<open>Lines 252 to 255: the \<^verbatim>\<open>finally\<close> block.\<close>

definition finally_block :: "('fs, unit) prog" where
  "finally_block = (\<lambda>s. case file_to_proc s of
       None \<Rightarrow> ret () s
     | Some f \<Rightarrow> clean_file_process_q (file_name f) (local_err s) s)"

text \<open>Lines 257 to 260: what follows the inner \<^verbatim>\<open>try\<close> once its handler has run.\<close>

definition after_try :: "('fs, retval) prog" where
  "after_try = (\<lambda>s. case file_to_proc s of
       None \<Rightarrow> ret RNone s
     | Some f \<Rightarrow> ret (RResult (file_name f) (process_results_doc s)) s)"

text \<open>
  The whole function. A \<^verbatim>\<open>return\<close> inside the inner \<^verbatim>\<open>try\<close> runs the
  \<^verbatim>\<open>finally\<close> block and leaves; an exception runs the handler of line 249, then the
  \<^verbatim>\<open>finally\<close> block, then lines 257 to 260. The outer handler of line 262 logs and
  raises again whatever escapes from there. The two clock readings (lines 193 and 271)
  are the arguments \<open>start_proc_file_time\<close> and \<open>now\<close>.
\<close>

definition process_next_file ::
  "'fs os_api \<Rightarrow> parser \<Rightarrow> int \<Rightarrow> int \<Rightarrow> (string \<rightharpoonup> string) \<Rightarrow> bool \<Rightarrow> ('fs, retval) prog" where
  "process_next_file os parser start_proc_file_time now files_path reverse_time_order =
     seq (set_local_err None) (\<lambda>_.
     seq (set_file_to_proc None) (\<lambda>_.
     seq (set_process_results_doc (Val SNone)) (\<lambda>_.
     try_except
       (\<lambda>s. case try_block os parser start_proc_file_time now files_path reverse_time_order s of
              (Inr r, s1) \<Rightarrow> seq finally_block (\<lambda>_. ret r) s1
            | (Inl err, s1) \<Rightarrow>
                seq (set_local_err (Some err)) (\<lambda>_.
                seq finally_block (\<lambda>_. after_try)) s1)
       (\<lambda>err. raise err))))"

section \<open>A small file system\<close>

text \<open>
  An instance of the interface, for running the code on concrete inputs: a list of
  directories, each with the names of the regular files in it. Listing a path that is
  not a directory, creating a directory where a regular file is, and renaming anything
  but a regular file into an existing directory raise \<^verbatim>\<open>OSError\<close>.
\<close>

type_synonym toy_fs = "(string \<times> string list) list"

definition toy_files :: "toy_fs \<Rightarrow> string list" where
  "toy_files fs = concat (map (\<lambda>(d, ns). map (path_join d) ns) fs)"

definition toy_exists :: "toy_fs \<Rightarrow> string \<Rightarrow> bool" where
  "toy_exists fs p = (p \<in> set (map fst fs) \<or> p \<in> set (toy_files fs))"

definition toy_isfile :: "toy_fs \<Rightarrow> string \<Rightarrow> bool" where
  "toy_isfile fs p = (p \<in> set (toy_files fs))"

definition toy_listdir :: "toy_fs \<Rightarrow> string \<Rightarrow> py_error + string list" where
  "toy_listdir fs p =
     (case map_of fs p of
        Some ns \<Rightarrow> Inr ns
      | None \<Rightarrow> Inl (OSError (if toy_isfile fs p then ''NotADirectoryError''
                               else ''FileNotFoundError'')))"

definition toy_makedirs :: "toy_fs \<Rightarrow> string \<Rightarrow> (py_error + unit) \<times> toy_fs" where
  "toy_makedirs fs p =
     (if p \<in> set (map fst fs) then (Inr (), fs)
      else if toy_isfile fs p \<or> p = [] then (Inl (OSError ''FileExistsError''), fs)
      else (Inr (), fs @ [(p, [])]))"

definition toy_rename :: "toy_fs \<Rightarrow> string \<Rightarrow> string \<Rightarrow> (py_error + unit) \<times> toy_fs" where
  "toy_rename fs src dst =
     (case concat (map (\<lambda>(d, ns). concat (map (\<lambda>n. concat (map (\<lambda>(d', ns').
                     if path_join d n = src \<and> path_join d' n = dst then [(d, n, d')] else [])
                   fs)) ns)) fs) of
        [] \<Rightarrow> (Inl (OSError ''rename''), fs)
      | (d, n, d') # _ \<Rightarrow>
          (Inr (), map (\<lambda>(x, ns). (x, (if x = d' then [n] else []) @
                                      filter (\<lambda>m. m \<noteq> n \<or> (x \<noteq> d \<and> x \<noteq> d')) ns)) fs))"

definition toy_os :: "toy_fs os_api" where
  "toy_os = \<lparr>os_path_exists = toy_exists, os_path_isfile = toy_isfile,
             os_listdir = toy_listdir, os_makedirs = toy_makedirs, os_rename = toy_rename\<rparr>"

text \<open>A state with an empty job store and no objects, over a given file system.\<close>

definition init_state :: "'fs \<Rightarrow> 'fs state" where
  "init_state fs = \<lparr>store = (\<lambda>_. []), next_addr = 0, jobs = Map.empty, job_counter = 0,
                    task_id = None, filesys = fs, calls = [], file_to_proc = None,
                    process_results_doc = Val SNone, local_err = None, summary = None\<rparr>"

text \<open>The configuration of \<^verbatim>\<open>main\<close>.\<close>

definition main_files_path :: "string \<rightharpoonup> string" where
  "main_files_path = [''repo_path'' \<mapsto> ''./input_files'', ''ok_path'' \<mapsto> ''./processed_files'',
                      ''err_path'' \<mapsto> ''./error_files'']"

section \<open>Notions used in the statements\<close>

text \<open>The value of \<^verbatim>\<open>d.get(k)\<close>.\<close>

definition dict_get :: "pydict \<Rightarrow> string \<Rightarrow> pyval" where
  "dict_get d k = (case map_of d k of None \<Rightarrow> Val SNone | Some v \<Rightarrow> v)"




text \<open>
  Frame conditions: \<open>keeps g m\<close> says that the statement \<open>m\<close> leaves the observation \<open>g\<close> of
  the state unchanged, whatever its outcome; \<open>returns P m\<close> says that every value \<open>m\<close>
  returns satisfies \<open>P\<close>.
\<close>

definition keeps :: "('fs state \<Rightarrow> 'b) \<Rightarrow> ('fs, 'a) prog \<Rightarrow> bool" where
  "keeps g m = (\<forall>s. g (snd (m s)) = g s)"

definition ignores_heap :: "('fs state \<Rightarrow> 'b) \<Rightarrow> bool" where
  "ignores_heap g = (\<forall>s st n. g (s\<lparr>store := st\<rparr>) = g s \<and> g (s\<lparr>next_addr := n\<rparr>) = g s)"

definition ignores_run :: "('fs state \<Rightarrow> 'b) \<Rightarrow> bool" where
  "ignores_run g =
     (ignores_heap g
      \<and> (\<forall>s v. g (s\<lparr>task_id := v\<rparr>) = g s) \<and> (\<forall>s v. g (s\<lparr>calls := v\<rparr>) = g s)
      \<and> (\<forall>s v. g (s\<lparr>jobs := v\<rparr>) = g s) \<and> (\<forall>s v. g (s\<lparr>job_counter := v\<rparr>) = g s)
      \<and> (\<forall>s v. g (s\<lparr>filesys := v\<rparr>) = g s) \<and> (\<forall>s v. g (s\<lparr>summary := v\<rparr>) = g s)
      \<and> (\<forall>s v. g (s\<lparr>process_results_doc := v\<rparr>) = g s))"


text \<open>The id that the next call of \<^verbatim>\<open>create_job\<close> assigns.\<close>

definition job_id_of :: "'fs state \<Rightarrow> string" where
  "job_id_of s = ''JOB_'' @ str_of_nat (job_counter s + 1)"

text \<open>
  The run of \<^verbatim>\<open>main\<close>: the configuration of the source, a watch directory holding two
  files, the parser of the source, and two clock readings two seconds apart.
\<close>

definition main_fs :: toy_fs where
  "main_fs = [(''./input_files'', [''b.csv'', ''a.csv''])]"

definition main_file :: pending_file where
  "main_file = \<lparr>file_name = ''a.csv'', full_path = ''./input_files/a.csv''\<rparr>"

definition main_run :: "(py_error + retval) \<times> toy_fs state" where
  "main_run = process_next_file toy_os import_feed_file 0 2000000 main_files_path False (init_state main_fs)"


text \<open>
  Values of objects. \<open>vals e\<close> is the dictionary holding the scalars \<open>e\<close>, \<open>scalars_of d\<close>
  the scalar entries of a dictionary, \<open>stored st v\<close> the value of \<open>v\<close> in the store \<open>st\<close>
  one level deep, and \<open>summary_value st m\<close> the value of the summary at address \<open>m\<close>.
  \<open>norm_lit lit\<close> is the value of the dictionary display \<open>lit\<close>, in which a later
  duplicate key has overwritten an earlier one.
\<close>

definition vals :: "(string \<times> scalar) list \<Rightarrow> pydict" where
  "vals e = map (\<lambda>(k, c). (k, Val c)) e"

definition scalars_of :: "pydict \<Rightarrow> (string \<times> scalar) list" where
  "scalars_of d = concat (map (\<lambda>(k, v). case v of Val c \<Rightarrow> [(k, c)] | Ref a \<Rightarrow> []) d)"

definition stored :: "(addr \<Rightarrow> pydict) \<Rightarrow> pyval \<Rightarrow> field_lit" where
  "stored st v = (case v of Val c \<Rightarrow> Scalar c | Ref a \<Rightarrow> Nested (scalars_of (st a)))"

definition summary_value :: "(addr \<Rightarrow> pydict) \<Rightarrow> addr \<Rightarrow> summary_lit" where
  "summary_value st m = map (\<lambda>(k, v). (k, stored st v)) (st m)"

definition norm_field :: "field_lit \<Rightarrow> field_lit" where
  "norm_field fl = (case fl of Scalar c \<Rightarrow> Scalar c | Nested e \<Rightarrow> Nested (dict_of e))"

definition norm_lit :: "summary_lit \<Rightarrow> summary_lit" where
  "norm_lit lit = map (\<lambda>(k, fl). (k, norm_field fl)) (dict_of lit)"

text \<open>
  The error flag of a summary value, as line 212 reads it:
  \<^verbatim>\<open>summary.get('error', {}).get('flag') if summary.get('error') else 'OK'\<close>. It is
  \<open>None\<close> where the expression raises (a truthy error entry that is not a dictionary).
\<close>

definition summary_flag :: "summary_lit \<Rightarrow> scalar option" where
  "summary_flag V =
     (case map_of V ''error'' of
        None \<Rightarrow> Some (SStr ''OK'')
      | Some (Scalar c) \<Rightarrow> if truthy (\<lambda>_. []) (Val c) then None else Some (SStr ''OK'')
      | Some (Nested e) \<Rightarrow>
          if e = [] then Some (SStr ''OK'')
          else Some (case map_of e ''flag'' of None \<Rightarrow> SNone | Some c \<Rightarrow> c))"

text \<open>
  The summary value after lines 218 to 220: a truthy \<^verbatim>\<open>site_name\<close> is deleted from the
  totals.
\<close>

definition without_site_name :: "summary_lit \<Rightarrow> summary_lit" where
  "without_site_name V =
     map (\<lambda>(k, fl). (k, case fl of
            Scalar c \<Rightarrow> Scalar c
          | Nested e \<Rightarrow>
              if k = ''totals'' \<and> truthy (\<lambda>_. []) (dict_get (vals e) ''site_name'')
              then Nested (AList.delete ''site_name'' e) else Nested e)) V"

text \<open>The entry \<open>k\<close> of \<^verbatim>\<open>jobs[job_id][proc_name]\<close>, the stage slot of a job record.\<close>

definition stage_field :: "'fs state \<Rightarrow> string \<Rightarrow> string \<Rightarrow> pyval option" where
  "stage_field s job_id k =
     (case jobs s job_id of
        None \<Rightarrow> None
      | Some p \<Rightarrow> (case map_of (store s p) proc_name of
                     Some (Ref g) \<Rightarrow> map_of (store s g) k
                   | _ \<Rightarrow> None))"

text \<open>
  A summary on which lines 212 to 241 raise nothing: the error flag can be read, the
  totals are a dictionary, \<^verbatim>\<open>records_ok\<close> is a number, and \<^verbatim>\<open>raw_lines\<close> and
  \<^verbatim>\<open>transactions\<close> are each absent, falsy or a number.
\<close>

definition num_or_falsy :: "scalar \<Rightarrow> bool" where
  "num_or_falsy c = (num_of (Val c) \<noteq> None \<or> \<not> truthy (\<lambda>_. []) (Val c))"

definition wf_summary :: "summary_lit \<Rightarrow> bool" where
  "wf_summary V =
     (summary_flag V \<noteq> None \<and>
      (case map_of V ''totals'' of
         Some (Nested e) \<Rightarrow>
           (case map_of e ''records_ok'' of Some c \<Rightarrow> num_of (Val c) \<noteq> None | None \<Rightarrow> False)
         \<and> (case map_of e ''raw_lines'' of Some c \<Rightarrow> num_or_falsy c | None \<Rightarrow> True)
         \<and> (case map_of e ''transactions'' of Some c \<Rightarrow> num_or_falsy c | None \<Rightarrow> True)
       | _ \<Rightarrow> False))"


section \<open>Evaluation on the small file system\<close>

lemmas toy_defs = toy_os_def toy_exists_def toy_isfile_def toy_listdir_def toy_makedirs_def
  toy_rename_def toy_files_def path_join_def


section \<open>Selecting the file\<close>









section \<open>Updating an unknown job\<close>

text \<open>
  Claim C3, as amended. A call of \<^verbatim>\<open>update_job\<close> with a job id that is not in the store
  leaves the job store and every object unchanged and raises nothing; it returns
  \<^verbatim>\<open>True\<close>, the value it returns for a known id, and gives no failure indication.
\<close>

theorem update_job_unknown_id:
  "jobs s job_id = None \<Longrightarrow>
     update_job job_id payload s = (Inr True, s\<lparr>calls := calls s @ [Call_update_job job_id]\<rparr>)"
  by (simp add: update_job_def Let_def)

theorem update_job_unknown_id_witness:
  "jobs (init_state ()) ''JOB_7'' = None
   \<and> update_job ''JOB_7'' (Ref 0) (init_state ())
       = (Inr True, (init_state ())\<lparr>calls := [Call_update_job ''JOB_7'']\<rparr>)"
  using update_job_unknown_id [of "init_state ()" "''JOB_7''" "Ref 0"]
  by (simp add: init_state_def)

theorem update_job_unknown_id_counterexample:
  "jobs (init_state ()) ''JOB_7'' = None
   \<and> fst (update_job ''JOB_7'' (Ref 0) (init_state ())) \<noteq> Inr False"
  by (simp add: init_state_def update_job_def Let_def)

section \<open>Moving the file\<close>

lemma move_file_eq:
  fixes os :: "'fs os_api" and s :: "'fs state"
  shows "move_file os name from_path to_path s =
    (let s1 = s\<lparr>calls := calls s @ [Call_move_file name from_path to_path]\<rparr> in
     case from_path of
       None \<Rightarrow> (Inr False, s1)
     | Some fp \<Rightarrow>
        (case to_path of
           None \<Rightarrow> (Inr False, s1)
         | Some tp \<Rightarrow>
            (case os_makedirs os (filesys s) tp of
               (Inl e, fs1) \<Rightarrow> (Inr False, s1\<lparr>filesys := fs1\<rparr>)
             | (Inr u, fs1) \<Rightarrow>
                 if os_path_exists os fs1 (path_join fp name)
                 then (case os_rename os fs1 (path_join fp name) (path_join tp name) of
                         (Inl e, fs2) \<Rightarrow> (Inr False, s1\<lparr>filesys := fs2\<rparr>)
                       | (Inr u, fs2) \<Rightarrow> (Inr True, s1\<lparr>filesys := fs2\<rparr>))
                 else (Inr False, s1\<lparr>filesys := fs1\<rparr>))))"
  by (simp add: move_file_def seq_def try_except_def ret_def raise_def lift_def note_call_def
      os_path_join_def do_makedirs_def do_rename_def path_exists_def Let_def
      split: option.splits prod.splits sum.splits)

text \<open>
  Claim C10. \<^verbatim>\<open>move_file\<close> never raises: it returns \<^verbatim>\<open>True\<close> or \<^verbatim>\<open>False\<close>. The
  destination directory is created first, and the existence test and the rename act on
  the file system that \<^verbatim>\<open>os.makedirs\<close> left. A source that does not exist then gives
  \<^verbatim>\<open>False\<close>, and so does a fault of \<^verbatim>\<open>os.path.join\<close>, \<^verbatim>\<open>os.makedirs\<close> or
  \<^verbatim>\<open>os.rename\<close>.
\<close>

theorem move_file_never_raises:
  fixes os :: "'fs os_api" and s :: "'fs state"
  shows "\<exists>b fs'. move_file os name from_path to_path s =
                  (Inr b, s\<lparr>calls := calls s @ [Call_move_file name from_path to_path], filesys := fs'\<rparr>)
           \<and> (from_path = None \<or> to_path = None \<longrightarrow> \<not> b \<and> fs' = filesys s)
           \<and> (\<forall>fp tp. from_path = Some fp \<and> to_path = Some tp \<longrightarrow>
                 (case os_makedirs os (filesys s) tp of
                    (Inl e, fs1) \<Rightarrow> \<not> b \<and> fs' = fs1
                  | (Inr u, fs1) \<Rightarrow>
                      if os_path_exists os fs1 (path_join fp name)
                      then (case os_rename os fs1 (path_join fp name) (path_join tp name) of
                              (Inl e, fs2) \<Rightarrow> \<not> b \<and> fs' = fs2
                            | (Inr u, fs2) \<Rightarrow> b \<and> fs' = fs2)
                      else \<not> b \<and> fs' = fs1))"
  unfolding move_file_eq Let_def
  by (auto split: option.splits prod.splits sum.splits)

theorem move_file_never_raises_witness:
  "fst (move_file toy_os ''a.csv'' (Some ''in'') (Some ''out'') (init_state [(''in'', [''b.csv''])])) = Inr False
   \<and> filesys (snd (move_file toy_os ''a.csv'' (Some ''in'') (Some ''out'') (init_state [(''in'', [''b.csv''])])))
       = [(''in'', [''b.csv'']), (''out'', [])]
   \<and> fst (move_file toy_os ''b.csv'' (Some ''in'') (Some ''out'') (init_state [(''in'', [''b.csv''])])) = Inr True
   \<and> filesys (snd (move_file toy_os ''b.csv'' (Some ''in'') (Some ''out'') (init_state [(''in'', [''b.csv''])])))
       = [(''in'', []), (''out'', [''b.csv''])]
   \<and> fst (move_file toy_os ''b.csv'' (Some ''in'') None (init_state [(''in'', [''b.csv''])])) = Inr False
   \<and> fst (move_file toy_os ''b.csv'' (Some ''in'') (Some ''in/b.csv'') (init_state [(''in'', [''b.csv''])])) = Inr False"
  using move_file_never_raises [of toy_os "''a.csv''" "Some ''in''" "Some ''out''" "init_state [(''in'', [''b.csv''])]"]
        move_file_never_raises [of toy_os "''b.csv''" "Some ''in''" "Some ''out''" "init_state [(''in'', [''b.csv''])]"]
        move_file_never_raises [of toy_os "''b.csv''" "Some ''in''" "None" "init_state [(''in'', [''b.csv''])]"]
        move_file_never_raises [of toy_os "''b.csv''" "Some ''in''" "Some ''in/b.csv''" "init_state [(''in'', [''b.csv''])]"]
  by (auto simp: toy_defs init_state_def)
section \<open>The result document\<close>

lemma num_of_truthy: "num_of v = Some r \<Longrightarrow> truthy st v = (r \<noteq> 0)"
  by (cases v rule: num_of.cases) (auto split: if_splits)

lemma copy_dicts_spec:
  assumes "d \<noteq> m" "set keys \<subseteq> fst ` set (store s m)"
  shows "\<exists>D'. copy_dicts keys (Ref m) (Ref d) s = (Inr (), s\<lparr>store := (store s)(d := D')\<rparr>)
            \<and> (\<forall>k. (\<forall>a. map_of (store s m) k \<noteq> Some (Ref a)) \<longrightarrow> map_of D' k = map_of (store s d) k)
            \<and> (\<forall>k v. map_of D' k = Some v \<longrightarrow> map_of (store s d) k = Some v \<or> is_dict v)
            \<and> dom (map_of (store s d)) \<subseteq> dom (map_of D')"
  using assms
proof (induction keys arbitrary: s)
  case Nil
  show ?case
    by (rule exI [of _ "store s d"]) (simp add: ret_def)
next
  case (Cons key keys)
  from Cons.prems obtain v where v: "map_of (store s m) key = Some v"
    by (metis (no_types, opaque_lifting) list.set_intros(1) subsetD domD dom_map_of_conv_image_fst domIff not_None_eq)
  show ?case
  proof (cases "is_dict v")
    case False
    then have step: "copy_dicts (key # keys) (Ref m) (Ref d) s = copy_dicts keys (Ref m) (Ref d) s"
      using v by (simp add: seq_def get_item_def)
    from Cons.IH [of s] Cons.prems show ?thesis unfolding step by simp
  next
    case True
    let ?s1 = "s\<lparr>store := (store s)(d := AList.update key v (store s d))\<rparr>"
    have step: "copy_dicts (key # keys) (Ref m) (Ref d) s = copy_dicts keys (Ref m) (Ref d) ?s1"
      using v True by (simp add: seq_def get_item_def set_item_def)
    have pre: "set keys \<subseteq> fst ` set (store ?s1 m)" using Cons.prems by simp
    from Cons.IH [OF Cons.prems(1) pre] obtain D' where
      D: "copy_dicts keys (Ref m) (Ref d) ?s1 = (Inr (), ?s1\<lparr>store := (store ?s1)(d := D')\<rparr>)"
      and D1: "\<forall>k. (\<forall>a. map_of (store ?s1 m) k \<noteq> Some (Ref a)) \<longrightarrow> map_of D' k = map_of (store ?s1 d) k"
      and D2: "\<forall>k v. map_of D' k = Some v \<longrightarrow> map_of (store ?s1 d) k = Some v \<or> is_dict v"
      and D3: "dom (map_of (store ?s1 d)) \<subseteq> dom (map_of D')"
      by blast
    obtain a where a: "v = Ref a" using True by (cases v) auto
    show ?thesis
    proof (intro exI [of _ D'] conjI allI impI)
      show "copy_dicts (key # keys) (Ref m) (Ref d) s = (Inr (), s\<lparr>store := (store s)(d := D')\<rparr>)"
        unfolding step D by simp
    next
      fix k assume nk: "\<forall>a. map_of (store s m) k \<noteq> Some (Ref a)"
      then have "k \<noteq> key" using v a by auto
      moreover have "map_of D' k = map_of (store ?s1 d) k" using D1 nk Cons.prems(1) by simp
      ultimately show "map_of D' k = map_of (store s d) k" by (simp add: update_conv')
    next
      fix k w assume "map_of D' k = Some w"
      with D2 have "map_of (store ?s1 d) k = Some w \<or> is_dict w" by blast
      then show "map_of (store s d) k = Some w \<or> is_dict w"
        using True by (auto simp: update_conv' split: if_splits)
    next
      show "dom (map_of (store s d)) \<subseteq> dom (map_of D')"
        using D3 by (auto simp: update_conv')
    qed
  qed
qed











section \<open>Frame conditions\<close>

lemma keepsD: "keeps g m \<Longrightarrow> m s = (r, s') \<Longrightarrow> g s' = g s"
  by (auto simp: keeps_def dest: spec [of _ s])

lemma keeps_ret: "keeps g (ret x)"
  by (simp add: keeps_def ret_def)

lemma keeps_raise: "keeps g (raise e)"
  by (simp add: keeps_def raise_def)

lemma keeps_lift: "keeps g (lift r)"
  by (simp add: keeps_def lift_def)

lemma keeps_seq: "keeps g m \<Longrightarrow> (\<And>x. keeps g (f x)) \<Longrightarrow> keeps g (seq m f)"
  unfolding keeps_def seq_def
  by (auto split: prod.splits sum.splits) (metis snd_conv)+

lemma keeps_try_except: "keeps g m \<Longrightarrow> (\<And>e. keeps g (h e)) \<Longrightarrow> keeps g (try_except m h)"
  unfolding keeps_def try_except_def
  by (auto split: prod.splits sum.splits) (metis snd_conv)+

lemma keeps_if: "keeps g a \<Longrightarrow> keeps g b \<Longrightarrow> keeps g (if c then a else b)"
  by simp

lemma keeps_case_option:
  "keeps g a \<Longrightarrow> (\<And>x. keeps g (b x)) \<Longrightarrow> keeps g (case v of None \<Rightarrow> a | Some x \<Rightarrow> b x)"
  by (cases v) simp_all

lemma keeps_case_sum:
  "(\<And>x. keeps g (a x)) \<Longrightarrow> (\<And>x. keeps g (b x)) \<Longrightarrow> keeps g (case v of Inl x \<Rightarrow> a x | Inr x \<Rightarrow> b x)"
  by (cases v) simp_all

lemma keeps_case_prod:
  "(\<And>x y. keeps g (a x y)) \<Longrightarrow> keeps g (case v of (x, y) \<Rightarrow> a x y)"
  by (cases v) simp_all

lemma keeps_alloc: "ignores_heap g \<Longrightarrow> keeps g (alloc d)"
  by (simp add: keeps_def alloc_def ignores_heap_def)

lemma keeps_new_dict: "ignores_heap g \<Longrightarrow> keeps g (new_dict d)"
  by (simp add: new_dict_def keeps_alloc)

lemma keeps_get_item: "keeps g (get_item x k)"
  by (simp add: keeps_def get_item_def split: pyval.splits option.splits)

lemma keeps_get_method: "keeps g (get_method x k)"
  by (simp add: keeps_def get_method_def split: pyval.splits option.splits)

lemma keeps_get_method_default: "keeps g (get_method_default x k d)"
  by (simp add: keeps_def get_method_default_def split: pyval.splits option.splits)

lemma keeps_set_item: "ignores_heap g \<Longrightarrow> keeps g (set_item x k v)"
  by (simp add: keeps_def set_item_def ignores_heap_def split: pyval.splits)

lemma keeps_del_item: "ignores_heap g \<Longrightarrow> keeps g (del_item x k)"
  by (simp add: keeps_def del_item_def ignores_heap_def split: pyval.splits option.splits)

lemma keeps_contains: "keeps g (contains x k)"
  by (simp add: keeps_def contains_def split: pyval.splits)

lemma keeps_dict_copy: "ignores_heap g \<Longrightarrow> keeps g (dict_copy x)"
  by (simp add: keeps_def dict_copy_def alloc_def ignores_heap_def split: pyval.splits)

lemma keeps_dict_keys: "keeps g (dict_keys x)"
  by (simp add: keeps_def dict_keys_def split: pyval.splits)

lemma keeps_is_true: "keeps g (is_true x)"
  by (simp add: keeps_def is_true_def)

lemma keeps_py_or: "keeps g (py_or x y)"
  by (simp add: keeps_def py_or_def)

lemma keeps_py_truediv: "keeps g (py_truediv x y)"
  by (simp add: keeps_def py_truediv_def split: option.splits)

lemma keeps_py_mul_float: "keeps g (py_mul_float x n)"
  by (simp add: keeps_def py_mul_float_def split: pyval.splits scalar.splits)

lemmas keeps_basic = keeps_ret keeps_raise keeps_lift keeps_seq keeps_try_except keeps_if
  keeps_case_option keeps_case_sum keeps_case_prod keeps_alloc keeps_new_dict keeps_get_item
  keeps_get_method keeps_get_method_default keeps_set_item keeps_del_item keeps_contains
  keeps_dict_copy keeps_dict_keys keeps_is_true keeps_py_or keeps_py_truediv keeps_py_mul_float

lemma keeps_copy_dicts: "ignores_heap g \<Longrightarrow> keeps g (copy_dicts keys summ doc)"
  by (induction keys) (auto intro!: keeps_basic)

lemma keeps_mv_out: "ignores_heap g \<Longrightarrow> keeps g (mv_out keys summ_src job_payload)"
  by (induction keys) (auto intro!: keeps_basic)

lemma keeps_alloc_fields: "ignores_heap g \<Longrightarrow> keeps g (alloc_fields fl)"
  by (induction fl rule: alloc_fields.induct) (auto intro!: keeps_basic)

lemma keeps_call_parser: "ignores_heap g \<Longrightarrow> keeps g (call_parser parser f job_id)"
  unfolding call_parser_def by (intro keeps_basic keeps_alloc_fields)

lemma keeps_create_process_doc: "ignores_heap g \<Longrightarrow> keeps g (create_process_doc t0 t1 summ)"
  unfolding create_process_doc_def by (intro keeps_basic keeps_copy_dicts)

lemma keeps_error_flag: "ignores_heap g \<Longrightarrow> keeps g (error_flag summ)"
  unfolding error_flag_def by (intro keeps_basic)

lemma keeps_move_site_name: "ignores_heap g \<Longrightarrow> keeps g (move_site_name summ job_payload)"
  unfolding move_site_name_def by (intro keeps_basic)

lemma ignores_heap_fields:
  "ignores_heap calls" "ignores_heap file_to_proc" "ignores_heap local_err" "ignores_heap jobs"
  "ignores_heap summary" "ignores_heap filesys" "ignores_heap job_counter" "ignores_heap task_id"
  "ignores_heap process_results_doc"
  by (simp_all add: ignores_heap_def)

lemma ignores_run_heap: "ignores_run g \<Longrightarrow> ignores_heap g"
  by (simp add: ignores_run_def)

lemma ignores_run_fields: "ignores_run file_to_proc" "ignores_run local_err"
  by (simp_all add: ignores_run_def ignores_heap_def)

lemma keeps_set_task_id: "ignores_run g \<Longrightarrow> keeps g (set_task_id v)"
  by (simp add: keeps_def set_task_id_def ignores_run_def)

lemma keeps_set_summary: "ignores_run g \<Longrightarrow> keeps g (set_summary v)"
  by (simp add: keeps_def set_summary_def ignores_run_def)

lemma keeps_set_process_results_doc: "ignores_run g \<Longrightarrow> keeps g (set_process_results_doc v)"
  by (simp add: keeps_def set_process_results_doc_def ignores_run_def)

lemma keeps_create_job: "ignores_run g \<Longrightarrow> keeps g (create_job p)"
  by (simp add: keeps_def create_job_def ignores_run_def Let_def split: pyval.splits)

lemma keeps_update_job: "ignores_run g \<Longrightarrow> keeps g (update_job job_id p)"
  by (simp add: keeps_def update_job_def ignores_run_def ignores_heap_def Let_def
      split: pyval.splits option.splits)

lemma keeps_move_file: "ignores_run g \<Longrightarrow> keeps g (move_file os name from_path to_path)"
  by (simp add: keeps_def move_file_eq ignores_run_def Let_def split: option.splits prod.splits sum.splits)

lemma keeps_open_job: "ignores_run g \<Longrightarrow> keeps g (open_job t0 f)"
  unfolding open_job_def
  by (intro keeps_basic keeps_create_job keeps_set_task_id ignores_run_heap)

lemma keeps_route_file: "ignores_run g \<Longrightarrow> keeps g (route_file os files_path f summ)"
  unfolding route_file_def
  by (intro keeps_basic keeps_error_flag keeps_move_file ignores_run_heap)

lemma keeps_fold_results: "ignores_run g \<Longrightarrow> keeps g (fold_results t0 t1 job_payload summ r)"
  unfolding fold_results_def
  by (intro keeps_basic keeps_move_site_name keeps_create_process_doc keeps_mv_out
      keeps_set_process_results_doc ignores_run_heap)

lemma keeps_process_selected:
  "ignores_run g \<Longrightarrow> keeps g (process_selected os parser t0 t1 files_path f)"
  unfolding process_selected_def
  by (intro keeps_basic keeps_open_job keeps_call_parser keeps_set_summary keeps_route_file
      keeps_fold_results keeps_update_job keeps_set_task_id ignores_run_heap)

text \<open>The three outcomes of the function, by what its inner block does.\<close>

lemma process_next_file_unfold:
  fixes s :: "'fs state"
  defines "s0 \<equiv> s\<lparr>local_err := None, file_to_proc := None, process_results_doc := Val SNone\<rparr>"
  shows "process_next_file os parser t0 t1 files_path r s =
     (case try_block os parser t0 t1 files_path r s0 of
        (Inr v, s1) \<Rightarrow>
          (Inr v, case file_to_proc s1 of None \<Rightarrow> s1
                  | Some f \<Rightarrow> s1\<lparr>calls := calls s1 @ [Call_clean_file_process_q (file_name f) (local_err s1)]\<rparr>)
      | (Inl e, s1) \<Rightarrow>
          (case file_to_proc s1 of
             None \<Rightarrow> (Inr RNone, s1\<lparr>local_err := Some e\<rparr>)
           | Some f \<Rightarrow> (Inr (RResult (file_name f) (process_results_doc s1)),
                        s1\<lparr>calls := calls s1 @ [Call_clean_file_process_q (file_name f) (Some e)],
                           local_err := Some e\<rparr>)))"
proof -
  obtain r1 s1 where t: "try_block os parser t0 t1 files_path r s0 = (r1, s1)"
    by (cases "try_block os parser t0 t1 files_path r s0")
  show ?thesis
    using t unfolding s0_def
    unfolding process_next_file_def seq_def set_local_err_def set_file_to_proc_def
      set_process_results_doc_def try_except_def prod.case sum.case
    by (cases r1; cases "file_to_proc s1")
       (simp_all add: ret_def raise_def finally_block_def
          after_try_def clean_file_process_q_def note_call_def)
qed

lemma try_block_unfold:
  "try_block os parser t0 t1 files_path r s =
     (case get_first_available_file os (filesys s) files_path r of
        Inl e \<Rightarrow> (Inl e, s)
      | Inr None \<Rightarrow> (Inr RNone, s\<lparr>file_to_proc := None\<rparr>)
      | Inr (Some f) \<Rightarrow> process_selected os parser t0 t1 files_path f (s\<lparr>file_to_proc := Some f\<rparr>))"
  by (simp add: try_block_def seq_def ret_def set_file_to_proc_def split: sum.splits option.splits)

lemma seq_Inr: "m s = (Inr x, s1) \<Longrightarrow> seq m f s = f x s1"
  by (simp add: seq_def)

lemma seq_Inl: "m s = (Inl e, s1) \<Longrightarrow> seq m f s = (Inl e, s1)"
  by (simp add: seq_def)











section \<open>The calls of one invocation\<close>

lemma open_job_eff:
  fixes s :: "'fs state"
  shows "\<exists>s1. open_job t0 f s = (Inr (Ref (Suc (next_addr s)), job_id_of s), s1)
     \<and> calls s1 = calls s @ [Call_create_job (job_id_of s)]
     \<and> next_addr s1 = Suc (Suc (next_addr s))
     \<and> store s1 = (store s)
          (next_addr s := [(''start_time'', Val (SIso t0)), (''status'', Val (SStr ''processing''))],
           Suc (next_addr s) := [(''process_id'', Val (SStr my_proc_name)),
                                 (''file'', Val (SStr (file_name f))),
                                 (''star_date'', Val (SIso t0)),
                                 (proc_name, Ref (next_addr s))])
     \<and> jobs s1 = (jobs s)(job_id_of s \<mapsto> Suc (next_addr s))
     \<and> file_to_proc s1 = file_to_proc s \<and> local_err s1 = local_err s
     \<and> filesys s1 = filesys s \<and> process_results_doc s1 = process_results_doc s
     \<and> summary s1 = summary s"
  by (simp add: open_job_def seq_def ret_def new_dict_def alloc_def dict_of_def create_job_def
      set_task_id_def Let_def job_id_of_def proc_name_def my_proc_name_def)

lemma keeps_fold_results_gen:
  assumes "ignores_heap g" "\<And>s v. g (s\<lparr>process_results_doc := v\<rparr>) = g s"
  shows "keeps g (fold_results t0 t1 job_payload summ r)"
proof -
  have "\<And>v. keeps g (set_process_results_doc v)"
    using assms(2) by (simp add: keeps_def set_process_results_doc_def)
  then show ?thesis
    unfolding fold_results_def
    by (intro keeps_basic keeps_move_site_name keeps_create_process_doc keeps_mv_out assms(1))
qed

lemma route_file_calls:
  assumes "route_file os files_path f summ s = (res, s')"
  shows "case res of
           Inr r \<Rightarrow> calls s' = calls s @ [Call_move_file (file_name f) (files_path ''repo_path'')
                      (if r = FAIL then files_path ''err_path'' else files_path ''ok_path'')]
         | Inl e \<Rightarrow> calls s' = calls s"
proof -
  obtain r1 s1 where ef: "error_flag summ s = (r1, s1)" by (cases "error_flag summ s")
  have c1: "calls s1 = calls s"
    using keepsD [OF keeps_error_flag [OF ignores_heap_fields(1)] ef] .
  show ?thesis
  proof (cases r1)
    case (Inl e)
    then have "route_file os files_path f summ s = (Inl e, s1)"
      using ef by (simp add: route_file_def seq_Inl)
    then show ?thesis using assms c1 by simp
  next
    case (Inr r)
    then have "route_file os files_path f summ s =
        seq (move_file os (file_name f) (files_path ''repo_path'')
               (if r = FAIL then files_path ''err_path'' else files_path ''ok_path'')) (\<lambda>_. ret r) s1"
      using ef by (simp add: route_file_def seq_Inr)
    then show ?thesis
      using assms c1
      by (auto simp: seq_def ret_def move_file_eq Let_def split: option.splits prod.splits sum.splits if_splits)
  qed
qed

lemma update_job_ref:
  "\<exists>s'. update_job jid (Ref p) s = (Inr True, s') \<and> calls s' = calls s @ [Call_update_job jid]"
  by (simp add: update_job_def Let_def split: option.splits)

lemma process_selected_calls:
  fixes s :: "'fs state"
  assumes "process_selected os parser t0 t1 files_path f s = (res, s')"
  shows "\<exists>to. case res of
           Inr v \<Rightarrow> calls s' = calls s @ [Call_create_job (job_id_of s),
                       Call_move_file (file_name f) (files_path ''repo_path'') to,
                       Call_update_job (job_id_of s)]
         | Inl e \<Rightarrow> calls s' = calls s @ [Call_create_job (job_id_of s)]
                  \<or> calls s' = calls s @ [Call_create_job (job_id_of s),
                       Call_move_file (file_name f) (files_path ''repo_path'') to]"
proof -
  let ?jid = "job_id_of s"
  from open_job_eff [of t0 f s] obtain s1 where
    o: "open_job t0 f s = (Inr (Ref (Suc (next_addr s)), ?jid), s1)"
    and c1: "calls s1 = calls s @ [Call_create_job ?jid]"
    by blast
  let ?P = "Ref (Suc (next_addr s))"
  have ps1: "process_selected os parser t0 t1 files_path f s =
     seq (call_parser parser f ?jid) (\<lambda>summ.
     seq (set_summary summ) (\<lambda>_.
     seq (route_file os files_path f summ) (\<lambda>r.
     seq (fold_results t0 t1 ?P summ r) (\<lambda>doc.
     seq (update_job ?jid ?P) (\<lambda>_.
     seq (set_task_id None) (\<lambda>_.
     ret (RResult (file_name f) doc))))))) s1"
    by (simp add: process_selected_def seq_Inr [where m = "open_job t0 f" and s = s, OF o])
  obtain r2 s2 where p: "call_parser parser f ?jid s1 = (r2, s2)"
    by (cases "call_parser parser f ?jid s1")
  have c2: "calls s2 = calls s1"
    using keepsD [OF keeps_call_parser [OF ignores_heap_fields(1)] p] .
  show ?thesis
  proof (cases r2)
    case (Inl e)
    then have "process_selected os parser t0 t1 files_path f s = (Inl e, s2)"
      using p by (simp add: ps1 seq_Inl)
    then show ?thesis using assms c1 c2 by auto
  next
    case (Inr summ)
    let ?s3 = "s2\<lparr>summary := (case summ of Ref a \<Rightarrow> Some a | Val _ \<Rightarrow> None)\<rparr>"
    have ss: "set_summary summ s2 = (Inr (), ?s3)" by (simp add: set_summary_def)
    have ps2: "process_selected os parser t0 t1 files_path f s =
       seq (route_file os files_path f summ) (\<lambda>r.
       seq (fold_results t0 t1 ?P summ r) (\<lambda>doc.
       seq (update_job ?jid ?P) (\<lambda>_.
       seq (set_task_id None) (\<lambda>_.
       ret (RResult (file_name f) doc))))) ?s3"
      using p Inr by (simp add: ps1 seq_Inr seq_Inr [where m = "set_summary summ" and s = s2, OF ss])
    obtain r4 s4 where rf: "route_file os files_path f summ ?s3 = (r4, s4)"
      by (cases "route_file os files_path f summ ?s3")
    note c4 = route_file_calls [OF rf]
    show ?thesis
    proof (cases r4)
      case (Inl e)
      then have "process_selected os parser t0 t1 files_path f s = (Inl e, s4)"
        using rf by (simp add: ps2 seq_Inl)
      then show ?thesis using assms c1 c2 c4 Inl by auto
    next
      case (Inr r)
      let ?to = "if r = FAIL then files_path ''err_path'' else files_path ''ok_path''"
      have c4': "calls s4 = calls s @ [Call_create_job ?jid,
                   Call_move_file (file_name f) (files_path ''repo_path'') ?to]"
        using c4 Inr c1 c2 by simp
      obtain r5 s5 where fr: "fold_results t0 t1 ?P summ r s4 = (r5, s5)"
        by (cases "fold_results t0 t1 ?P summ r s4")
      have c5: "calls s5 = calls s4"
        using keepsD [OF keeps_fold_results_gen fr, of calls] by (simp add: ignores_heap_fields)
      show ?thesis
      proof (cases r5)
        case (Inl e)
        then have "process_selected os parser t0 t1 files_path f s = (Inl e, s5)"
          using rf Inr fr by (simp add: ps2 seq_Inr seq_Inl)
        then show ?thesis using assms c4' c5 by auto
      next
        case (Inr doc)
        from update_job_ref [of ?jid "Suc (next_addr s)" s5] obtain s6 where
          u: "update_job ?jid ?P s5 = (Inr True, s6)"
          and c6: "calls s6 = calls s5 @ [Call_update_job ?jid]"
          by blast
        have "process_selected os parser t0 t1 files_path f s =
               (Inr (RResult (file_name f) doc), s6\<lparr>task_id := None\<rparr>)"
          using rf \<open>r4 = Inr r\<close> fr Inr u
          by (simp add: ps2 seq_Inr set_task_id_def ret_def)
        then show ?thesis using assms c4' c5 c6 by auto
      qed
    qed
  qed
qed

lemmas monad_defs = ret_def raise_def seq_def try_except_def lift_def
lemmas dict_defs = dict_of_def alloc_def new_dict_def get_item_def get_method_def
  get_method_default_def set_item_def del_item_def contains_def dict_copy_def dict_keys_def
  is_true_def py_or_def py_truediv_def py_mul_float_def elapsed_millis_def dict_update_def
lemmas step_defs = create_job_def update_job_def call_parser_def create_process_doc_def
  my_proc_name_def proc_name_def FAIL_def mv_out_arr_def set_process_results_doc_def
  set_summary_def set_task_id_def error_flag_def move_site_name_def open_job_def route_file_def
  fold_results_def process_selected_def

lemma main_select:
  "get_first_available_file toy_os main_fs main_files_path False = Inr (Some main_file)"
  by (simp add: get_first_available_file_def main_files_path_def main_fs_def main_file_def
      toy_defs sort_files_def)

lemma str_of_nat_1: "str_of_nat (Suc 0) = ''1''"
  by (simp add: str_of_nat.simps)

lemma main_paths:
  "main_files_path ''repo_path'' = Some ''./input_files''"
  "main_files_path ''ok_path'' = Some ''./processed_files''"
  "main_files_path ''err_path'' = Some ''./error_files''"
  by (simp_all add: main_files_path_def)

lemma main_move:
  "filesys s = main_fs \<Longrightarrow>
   move_file toy_os ''a.csv'' (Some ''./input_files'') (Some ''./processed_files'') s =
     (Inr True, s\<lparr>calls := calls s @ [Call_move_file ''a.csv'' (Some ''./input_files'') (Some ''./processed_files'')],
                  filesys := [(''./input_files'', [''b.csv'']), (''./processed_files'', [''a.csv''])]\<rparr>)"
  by (simp add: move_file_eq toy_defs main_fs_def Let_def)

lemma main_selected:
  "case process_selected toy_os import_feed_file 0 2000000 main_files_path main_file
          ((init_state main_fs)\<lparr>local_err := None, file_to_proc := None,
             process_results_doc := Val SNone, file_to_proc := Some main_file\<rparr>) of
     (r, s) \<Rightarrow>
       r = Inr (RResult ''a.csv'' (Ref 4))
     \<and> local_err s = None \<and> file_to_proc s = Some main_file
     \<and> calls s = [Call_create_job ''JOB_1'',
                  Call_move_file ''a.csv'' (Some ''./input_files'') (Some ''./processed_files''),
                  Call_update_job ''JOB_1'']
     \<and> filesys s = [(''./input_files'', [''b.csv'']), (''./processed_files'', [''a.csv''])]
     \<and> jobs s ''JOB_1'' = Some 1
     \<and> summary s = Some 3
     \<and> process_results_doc s = Ref 4
     \<and> store s 0 = [(''start_time'', Val (SIso 0)), (''status'', Val (SStr ''finished'')),
                     (''site_name'', Val (SStr ''Site_A'')), (''summary'', Ref 5),
                     (''end_time'', Val (SIso 2000000)),
                     (''elapsed_time_in_millisecs'', Val (SInt 2000)),
                     (''elapsed_time_in_secs'', Val (SFloat 2)),
                     (''valid_transac_perc'', Val (SFloat 95)),
                     (''tps'', Val (SFloat (95 / 2)))]
     \<and> store s 1 = [(''process_id'', Val (SStr ''FileProcessor'')),
                     (''file'', Val (SStr ''a.csv'')), (''star_date'', Val (SIso 0)),
                     (''input_processor'', Ref 0)]
     \<and> store s 2 = [(''raw_lines'', Val (SInt 100)), (''records_ok'', Val (SInt 95)),
                     (''transactions'', Val (SInt 95))]
     \<and> store s 3 = [(''totals'', Ref 2), (''error'', Val SNone)]
     \<and> store s 4 = [(''start_time'', Val (SIso 0)), (''end_time'', Val (SIso 2000000)),
                     (''elapsed_time_in_millisecs'', Val (SInt 2000)),
                     (''elapsed_time_in_secs'', Val (SFloat 2)),
                     (''valid_transac_perc'', Val (SFloat 95)),
                     (''tps'', Val (SFloat (95 / 2))), (''totals'', Ref 2)]
     \<and> store s 5 = [(''totals'', Ref 2)]"
  by (simp add: monad_defs dict_defs step_defs str_of_nat_1 main_paths main_move init_state_def
      import_feed_file_def main_file_def Let_def)

lemma job_id_of_init: "job_id_of ((init_state fs)\<lparr>local_err := None, file_to_proc := None,
             process_results_doc := Val SNone, file_to_proc := Some f\<rparr>) = ''JOB_1''"
  by (simp add: job_id_of_def init_state_def str_of_nat_1)

lemma job_id_of_init': "job_id_of (init_state fs) = ''JOB_1''"
  by (simp add: job_id_of_def init_state_def str_of_nat_1)

lemma main_run_eq:
  "\<exists>s1. process_selected toy_os import_feed_file 0 2000000 main_files_path main_file
          ((init_state main_fs)\<lparr>local_err := None, file_to_proc := None,
             process_results_doc := Val SNone, file_to_proc := Some main_file\<rparr>)
           = (Inr (RResult ''a.csv'' (Ref 4)), s1)
       \<and> main_run = (Inr (RResult ''a.csv'' (Ref 4)),
                      s1\<lparr>calls := calls s1 @ [Call_clean_file_process_q ''a.csv'' None]\<rparr>)"
proof -
  let ?s0 = "(init_state main_fs)\<lparr>local_err := None, file_to_proc := None,
             process_results_doc := Val SNone\<rparr>"
  obtain r1 s1 where ps: "process_selected toy_os import_feed_file 0 2000000 main_files_path main_file
          (?s0\<lparr>file_to_proc := Some main_file\<rparr>) = (r1, s1)"
    by (cases "process_selected toy_os import_feed_file 0 2000000 main_files_path main_file
          (?s0\<lparr>file_to_proc := Some main_file\<rparr>)")
  have facts: "r1 = Inr (RResult ''a.csv'' (Ref 4))" "local_err s1 = None" "file_to_proc s1 = Some main_file"
    using main_selected unfolding ps by simp_all
  have fs: "filesys ?s0 = main_fs" by (simp add: init_state_def)
  have tb: "try_block toy_os import_feed_file 0 2000000 main_files_path False ?s0 = (r1, s1)"
    unfolding try_block_unfold fs main_select using ps by simp
  have "main_run = (Inr (RResult ''a.csv'' (Ref 4)),
                    s1\<lparr>calls := calls s1 @ [Call_clean_file_process_q ''a.csv'' None]\<rparr>)"
    unfolding main_run_def process_next_file_unfold tb
    using facts by (simp add: main_file_def)
  then show ?thesis using ps facts(1) by auto
qed

lemma main_run_facts:
  "fst main_run = Inr (RResult ''a.csv'' (Ref 4))"
  "local_err (snd main_run) = None"
  "calls (snd main_run) = [Call_create_job ''JOB_1'',
                  Call_move_file ''a.csv'' (Some ''./input_files'') (Some ''./processed_files''),
                  Call_update_job ''JOB_1'', Call_clean_file_process_q ''a.csv'' None]"
  "filesys (snd main_run) = [(''./input_files'', [''b.csv'']), (''./processed_files'', [''a.csv''])]"
  "jobs (snd main_run) ''JOB_1'' = Some 1"
  "summary (snd main_run) = Some 3"
  "store (snd main_run) 0 = [(''start_time'', Val (SIso 0)), (''status'', Val (SStr ''finished'')),
                     (''site_name'', Val (SStr ''Site_A'')), (''summary'', Ref 5),
                     (''end_time'', Val (SIso 2000000)),
                     (''elapsed_time_in_millisecs'', Val (SInt 2000)),
                     (''elapsed_time_in_secs'', Val (SFloat 2)),
                     (''valid_transac_perc'', Val (SFloat 95)),
                     (''tps'', Val (SFloat (95 / 2)))]"
  "store (snd main_run) 1 = [(''process_id'', Val (SStr ''FileProcessor'')),
                     (''file'', Val (SStr ''a.csv'')), (''star_date'', Val (SIso 0)),
                     (''input_processor'', Ref 0)]"
  "store (snd main_run) 2 = [(''raw_lines'', Val (SInt 100)), (''records_ok'', Val (SInt 95)),
                     (''transactions'', Val (SInt 95))]"
  "store (snd main_run) 3 = [(''totals'', Ref 2), (''error'', Val SNone)]"
  "store (snd main_run) 4 = [(''start_time'', Val (SIso 0)), (''end_time'', Val (SIso 2000000)),
                     (''elapsed_time_in_millisecs'', Val (SInt 2000)),
                     (''elapsed_time_in_secs'', Val (SFloat 2)),
                     (''valid_transac_perc'', Val (SFloat 95)),
                     (''tps'', Val (SFloat (95 / 2))), (''totals'', Ref 2)]"
  "store (snd main_run) 5 = [(''totals'', Ref 2)]"
proof -
  from main_run_eq obtain s1 where
    ps: "process_selected toy_os import_feed_file 0 2000000 main_files_path main_file
          ((init_state main_fs)\<lparr>local_err := None, file_to_proc := None,
             process_results_doc := Val SNone, file_to_proc := Some main_file\<rparr>)
           = (Inr (RResult ''a.csv'' (Ref 4)), s1)"
    and mr: "main_run = (Inr (RResult ''a.csv'' (Ref 4)),
                      s1\<lparr>calls := calls s1 @ [Call_clean_file_process_q ''a.csv'' None]\<rparr>)"
    by blast
  note f = main_selected [unfolded ps, simplified]
  show "fst main_run = Inr (RResult ''a.csv'' (Ref 4))" by (simp add: mr)
  show "local_err (snd main_run) = None" using f by (simp add: mr)
  show "calls (snd main_run) = [Call_create_job ''JOB_1'',
                  Call_move_file ''a.csv'' (Some ''./input_files'') (Some ''./processed_files''),
                  Call_update_job ''JOB_1'', Call_clean_file_process_q ''a.csv'' None]"
    using f by (simp add: mr)
  show "filesys (snd main_run) = [(''./input_files'', [''b.csv'']), (''./processed_files'', [''a.csv''])]"
    using f by (simp add: mr)
  show "jobs (snd main_run) ''JOB_1'' = Some 1" using f by (simp add: mr)
  show "summary (snd main_run) = Some 3" using f by (simp add: mr)
  show "store (snd main_run) 0 = [(''start_time'', Val (SIso 0)), (''status'', Val (SStr ''finished'')),
                     (''site_name'', Val (SStr ''Site_A'')), (''summary'', Ref 5),
                     (''end_time'', Val (SIso 2000000)),
                     (''elapsed_time_in_millisecs'', Val (SInt 2000)),
                     (''elapsed_time_in_secs'', Val (SFloat 2)),
                     (''valid_transac_perc'', Val (SFloat 95)),
                     (''tps'', Val (SFloat (95 / 2)))]" using f by (simp add: mr)
  show "store (snd main_run) 1 = [(''process_id'', Val (SStr ''FileProcessor'')),
                     (''file'', Val (SStr ''a.csv'')), (''star_date'', Val (SIso 0)),
                     (''input_processor'', Ref 0)]" using f by (simp add: mr)
  show "store (snd main_run) 2 = [(''raw_lines'', Val (SInt 100)), (''records_ok'', Val (SInt 95)),
                     (''transactions'', Val (SInt 95))]" using f by (simp add: mr)
  show "store (snd main_run) 3 = [(''totals'', Ref 2), (''error'', Val SNone)]" using f by (simp add: mr)
  show "store (snd main_run) 4 = [(''start_time'', Val (SIso 0)), (''end_time'', Val (SIso 2000000)),
                     (''elapsed_time_in_millisecs'', Val (SInt 2000)),
                     (''elapsed_time_in_secs'', Val (SFloat 2)),
                     (''valid_transac_perc'', Val (SFloat 95)),
                     (''tps'', Val (SFloat (95 / 2))), (''totals'', Ref 2)]" using f by (simp add: mr)
  show "store (snd main_run) 5 = [(''totals'', Ref 2)]" using f by (simp add: mr)
qed

lemma job_id_of_frame:
  "job_id_of (s\<lparr>local_err := a, file_to_proc := b, process_results_doc := c, file_to_proc := d\<rparr>) = job_id_of s"
  by (simp add: job_id_of_def)

text \<open>
  Claim C2, as amended. In every invocation in which a file is selected the queue cleanup
  is called exactly once, as the last call. When no fault is caught, the calls before it
  are exactly one job creation, one relocation attempt on that file and one job update,
  also when the parser reports failure in its summary. When a fault is caught, there is
  no job update and at most one relocation attempt.
\<close>

theorem selected_file_calls:
  fixes os :: "'fs os_api" and s :: "'fs state"
  assumes "get_first_available_file os (filesys s) files_path r = Inr (Some f)"
      and "process_next_file os parser t0 t1 files_path r s = (v, s')"
  shows "\<exists>to cs. calls s' = calls s @ cs @ [Call_clean_file_process_q (file_name f) (local_err s')]
           \<and> (local_err s' = None \<longrightarrow>
                 cs = [Call_create_job (job_id_of s),
                       Call_move_file (file_name f) (files_path ''repo_path'') to,
                       Call_update_job (job_id_of s)])
           \<and> (local_err s' \<noteq> None \<longrightarrow>
                 cs = [Call_create_job (job_id_of s)]
               \<or> cs = [Call_create_job (job_id_of s),
                       Call_move_file (file_name f) (files_path ''repo_path'') to])"
proof -
  let ?s0 = "s\<lparr>local_err := None, file_to_proc := None, process_results_doc := Val SNone\<rparr>"
  let ?s1 = "?s0\<lparr>file_to_proc := Some f\<rparr>"
  obtain r1 s1 where ps: "process_selected os parser t0 t1 files_path f ?s1 = (r1, s1)"
    by (cases "process_selected os parser t0 t1 files_path f ?s1")
  have fs: "filesys ?s0 = filesys s" by simp
  have tb: "try_block os parser t0 t1 files_path r ?s0 = (r1, s1)"
    unfolding try_block_unfold fs assms(1) using ps by simp
  have ftp: "file_to_proc s1 = Some f"
    using keepsD [OF keeps_process_selected [OF ignores_run_fields(1)] ps] by simp
  have le: "local_err s1 = None"
    using keepsD [OF keeps_process_selected [OF ignores_run_fields(2)] ps] by simp
  from process_selected_calls [OF ps] obtain to where
    c: "case r1 of
           Inr v \<Rightarrow> calls s1 = calls ?s1 @ [Call_create_job (job_id_of ?s1),
                       Call_move_file (file_name f) (files_path ''repo_path'') to,
                       Call_update_job (job_id_of ?s1)]
         | Inl e \<Rightarrow> calls s1 = calls ?s1 @ [Call_create_job (job_id_of ?s1)]
                  \<or> calls s1 = calls ?s1 @ [Call_create_job (job_id_of ?s1),
                       Call_move_file (file_name f) (files_path ''repo_path'') to]"
    by blast
  have j: "job_id_of ?s1 = job_id_of s" by (rule job_id_of_frame)
  have c0: "calls ?s1 = calls s" by simp
  show ?thesis
  proof (cases r1)
    case (Inl e)
    have s': "s' = s1\<lparr>calls := calls s1 @ [Call_clean_file_process_q (file_name f) (Some e)],
                      local_err := Some e\<rparr>"
      using assms(2) unfolding process_next_file_unfold tb using Inl ftp by simp
    show ?thesis
      using c unfolding Inl j c0 s' by (intro exI [of _ to]) auto
  next
    case (Inr x)
    have s': "s' = s1\<lparr>calls := calls s1 @ [Call_clean_file_process_q (file_name f) (local_err s1)]\<rparr>"
      using assms(2) unfolding process_next_file_unfold tb using Inr ftp by simp
    show ?thesis
      using c le unfolding Inr j c0 s' by (intro exI [of _ to]) auto
  qed
qed

lemma process_selected_parser_fault:
  fixes s :: "'fs state"
  assumes "parser f (job_id_of s) = Inl e"
  shows "\<exists>s1. process_selected os parser t0 t1 files_path f s = (Inl e, s1)
           \<and> calls s1 = calls s @ [Call_create_job (job_id_of s)]
           \<and> file_to_proc s1 = file_to_proc s \<and> process_results_doc s1 = process_results_doc s"
proof -
  from open_job_eff [of t0 f s] obtain s1 where
    o: "open_job t0 f s = (Inr (Ref (Suc (next_addr s)), job_id_of s), s1)"
    and c1: "calls s1 = calls s @ [Call_create_job (job_id_of s)]"
            "file_to_proc s1 = file_to_proc s" "process_results_doc s1 = process_results_doc s"
    by blast
  have "call_parser parser f (job_id_of s) s1 = (Inl e, s1)"
    using assms by (simp add: call_parser_def raise_def)
  then have "process_selected os parser t0 t1 files_path f s = (Inl e, s1)"
    by (simp add: process_selected_def seq_Inr [where m = "open_job t0 f" and s = s, OF o] seq_Inl)
  then show ?thesis using c1 by blast
qed

lemma faulty_parser_run:
  defines "run \<equiv> process_next_file toy_os (\<lambda>f j. Inl (ParserError ''bad feed'')) 0 2000000
                    main_files_path False (init_state main_fs)"
  shows "fst run = Inr (RResult ''a.csv'' (Val SNone))"
    and "local_err (snd run) = Some (ParserError ''bad feed'')"
    and "calls (snd run) = [Call_create_job ''JOB_1'',
                            Call_clean_file_process_q ''a.csv'' (Some (ParserError ''bad feed''))]"
proof -
  let ?s0 = "(init_state main_fs)\<lparr>local_err := None, file_to_proc := None,
             process_results_doc := Val SNone\<rparr>"
  let ?p = "\<lambda>f j. Inl (ParserError ''bad feed'') :: py_error + summary_lit"
  let ?s1 = "?s0\<lparr>file_to_proc := Some main_file\<rparr>"
  have j: "job_id_of ?s1 = ''JOB_1''" by (rule job_id_of_init)
  have a: "?p main_file (job_id_of ?s1) = Inl (ParserError ''bad feed'')" by simp
  from process_selected_parser_fault [where parser = ?p and f = main_file and s = ?s1
         and e = "ParserError ''bad feed''" and os = toy_os and ?t0.0 = 0 and ?t1.0 = 2000000
         and files_path = main_files_path, OF a]
  obtain s1 where
    ps: "process_selected toy_os ?p 0 2000000 main_files_path main_file ?s1
          = (Inl (ParserError ''bad feed''), s1)"
    and c0: "calls s1 = calls ?s1 @ [Call_create_job (job_id_of ?s1)]"
            "file_to_proc s1 = file_to_proc ?s1" "process_results_doc s1 = process_results_doc ?s1"
    by blast
  have c: "calls s1 = [Call_create_job ''JOB_1'']" "file_to_proc s1 = Some main_file"
           "process_results_doc s1 = Val SNone"
    using c0 unfolding j by (simp_all add: init_state_def)
  have fs: "filesys ?s0 = main_fs" by (simp add: init_state_def)
  have tb: "try_block toy_os ?p 0 2000000 main_files_path False ?s0 = (Inl (ParserError ''bad feed''), s1)"
    unfolding try_block_unfold fs main_select using ps by simp
  show "fst run = Inr (RResult ''a.csv'' (Val SNone))"
    unfolding run_def process_next_file_unfold tb using c by (simp add: main_file_def)
  show "local_err (snd run) = Some (ParserError ''bad feed'')"
    unfolding run_def process_next_file_unfold tb using c by (simp add: main_file_def)
  show "calls (snd run) = [Call_create_job ''JOB_1'',
                            Call_clean_file_process_q ''a.csv'' (Some (ParserError ''bad feed''))]"
    unfolding run_def process_next_file_unfold tb using c by (simp add: main_file_def)
qed

theorem selected_file_calls_witness:
  "get_first_available_file toy_os (filesys (init_state main_fs)) main_files_path False = Inr (Some main_file)
   \<and> local_err (snd main_run) = None
   \<and> calls (snd main_run) = [Call_create_job ''JOB_1'',
          Call_move_file ''a.csv'' (Some ''./input_files'') (Some ''./processed_files''),
          Call_update_job ''JOB_1'', Call_clean_file_process_q ''a.csv'' None]
   \<and> local_err (snd (process_next_file toy_os (\<lambda>f j. Inl (ParserError ''bad feed'')) 0 2000000
                    main_files_path False (init_state main_fs))) = Some (ParserError ''bad feed'')
   \<and> calls (snd (process_next_file toy_os (\<lambda>f j. Inl (ParserError ''bad feed'')) 0 2000000
                    main_files_path False (init_state main_fs)))
        = [Call_create_job ''JOB_1'', Call_clean_file_process_q ''a.csv'' (Some (ParserError ''bad feed''))]"
proof -
  have sel: "get_first_available_file toy_os (filesys (init_state main_fs)) main_files_path False
               = Inr (Some main_file)"
    using main_select by (simp add: init_state_def)
  have r1: "process_next_file toy_os import_feed_file 0 2000000 main_files_path False (init_state main_fs)
              = (fst main_run, snd main_run)"
    by (simp add: main_run_def)
  from selected_file_calls [OF sel r1] main_run_facts(2)
  have "\<exists>to. calls (snd main_run) = calls (init_state main_fs) @
          [Call_create_job (job_id_of (init_state main_fs)),
           Call_move_file (file_name main_file) (main_files_path ''repo_path'') to,
           Call_update_job (job_id_of (init_state main_fs))] @
          [Call_clean_file_process_q (file_name main_file) None]"
    by auto
  then show ?thesis
    using sel main_run_facts(2,3) faulty_parser_run by simp
qed

theorem faulty_parser_no_relocation_counterexample:
  "get_first_available_file toy_os (filesys (init_state main_fs)) main_files_path False = Inr (Some main_file)
   \<and> calls (snd (process_next_file toy_os (\<lambda>f j. Inl (ParserError ''bad feed'')) 0 2000000
                    main_files_path False (init_state main_fs)))
        = [Call_create_job ''JOB_1'', Call_clean_file_process_q ''a.csv'' (Some (ParserError ''bad feed''))]"
  using main_select faulty_parser_run(3) by (simp add: init_state_def)


section \<open>The objects a run leaves\<close>

lemma seq_InrE:
  assumes "seq m f s = (Inr v, s')"
  obtains x s1 where "m s = (Inr x, s1)" "f x s1 = (Inr v, s')"
  using assms by (auto simp: seq_def split: prod.splits sum.splits)

lemma try_except_reraise_Inr:
  "try_except m (\<lambda>e. raise e) s = (Inr v, s') \<longleftrightarrow> m s = (Inr v, s')"
  by (auto simp: try_except_def raise_def split: prod.splits sum.splits)

lemma ret_Inr: "ret x s = (Inr v, s') \<longleftrightarrow> v = x \<and> s' = s"
  by (auto simp: ret_def)

lemma get_item_Inr:
  "get_item x k s = (Inr v, s') \<longleftrightarrow> s' = s \<and> (\<exists>a. x = Ref a \<and> map_of (store s a) k = Some v)"
  by (auto simp: get_item_def split: pyval.splits option.splits)

lemma get_method_Inr:
  "get_method x k s = (Inr v, s') \<longleftrightarrow> s' = s \<and> (\<exists>a. x = Ref a \<and> v = dict_get (store s a) k)"
  by (auto simp: get_method_def dict_get_def split: pyval.splits option.splits)

lemma get_method_default_Inr:
  "get_method_default x k d s = (Inr v, s') \<longleftrightarrow>
     s' = s \<and> (\<exists>a. x = Ref a \<and> v = (case map_of (store s a) k of None \<Rightarrow> d | Some w \<Rightarrow> w))"
  by (auto simp: get_method_default_def split: pyval.splits option.splits)

lemma set_item_Inr:
  "set_item x k v s = (Inr u, s') \<longleftrightarrow>
     (\<exists>a. x = Ref a \<and> s' = s\<lparr>store := (store s)(a := AList.update k v (store s a))\<rparr>)"
  by (auto simp: set_item_def split: pyval.splits)

lemma del_item_Inr:
  "del_item x k s = (Inr u, s') \<longleftrightarrow>
     (\<exists>a. x = Ref a \<and> map_of (store s a) k \<noteq> None
          \<and> s' = s\<lparr>store := (store s)(a := AList.delete k (store s a))\<rparr>)"
  by (auto simp: del_item_def split: pyval.splits option.splits)

lemma is_true_Inr: "is_true x s = (Inr b, s') \<longleftrightarrow> s' = s \<and> b = truthy (store s) x"
  by (auto simp: is_true_def)

lemma alloc_Inr:
  "alloc d s = (Inr v, s') \<longleftrightarrow>
     v = Ref (next_addr s) \<and> s' = s\<lparr>store := (store s)(next_addr s := d), next_addr := Suc (next_addr s)\<rparr>"
  by (auto simp: alloc_def)

lemma dict_copy_Inr:
  "dict_copy x s = (Inr v, s') \<longleftrightarrow>
     (\<exists>a. x = Ref a \<and> v = Ref (next_addr s)
          \<and> s' = s\<lparr>store := (store s)(next_addr s := store s a), next_addr := Suc (next_addr s)\<rparr>)"
  by (auto simp: dict_copy_def alloc_def split: pyval.splits)

lemmas prim_Inr = ret_Inr get_item_Inr get_method_Inr get_method_default_Inr set_item_Inr
  del_item_Inr is_true_Inr alloc_Inr dict_copy_Inr try_except_reraise_Inr

text \<open>Lines 218 to 220 on a run without fault.\<close>

lemma move_site_name_eff:
  fixes s :: "'fs state"
  assumes run: "move_site_name (Ref m) (Ref p) s = (Inr u, s')"
      and P: "map_of (store s p) proc_name = Some (Ref g)"
      and ne: "m \<noteq> g" "m \<noteq> p"
      and tg: "\<forall>a. map_of (store s m) ''totals'' = Some (Ref a) \<longrightarrow> a \<noteq> g \<and> a \<noteq> p"
  shows "\<exists>t. map_of (store s m) ''totals'' = Some (Ref t)
           \<and> s' = (if truthy (store s) (dict_get (store s t) ''site_name'')
                  then s\<lparr>store := (store s)
                         (g := AList.update ''site_name'' (dict_get (store s t) ''site_name'') (store s g),
                          t := AList.delete ''site_name'' (store s t))\<rparr>
                  else s)"
proof -
  from run obtain tot s1 sn s2 b s3 where
    1: "get_item (Ref m) ''totals'' s = (Inr tot, s1)"
    and 2: "get_method tot ''site_name'' s1 = (Inr sn, s2)"
    and 3: "is_true sn s2 = (Inr b, s3)"
    and 4: "(if b
     then seq (get_item (Ref m) ''totals'') (\<lambda>tot1.
          seq (get_item tot1 ''site_name'') (\<lambda>v.
          seq (get_item (Ref p) proc_name) (\<lambda>stage.
          seq (set_item stage ''site_name'' v) (\<lambda>_.
          seq (get_item (Ref m) ''totals'') (\<lambda>tot2.
          del_item tot2 ''site_name'')))))
     else ret ()) s3 = (Inr u, s')"
    unfolding move_site_name_def by (elim seq_InrE) blast
  from 1 2 3 obtain t where t: "map_of (store s m) ''totals'' = Some (Ref t)" "tot = Ref t"
    and s3: "s3 = s" and sn: "sn = dict_get (store s t) ''site_name''" and b: "b = truthy (store s) sn"
    by (auto simp: prim_Inr)
  have tne: "t \<noteq> g" "t \<noteq> p" using tg t by auto
  show ?thesis
  proof (cases b)
    case False
    then have "s' = s" using 4 s3 by (simp add: ret_def)
    then show ?thesis using t False b sn by auto
  next
    case True
    from 4 True s3 obtain tot1 v stage q1 q2 q3 q4 tot2 q5 w where
      5: "get_item (Ref m) ''totals'' s = (Inr tot1, q1)"
      and 6: "get_item tot1 ''site_name'' q1 = (Inr v, q2)"
      and 7: "get_item (Ref p) proc_name q2 = (Inr stage, q3)"
      and 8: "set_item stage ''site_name'' v q3 = (Inr w, q4)"
      and 9: "get_item (Ref m) ''totals'' q4 = (Inr tot2, q5)"
      and 10: "del_item tot2 ''site_name'' q5 = (Inr u, s')"
      by (simp only: if_True) (elim seq_InrE, blast)
    from 5 6 7 t P have q: "q3 = s" "stage = Ref g" "map_of (store s t) ''site_name'' = Some v"
      by (auto simp: prim_Inr)
    then have v: "v = dict_get (store s t) ''site_name''" by (simp add: dict_get_def)
    from 8 q have q4: "q4 = s\<lparr>store := (store s)(g := AList.update ''site_name'' v (store s g))\<rparr>"
      by (auto simp: prim_Inr)
    from 9 q4 t ne have q5: "q5 = q4" "tot2 = Ref t"
      by (auto simp: prim_Inr)
    from 10 q5 q4 tne have "s' = s\<lparr>store := (store s)
                         (g := AList.update ''site_name'' v (store s g),
                          t := AList.delete ''site_name'' (store s t))\<rparr>"
      by (auto simp: prim_Inr)
    then show ?thesis using t True b sn v by auto
  qed
qed

lemma update_map_values:
  "AList.update k (h v) (map (\<lambda>(k, v). (k, h v)) d) = map (\<lambda>(k, v). (k, h v)) (AList.update k v d)"
  by (induction d) auto

lemma foldl_update_map_values:
  "foldl (\<lambda>d (k, v). AList.update k v d) (map (\<lambda>(k, v). (k, h v)) d) (map (\<lambda>(k, v). (k, h v)) xs)
     = map (\<lambda>(k, v). (k, h v)) (foldl (\<lambda>d (k, v). AList.update k v d) d xs)"
proof (induction xs arbitrary: d)
  case Nil
  show ?case by simp
next
  case (Cons x xs)
  obtain k v where x: "x = (k, v)" by (cases x)
  show ?case using Cons [of "AList.update k v d"] by (simp add: x update_map_values)
qed

lemma dict_of_map_values: "dict_of (map (\<lambda>(k, v). (k, h v)) xs) = map (\<lambda>(k, v). (k, h v)) (dict_of xs)"
  using foldl_update_map_values [of h "[]" xs] by (simp add: dict_of_def)

lemma distinct_foldl_update:
  "distinct (map fst d) \<Longrightarrow> distinct (map fst (foldl (\<lambda>d (k, v). AList.update k v d) d xs))"
  by (induction xs arbitrary: d) (auto simp: distinct_update)

lemma distinct_dict_of: "distinct (map fst (dict_of xs))"
  using distinct_foldl_update [of "[]" xs] by (simp add: dict_of_def)

lemma scalars_of_vals: "scalars_of (vals e) = e"
  by (induction e) (auto simp: scalars_of_def vals_def)

lemma dict_of_vals: "dict_of (vals e) = vals (dict_of e)"
  unfolding vals_def by (rule dict_of_map_values)

lemma new_dict_vals:
  "new_dict (map (\<lambda>(k', v). (k', Val v)) e) s =
     (Inr (Ref (next_addr s)),
      s\<lparr>store := (store s)(next_addr s := vals (dict_of e)), next_addr := Suc (next_addr s)\<rparr>)"
  using dict_of_vals [of e] by (simp add: new_dict_def alloc_def vals_def)

text \<open>The objects that \<open>alloc_fields\<close> creates.\<close>

lemma alloc_fields_spec:
  fixes s :: "'fs state"
  shows "\<exists>d st n. alloc_fields fl s = (Inr d, s\<lparr>store := st, next_addr := n\<rparr>)
           \<and> next_addr s \<le> n
           \<and> (\<forall>a<next_addr s. st a = store s a)
           \<and> map fst d = map fst fl
           \<and> (\<forall>k a. (k, Ref a) \<in> set d \<longrightarrow> next_addr s \<le> a \<and> a < n)
           \<and> (\<forall>k k' a. (k, Ref a) \<in> set d \<and> (k', Ref a) \<in> set d \<longrightarrow> k = k')
           \<and> map (\<lambda>(k, v). (k, stored st v)) d = map (\<lambda>(k, f). (k, norm_field f)) fl
           \<and> (\<forall>k a. (k, Ref a) \<in> set d \<longrightarrow> st a = vals (scalars_of (st a)))"
proof (induction fl arbitrary: s rule: alloc_fields.induct)
  case 1
  show ?case
    by (rule exI [of _ "[]"], rule exI [of _ "store s"], rule exI [of _ "next_addr s"])
       (simp add: ret_def)
next
  case (2 k v r)
  from 2 [of s] obtain d st n where
    a: "alloc_fields r s = (Inr d, s\<lparr>store := st, next_addr := n\<rparr>)"
    and b: "next_addr s \<le> n" "\<forall>a<next_addr s. st a = store s a" "map fst d = map fst r"
       "\<forall>k a. (k, Ref a) \<in> set d \<longrightarrow> next_addr s \<le> a \<and> a < n"
       "\<forall>k k' a. (k, Ref a) \<in> set d \<and> (k', Ref a) \<in> set d \<longrightarrow> k = k'"
       "map (\<lambda>(k, v). (k, stored st v)) d = map (\<lambda>(k, f). (k, norm_field f)) r"
       "\<forall>k a. (k, Ref a) \<in> set d \<longrightarrow> st a = vals (scalars_of (st a))"
    by blast
  show ?case
    apply (rule exI [of _ "(k, Val v) # d"], rule exI [of _ st], rule exI [of _ n])
    using a b by (simp add: seq_def ret_def stored_def norm_field_def)
next
  case (3 k e r)
  let ?s1 = "s\<lparr>store := (store s)(next_addr s := vals (dict_of e)), next_addr := Suc (next_addr s)\<rparr>"
  have nd: "new_dict (map (\<lambda>(k', v). (k', Val v)) e) s = (Inr (Ref (next_addr s)), ?s1)"
    by (rule new_dict_vals)
  from 3 [of ?s1] obtain d st n where
    a: "alloc_fields r ?s1 = (Inr d, ?s1\<lparr>store := st, next_addr := n\<rparr>)"
    and b: "next_addr ?s1 \<le> n" "\<forall>a<next_addr ?s1. st a = store ?s1 a" "map fst d = map fst r"
       "\<forall>k a. (k, Ref a) \<in> set d \<longrightarrow> next_addr ?s1 \<le> a \<and> a < n"
       "\<forall>k k' a. (k, Ref a) \<in> set d \<and> (k', Ref a) \<in> set d \<longrightarrow> k = k'"
       "map (\<lambda>(k, v). (k, stored st v)) d = map (\<lambda>(k, f). (k, norm_field f)) r"
       "\<forall>k a. (k, Ref a) \<in> set d \<longrightarrow> st a = vals (scalars_of (st a))"
    by blast
  have st0: "st (next_addr s) = vals (dict_of e)" using b(2) by simp
  have fresh: "\<And>k'. (k', Ref (next_addr s)) \<notin> set d" using b(4) by fastforce
  have run: "alloc_fields ((k, Nested e) # r) s
              = (Inr ((k, Ref (next_addr s)) # d), s\<lparr>store := st, next_addr := n\<rparr>)"
    using a by (simp add: seq_def ret_def nd)
  have c1: "next_addr s \<le> n" using b(1) by simp
  have c2: "\<forall>a<next_addr s. st a = store s a" using b(2) by simp
  have c3: "map fst ((k, Ref (next_addr s)) # d) = map fst ((k, Nested e) # r)" using b(3) by simp
  have c4: "\<forall>k' a. (k', Ref a) \<in> set ((k, Ref (next_addr s)) # d) \<longrightarrow> next_addr s \<le> a \<and> a < n"
  proof (intro allI impI)
    fix k' a assume "(k', Ref a) \<in> set ((k, Ref (next_addr s)) # d)"
    then consider "a = next_addr s" | "(k', Ref a) \<in> set d" by auto
    then show "next_addr s \<le> a \<and> a < n"
    proof cases
      case 1 then show ?thesis using b(1) by simp
    next
      case 2 then show ?thesis using b(4) by fastforce
    qed
  qed
  have c5: "\<forall>k1 k2 a. (k1, Ref a) \<in> set ((k, Ref (next_addr s)) # d)
              \<and> (k2, Ref a) \<in> set ((k, Ref (next_addr s)) # d) \<longrightarrow> k1 = k2"
    using b(5) fresh by auto
  have c6: "map (\<lambda>(k, v). (k, stored st v)) ((k, Ref (next_addr s)) # d)
              = map (\<lambda>(k, f). (k, norm_field f)) ((k, Nested e) # r)"
    using b(6) st0 by (simp add: stored_def norm_field_def scalars_of_vals)
  have c7: "\<forall>k' a. (k', Ref a) \<in> set ((k, Ref (next_addr s)) # d) \<longrightarrow> st a = vals (scalars_of (st a))"
    using b(7) st0 by (auto simp: scalars_of_vals)
  show ?case
    using run c1 c2 c3 c4 c5 c6 c7 by blast
qed

lemma map_of_map_values:
  "map_of (map (\<lambda>(k, v). (k, h v)) xs) k = map_option h (map_of xs k)"
  by (induction xs) auto

lemma map_of_vals: "map_of (vals e) k = map_option Val (map_of e k)"
  unfolding vals_def by (rule map_of_map_values)

text \<open>The objects that the call of the parser leaves.\<close>

lemma call_parser_spec:
  fixes s :: "'fs state"
  assumes "parser f jid = Inr lit"
  shows "\<exists>st m. call_parser parser f jid s = (Inr (Ref m), s\<lparr>store := st, next_addr := Suc m\<rparr>)
           \<and> next_addr s \<le> m
           \<and> (\<forall>a<next_addr s. st a = store s a)
           \<and> (\<forall>k a. map_of (st m) k = Some (Ref a) \<longrightarrow>
                  next_addr s \<le> a \<and> a < m \<and> st a = vals (scalars_of (st a)))
           \<and> (\<forall>k k' a. map_of (st m) k = Some (Ref a) \<and> map_of (st m) k' = Some (Ref a) \<longrightarrow> k = k')
           \<and> summary_value st m = norm_lit lit"
proof -
  from alloc_fields_spec [of "dict_of lit" s] obtain d st n where
    a: "alloc_fields (dict_of lit) s = (Inr d, s\<lparr>store := st, next_addr := n\<rparr>)"
    and b: "next_addr s \<le> n" "\<forall>a<next_addr s. st a = store s a" "map fst d = map fst (dict_of lit)"
       "\<forall>k a. (k, Ref a) \<in> set d \<longrightarrow> next_addr s \<le> a \<and> a < n"
       "\<forall>k k' a. (k, Ref a) \<in> set d \<and> (k', Ref a) \<in> set d \<longrightarrow> k = k'"
       "map (\<lambda>(k, v). (k, stored st v)) d = map (\<lambda>(k, f). (k, norm_field f)) (dict_of lit)"
       "\<forall>k a. (k, Ref a) \<in> set d \<longrightarrow> st a = vals (scalars_of (st a))"
    by blast
  let ?st = "st(n := d)"
  have run: "call_parser parser f jid s = (Inr (Ref n), s\<lparr>store := ?st, next_addr := Suc n\<rparr>)"
    using assms a by (simp add: call_parser_def seq_def alloc_def)
  have c2: "\<forall>a<next_addr s. ?st a = store s a" using b(1,2) by simp
  have inset: "\<And>k a. map_of d k = Some (Ref a) \<Longrightarrow> (k, Ref a) \<in> set d"
    by (rule map_of_SomeD)
  have c3: "\<forall>k a. map_of (?st n) k = Some (Ref a) \<longrightarrow>
                  next_addr s \<le> a \<and> a < n \<and> ?st a = vals (scalars_of (?st a))"
  proof (intro allI impI)
    fix k a assume "map_of (?st n) k = Some (Ref a)"
    then have m: "(k, Ref a) \<in> set d" using inset by simp
    then have "next_addr s \<le> a \<and> a < n" using b(4) by blast
    moreover have "st a = vals (scalars_of (st a))" using b(7) m by blast
    ultimately show "next_addr s \<le> a \<and> a < n \<and> ?st a = vals (scalars_of (?st a))" by simp
  qed
  have c4: "\<forall>k k' a. map_of (?st n) k = Some (Ref a) \<and> map_of (?st n) k' = Some (Ref a) \<longrightarrow> k = k'"
    using b(5) inset by (simp, blast)
  have "map (\<lambda>(k, v). (k, stored ?st v)) d = map (\<lambda>(k, v). (k, stored st v)) d"
  proof (rule map_cong [OF refl])
    fix x assume x: "x \<in> set d"
    obtain k v where kv: "x = (k, v)" by (cases x)
    show "(case x of (k, v) \<Rightarrow> (k, stored ?st v)) = (case x of (k, v) \<Rightarrow> (k, stored st v))"
    proof (cases v)
      case (Val c) then show ?thesis by (simp add: kv stored_def)
    next
      case (Ref a)
      then have "a < n" using b(4) x kv by blast
      then show ?thesis using Ref by (simp add: kv stored_def)
    qed
  qed
  then have c5: "summary_value ?st n = norm_lit lit"
    using b(6) by (simp add: summary_value_def norm_lit_def)
  show ?thesis
    using run b(1) c2 c3 c4 c5 by blast
qed

lemma new_dict_Inr:
  "new_dict d s = (Inr v, s') \<longleftrightarrow>
     v = Ref (next_addr s) \<and> s' = s\<lparr>store := (store s)(next_addr s := dict_of d), next_addr := Suc (next_addr s)\<rparr>"
  by (auto simp: new_dict_def alloc_def)

lemmas cpd_defs = create_process_doc_def seq_def try_except_def ret_def raise_def new_dict_def
  alloc_def dict_of_def set_item_def get_item_def get_method_def py_or_def py_truediv_def
  py_mul_float_def dict_keys_def

text \<open>\<^verbatim>\<open>create_process_doc\<close> on totals that hold scalars only: when it raises.\<close>

lemma create_process_doc_faults:
  fixes s :: "'fs state"
  assumes ne: "m \<noteq> next_addr s"
      and sc: "\<And>t. map_of (store s m) ''totals'' = Some (Ref t) \<Longrightarrow>
                 t \<noteq> next_addr s \<and> store s t = vals (scalars_of (store s t))"
      and bad: "\<not> (\<exists>t rok x y z. map_of (store s m) ''totals'' = Some (Ref t)
                  \<and> map_of (store s t) ''records_ok'' = Some rok \<and> num_of rok = Some x
                  \<and> num_of (if truthy (store s) (dict_get (store s t) ''raw_lines'')
                            then dict_get (store s t) ''raw_lines'' else Val (SInt 1)) = Some y
                  \<and> num_of (if truthy (store s) (dict_get (store s t) ''transactions'')
                            then dict_get (store s t) ''transactions'' else Val (SInt (- 1))) = Some z)"
  shows "\<exists>e. fst (create_process_doc t0 t1 (Ref m) s) = Inl e"
proof (cases "map_of (store s m) ''totals''")
  case None
  then show ?thesis using ne by (simp add: cpd_defs)
next
  case (Some tot)
  show ?thesis
  proof (cases tot)
    case (Val c)
    then show ?thesis using ne Some by (simp add: cpd_defs)
  next
    case (Ref t)
    note t = Some [unfolded Ref]
    from sc [OF t] have tn: "t \<noteq> next_addr s" and tv: "store s t = vals (scalars_of (store s t))"
      by simp_all
    have scal: "\<And>k. \<exists>c. dict_get (store s t) k = Val c"
    proof -
      fix k
      have "dict_get (vals (scalars_of (store s t))) k
              = (case map_of (scalars_of (store s t)) k of None \<Rightarrow> Val SNone | Some c \<Rightarrow> Val c)"
        by (simp add: dict_get_def map_of_vals split: option.splits)
      then show "\<exists>c. dict_get (store s t) k = Val c"
        using tv by (metis option.case_eq_if)
    qed
    obtain craw where craw: "dict_get (store s t) ''raw_lines'' = Val craw" using scal by blast
    obtain ctr where ctr: "dict_get (store s t) ''transactions'' = Val ctr" using scal by blast
    have tr_ind: "\<And>st a d c. truthy (st(a := d)) (Val c) = truthy st (Val c)"
      by (case_tac c) simp_all
    have gm: "\<And>k (s' :: 'fs state). store s' t = store s t \<Longrightarrow>
                 get_method (Ref t) k s' = (Inr (dict_get (store s t) k), s')"
      by (simp add: get_method_def dict_get_def split: option.splits)
    show ?thesis
    proof (cases "map_of (store s t) ''records_ok''")
      case None
      then show ?thesis using ne tn t
        by (simp add: cpd_defs del: get_method_def)
    next
      case (Some rok)
      note rok = this
      let ?w1 = "if truthy (store s) (Val craw) then Val craw else Val (SInt 1)"
      let ?w2 = "if truthy (store s) (Val ctr) then Val ctr else Val (SInt (- 1))"
      from bad t rok craw ctr have
        "num_of rok = None \<or> num_of ?w1 = None \<or> num_of ?w2 = None"
        by auto
      then show ?thesis
        using ne tn t rok
        by (auto simp add: create_process_doc_def seq_def try_except_def ret_def raise_def new_dict_def
            alloc_def dict_of_def set_item_def get_item_def py_or_def py_truediv_def
            py_mul_float_def dict_keys_def gm craw ctr tr_ind
            split: option.splits)
    qed
  qed
qed

lemma truthy_upd_Val: "truthy (st(a := d)) (Val c) = truthy st (Val c)"
  by (cases c) simp_all

lemma dict_get_scalar:
  assumes "d = vals (scalars_of d)"
  shows "\<exists>c. dict_get d k = Val c"
proof -
  have "dict_get (vals (scalars_of d)) k
          = (case map_of (scalars_of d) k of None \<Rightarrow> Val SNone | Some c \<Rightarrow> Val c)"
    by (simp add: dict_get_def map_of_vals split: option.splits)
  then show ?thesis using assms by (metis option.case_eq_if)
qed

text \<open>\<^verbatim>\<open>create_process_doc\<close> on totals that hold scalars only: when it returns.\<close>

lemma create_process_doc_run:
  fixes s :: "'fs state"
  assumes tot: "map_of (store s m) ''totals'' = Some (Ref t)"
      and ne: "m \<noteq> next_addr s" "t \<noteq> next_addr s"
      and tv: "store s t = vals (scalars_of (store s t))"
      and rok: "map_of (store s t) ''records_ok'' = Some rok" "num_of rok = Some x"
      and w1: "num_of (if truthy (store s) (dict_get (store s t) ''raw_lines'')
                       then dict_get (store s t) ''raw_lines'' else Val (SInt 1)) = Some y"
      and w2: "num_of (if truthy (store s) (dict_get (store s t) ''transactions'')
                       then dict_get (store s t) ''transactions'' else Val (SInt (- 1))) = Some z"
  shows "\<exists>D. create_process_doc t0 t1 (Ref m) s =
              (Inr (Ref (next_addr s)), s\<lparr>store := (store s)(next_addr s := D), next_addr := Suc (next_addr s)\<rparr>)
           \<and> (\<forall>k\<in>set mv_out_arr. map_of D k \<noteq> None)
           \<and> (\<forall>k v. map_of D k = Some v \<longrightarrow> k \<in> set mv_out_arr \<or> is_dict v)"
proof -
  obtain craw where craw: "dict_get (store s t) ''raw_lines'' = Val craw"
    using dict_get_scalar [OF tv] by blast
  obtain ctr where ctr: "dict_get (store s t) ''transactions'' = Val ctr"
    using dict_get_scalar [OF tv] by blast
  have y0: "y \<noteq> 0"
    using w1 num_of_truthy [of "Val craw" y "store s"] unfolding craw by (auto split: if_splits)
  have gm: "\<And>k (s' :: 'fs state). store s' t = store s t \<Longrightarrow>
               get_method (Ref t) k s' = (Inr (dict_get (store s t) k), s')"
    by (simp add: get_method_def dict_get_def split: option.splits)
  let ?secs = "Val (SFloat (of_int (elapsed_millis t0 t1) / 1000))"
  define d3 :: rat where "d3 = (if of_int (elapsed_millis t0 t1) / 1000 = (0::rat) then 1
                         else of_int (elapsed_millis t0 t1) / 1000)"
  have d3: "d3 \<noteq> 0" by (simp add: d3_def)
  define D0 where "D0 = [(''start_time'', Val (SIso t0)), (''end_time'', Val (SIso t1)),
                     (''elapsed_time_in_millisecs'', Val (SInt (elapsed_millis t0 t1))),
                     (''elapsed_time_in_secs'', ?secs),
                     (''valid_transac_perc'', Val (SFloat (x / y * 100))),
                     (''tps'', Val (SFloat (z / d3)))]"
  define s_mid where "s_mid = s\<lparr>next_addr := Suc (next_addr s), store := (store s)(next_addr s := D0)\<rparr>"
  have straight: "create_process_doc t0 t1 (Ref m) s =
      (case copy_dicts (map fst (store s m)) (Ref m) (Ref (next_addr s)) s_mid of
         (Inl e, s') \<Rightarrow> (Inl e, s') | (Inr u, s') \<Rightarrow> (Inr (Ref (next_addr s)), s'))"
    using ne y0 d3 w1 w2 unfolding s_mid_def D0_def d3_def craw ctr
    by (simp add: create_process_doc_def seq_def try_except_def ret_def raise_def new_dict_def alloc_def
        dict_of_def set_item_def get_item_def tot rok gm craw ctr py_or_def truthy_upd_Val
        py_truediv_def dict_keys_def py_mul_float_def
        split: prod.splits sum.splits)
  have "set (map fst (store s m)) \<subseteq> fst ` set (store s_mid m)"
    using ne by (simp add: s_mid_def)
  from copy_dicts_spec [OF ne(1) [symmetric] this] obtain D' where
    D: "copy_dicts (map fst (store s m)) (Ref m) (Ref (next_addr s)) s_mid
          = (Inr (), s_mid\<lparr>store := (store s_mid)(next_addr s := D')\<rparr>)"
    and D2: "\<forall>k v. map_of D' k = Some v \<longrightarrow> map_of (store s_mid (next_addr s)) k = Some v \<or> is_dict v"
    and D3: "dom (map_of (store s_mid (next_addr s))) \<subseteq> dom (map_of D')"
    by blast
  have mid: "store s_mid (next_addr s) = D0" by (simp add: s_mid_def)
  have keys0: "dom (map_of D0) = set mv_out_arr"
    by (auto simp: D0_def mv_out_arr_def split: if_splits)
  show ?thesis
  proof (intro exI [of _ D'] conjI ballI allI impI)
    show "create_process_doc t0 t1 (Ref m) s =
      (Inr (Ref (next_addr s)), s\<lparr>store := (store s)(next_addr s := D'), next_addr := Suc (next_addr s)\<rparr>)"
      unfolding straight D by (simp add: s_mid_def)
  next
    fix k assume "k \<in> set mv_out_arr"
    then have "k \<in> dom (map_of D')" using D3 keys0 mid by auto
    then show "map_of D' k \<noteq> None" by auto
  next
    fix k v assume "map_of D' k = Some v"
    then have "map_of D0 k = Some v \<or> is_dict v" using D2 mid by auto
    then show "k \<in> set mv_out_arr \<or> is_dict v" using keys0 by auto
  qed
qed

lemma create_process_doc_eff:
  fixes s :: "'fs state"
  assumes run: "create_process_doc t0 t1 (Ref m) s = (Inr doc, s')"
      and ne: "m \<noteq> next_addr s"
      and sc: "\<And>t. map_of (store s m) ''totals'' = Some (Ref t) \<Longrightarrow>
                 t \<noteq> next_addr s \<and> store s t = vals (scalars_of (store s t))"
  shows "\<exists>D. doc = Ref (next_addr s)
           \<and> s' = s\<lparr>store := (store s)(next_addr s := D), next_addr := Suc (next_addr s)\<rparr>
           \<and> (\<forall>k\<in>set mv_out_arr. map_of D k \<noteq> None)
           \<and> (\<forall>k v. map_of D k = Some v \<longrightarrow> k \<in> set mv_out_arr \<or> is_dict v)"
proof -
  have "\<exists>t rok x y z. map_of (store s m) ''totals'' = Some (Ref t)
                  \<and> map_of (store s t) ''records_ok'' = Some rok \<and> num_of rok = Some x
                  \<and> num_of (if truthy (store s) (dict_get (store s t) ''raw_lines'')
                            then dict_get (store s t) ''raw_lines'' else Val (SInt 1)) = Some y
                  \<and> num_of (if truthy (store s) (dict_get (store s t) ''transactions'')
                            then dict_get (store s t) ''transactions'' else Val (SInt (- 1))) = Some z"
  proof (rule ccontr)
    assume "\<not> ?thesis"
    from create_process_doc_faults [OF ne sc this, of t0 t1] show False
      using run by simp
  qed
  then obtain t rok x y z where
    c: "map_of (store s m) ''totals'' = Some (Ref t)"
       "map_of (store s t) ''records_ok'' = Some rok" "num_of rok = Some x"
       "num_of (if truthy (store s) (dict_get (store s t) ''raw_lines'')
                            then dict_get (store s t) ''raw_lines'' else Val (SInt 1)) = Some y"
       "num_of (if truthy (store s) (dict_get (store s t) ''transactions'')
                            then dict_get (store s t) ''transactions'' else Val (SInt (- 1))) = Some z"
    by blast
  from sc [OF c(1)] have tn: "t \<noteq> next_addr s" and tv: "store s t = vals (scalars_of (store s t))"
    by simp_all
  from create_process_doc_run [OF c(1) ne tn tv c(2-5), of t0 t1] show ?thesis
    using run by auto
qed

text \<open>The loop of lines 238 to 241.\<close>

lemma mv_out_spec:
  fixes s :: "'fs state"
  assumes P: "map_of (store s p) proc_name = Some (Ref g)"
      and ne: "c \<noteq> g" "c \<noteq> p" "g \<noteq> p"
  shows "\<exists>G C. mv_out keys (Ref c) (Ref p) s = (Inr (), s\<lparr>store := (store s)(g := G, c := C)\<rparr>)
           \<and> (\<forall>k. map_of C k = (if k \<in> set keys then None else map_of (store s c) k))
           \<and> (\<forall>k. map_of G k = (if k \<in> set keys \<and> map_of (store s c) k \<noteq> None
                                 then map_of (store s c) k else map_of (store s g) k))"
  using P
proof (induction keys arbitrary: s)
  case Nil
  show ?case
    by (rule exI [of _ "store s g"], rule exI [of _ "store s c"]) (simp add: ret_def)
next
  case (Cons key keys)
  show ?case
  proof (cases "map_of (store s c) key")
    case None
    have step: "mv_out (key # keys) (Ref c) (Ref p) s = mv_out keys (Ref c) (Ref p) s"
      using None by (simp add: seq_def contains_def)
    from Cons.IH [OF Cons.prems] obtain G C where
      a: "mv_out keys (Ref c) (Ref p) s = (Inr (), s\<lparr>store := (store s)(g := G, c := C)\<rparr>)"
      and b: "\<forall>k. map_of C k = (if k \<in> set keys then None else map_of (store s c) k)"
             "\<forall>k. map_of G k = (if k \<in> set keys \<and> map_of (store s c) k \<noteq> None
                                 then map_of (store s c) k else map_of (store s g) k)"
      by blast
    have c1: "\<forall>k. map_of C k = (if k \<in> set (key # keys) then None else map_of (store s c) k)"
      using b(1) None by auto
    have c2: "\<forall>k. map_of G k = (if k \<in> set (key # keys) \<and> map_of (store s c) k \<noteq> None
                                 then map_of (store s c) k else map_of (store s g) k)"
      using b(2) None by auto
    show ?thesis
      apply (rule exI [of _ G], rule exI [of _ C])
      using a c1 c2 unfolding step by blast
  next
    case (Some v)
    let ?s1 = "s\<lparr>store := (store s)(g := AList.update key v (store s g),
                                      c := AList.delete key (store s c))\<rparr>"
    have step: "mv_out (key # keys) (Ref c) (Ref p) s = mv_out keys (Ref c) (Ref p) ?s1"
      using Some Cons.prems ne
      by (simp add: seq_def contains_def get_item_def set_item_def del_item_def)
    have P1: "map_of (store ?s1 p) proc_name = Some (Ref g)"
      using Cons.prems ne by simp
    from Cons.IH [OF P1] obtain G C where
      a: "mv_out keys (Ref c) (Ref p) ?s1 = (Inr (), ?s1\<lparr>store := (store ?s1)(g := G, c := C)\<rparr>)"
      and b: "\<forall>k. map_of C k = (if k \<in> set keys then None else map_of (store ?s1 c) k)"
             "\<forall>k. map_of G k = (if k \<in> set keys \<and> map_of (store ?s1 c) k \<noteq> None
                                 then map_of (store ?s1 c) k else map_of (store ?s1 g) k)"
      by blast
    have fin: "?s1\<lparr>store := (store ?s1)(g := G, c := C)\<rparr> = s\<lparr>store := (store s)(g := G, c := C)\<rparr>"
      by simp
    have c1: "\<forall>k. map_of C k = (if k \<in> set (key # keys) then None else map_of (store s c) k)"
      using b(1) by (auto simp: delete_conv')
    have c2: "\<forall>k. map_of G k = (if k \<in> set (key # keys) \<and> map_of (store s c) k \<noteq> None
                                 then map_of (store s c) k else map_of (store s g) k)"
      using b(2) ne Some by (auto simp: delete_conv' update_conv')
    show ?thesis
      apply (rule exI [of _ G], rule exI [of _ C])
      using a c1 c2 unfolding step fin by blast
  qed
qed

lemma set_process_results_doc_Inr:
  "set_process_results_doc v s = (Inr u, s') \<longleftrightarrow> s' = s\<lparr>process_results_doc := v\<rparr>"
  by (auto simp: set_process_results_doc_def)

lemma delete_vals: "AList.delete k (vals e) = vals (AList.delete k e)"
  by (induction e) (auto simp: vals_def)

lemma scalar_dict_delete:
  assumes "d = vals (scalars_of d)"
  shows "AList.delete k d = vals (scalars_of (AList.delete k d))"
proof -
  have "AList.delete k (vals (scalars_of d)) = vals (scalars_of (AList.delete k (vals (scalars_of d))))"
    by (simp add: delete_vals scalars_of_vals)
  then show ?thesis using assms by simp
qed

text \<open>Lines 218 to 241 on a run without fault.\<close>

lemma fold_results_eff:
  fixes s :: "'fs state"
  assumes run: "fold_results t0 t1 (Ref p) (Ref m) r s = (Inr doc, s')"
      and P: "map_of (store s p) proc_name = Some (Ref g)"
      and lt: "g < next_addr s" "p < next_addr s" "m < next_addr s"
      and ne: "m \<noteq> g" "m \<noteq> p" "g \<noteq> p"
      and tot: "\<forall>a. map_of (store s m) ''totals'' = Some (Ref a) \<longrightarrow>
                  a < next_addr s \<and> a \<noteq> g \<and> a \<noteq> p \<and> store s a = vals (scalars_of (store s a))"
  shows "\<exists>t. doc = Ref (next_addr s)
           \<and> map_of (store s m) ''totals'' = Some (Ref t)
           \<and> s' = s\<lparr>store := store s', next_addr := Suc (Suc (next_addr s)),
                     process_results_doc := Ref (next_addr s)\<rparr>
           \<and> (\<forall>a. a \<noteq> t \<and> a \<noteq> g \<and> a \<noteq> next_addr s \<and> a \<noteq> Suc (next_addr s) \<longrightarrow> store s' a = store s a)
           \<and> store s' t = (if truthy (store s) (dict_get (store s t) ''site_name'')
                           then AList.delete ''site_name'' (store s t) else store s t)
           \<and> (\<forall>k\<in>set mv_out_arr. map_of (store s' (next_addr s)) k \<noteq> None
                  \<and> map_of (store s' (Suc (next_addr s))) k = None
                  \<and> map_of (store s' g) k = map_of (store s' (next_addr s)) k)
           \<and> (\<forall>k v. map_of (store s' (Suc (next_addr s))) k = Some v \<longrightarrow>
                  is_dict v \<and> map_of (store s' (next_addr s)) k = Some v)
           \<and> (\<forall>k. k \<notin> set mv_out_arr \<longrightarrow>
                  map_of (store s' (Suc (next_addr s))) k = map_of (store s' (next_addr s)) k)
           \<and> map_of (store s' g) ''status'' = Some (Val (SStr (if r = FAIL then ''error'' else ''finished'')))
           \<and> map_of (store s' g) ''summary'' = Some (Ref (Suc (next_addr s)))"
proof -
  define n where "n = next_addr s"
  from run obtain u1 s1 doc1 s2 u3 s3 stage s4 u5 s5 c s6 stage' s7 u8 s8 u9 s9 where
    1: "move_site_name (Ref m) (Ref p) s = (Inr u1, s1)"
    and 2: "create_process_doc t0 t1 (Ref m) s1 = (Inr doc1, s2)"
    and 3: "set_process_results_doc doc1 s2 = (Inr u3, s3)"
    and 4: "get_item (Ref p) proc_name s3 = (Inr stage, s4)"
    and 5: "set_item stage ''status'' (Val (SStr (if r = FAIL then ''error'' else ''finished''))) s4 = (Inr u5, s5)"
    and 6: "dict_copy doc1 s5 = (Inr c, s6)"
    and 7: "get_item (Ref p) proc_name s6 = (Inr stage', s7)"
    and 8: "set_item stage' ''summary'' c s7 = (Inr u8, s8)"
    and 9: "mv_out mv_out_arr c (Ref p) s8 = (Inr u9, s9)"
    and 10: "ret doc1 s9 = (Inr doc, s')"
    unfolding fold_results_def by (elim seq_InrE) blast
  have tg: "\<forall>a. map_of (store s m) ''totals'' = Some (Ref a) \<longrightarrow> a \<noteq> g \<and> a \<noteq> p"
    using tot by blast
  from move_site_name_eff [OF 1 P ne(1,2) tg] obtain t where
    t: "map_of (store s m) ''totals'' = Some (Ref t)"
    and s1: "s1 = (if truthy (store s) (dict_get (store s t) ''site_name'')
                  then s\<lparr>store := (store s)
                         (g := AList.update ''site_name'' (dict_get (store s t) ''site_name'') (store s g),
                          t := AList.delete ''site_name'' (store s t))\<rparr>
                  else s)"
    by blast
  from tot t have tp: "t < n" "t \<noteq> g" "t \<noteq> p" "store s t = vals (scalars_of (store s t))"
    by (auto simp: n_def)
  have tm: "t \<noteq> m"
  proof
    assume "t = m"
    then have "map_of (vals (scalars_of (store s m))) ''totals'' = Some (Ref m)"
      using t tp(4) by simp
    then show False by (auto simp: map_of_vals)
  qed
  define T where "T = (if truthy (store s) (dict_get (store s t) ''site_name'')
                           then AList.delete ''site_name'' (store s t) else store s t)"
  define G1 where "G1 = (if truthy (store s) (dict_get (store s t) ''site_name'')
                           then AList.update ''site_name'' (dict_get (store s t) ''site_name'') (store s g)
                           else store s g)"
  have s1': "s1 = s\<lparr>store := (store s)(g := G1, t := T)\<rparr>"
    unfolding s1 T_def G1_def by simp
  have n1: "next_addr s1 = n" by (simp add: s1' n_def)
  have m1: "store s1 m = store s m" "store s1 p = store s p" "store s1 t = T" "store s1 g = G1"
    using ne tm tp by (simp_all add: s1')
  have Tv: "T = vals (scalars_of T)"
    unfolding T_def using tp(4) scalar_dict_delete [OF tp(4)] by simp
  have sc: "\<And>a. map_of (store s1 m) ''totals'' = Some (Ref a) \<Longrightarrow>
                a \<noteq> next_addr s1 \<and> store s1 a = vals (scalars_of (store s1 a))"
    using t tp Tv by (auto simp: m1 n1)
  have mn: "m \<noteq> next_addr s1" using lt by (simp add: n1 n_def)
  from create_process_doc_eff [OF 2 mn sc] obtain D where
    d: "doc1 = Ref n"
    and s2: "s2 = s1\<lparr>store := (store s1)(n := D), next_addr := Suc n\<rparr>"
    and D: "\<forall>k\<in>set mv_out_arr. map_of D k \<noteq> None"
           "\<forall>k v. map_of D k = Some v \<longrightarrow> k \<in> set mv_out_arr \<or> is_dict v"
    unfolding n1 by blast
  have pn: "p \<noteq> n" "g \<noteq> n" "t \<noteq> n" "m \<noteq> n" using lt tp by (auto simp: n_def)
  from 3 have s3: "s3 = s2\<lparr>process_results_doc := Ref n\<rparr>"
    by (simp add: set_process_results_doc_Inr d)
  have P3: "map_of (store s3 p) proc_name = Some (Ref g)"
    using P pn by (simp add: s3 s2 m1)
  from 4 P3 have s4: "s4 = s3" "stage = Ref g" by (auto simp: prim_Inr)
  define G2 where "G2 = AList.update ''status'' (Val (SStr (if r = FAIL then ''error'' else ''finished''))) G1"
  from 5 have s5: "s5 = s3\<lparr>store := (store s3)(g := G2)\<rparr>"
    using pn by (auto simp: prim_Inr s4 G2_def s3 s2 m1)
  from 6 have s6: "c = Ref (Suc n)" "s6 = s5\<lparr>store := (store s5)(Suc n := D), next_addr := Suc (Suc n)\<rparr>"
    using pn by (auto simp: prim_Inr d s5 s3 s2)
  have P6: "map_of (store s6 p) proc_name = Some (Ref g)"
    using P pn ne lt by (simp add: s6 s5 s3 s2 m1 n_def)
  from 7 P6 have s7: "s7 = s6" "stage' = Ref g" by (auto simp: prim_Inr)
  define G3 where "G3 = AList.update ''summary'' (Ref (Suc n)) G2"
  from 8 have s8: "s8 = s6\<lparr>store := (store s6)(g := G3)\<rparr>"
    using pn lt by (auto simp: prim_Inr s7 s6 G3_def s5 n_def)
  have P8: "map_of (store s8 p) proc_name = Some (Ref g)"
    using P6 ne by (simp add: s8)
  have cg: "Suc n \<noteq> g" "Suc n \<noteq> p" using lt by (auto simp: n_def)
  from mv_out_spec [OF P8 cg ne(3), of mv_out_arr] 9 obtain G C where
    s9: "s9 = s8\<lparr>store := (store s8)(g := G, Suc n := C)\<rparr>"
    and C: "\<forall>k. map_of C k = (if k \<in> set mv_out_arr then None else map_of (store s8 (Suc n)) k)"
    and G: "\<forall>k. map_of G k = (if k \<in> set mv_out_arr \<and> map_of (store s8 (Suc n)) k \<noteq> None
                                 then map_of (store s8 (Suc n)) k else map_of (store s8 g) k)"
    unfolding s6(1) by auto
  from 10 have fin: "doc = Ref n" "s' = s9" by (auto simp: ret_def d)
  have c8: "store s8 (Suc n) = D" using cg by (simp add: s8 s6)
  have g8: "store s8 g = G3" by (simp add: s8)
  have st: "store s' = (store s)(t := T, n := D, g := G, Suc n := C)"
    using pn cg tp lt unfolding fin s9 s8 s6 s5 s3 s2 s1' by (auto simp: fun_eq_iff n_def)
  have rec: "s' = s\<lparr>store := store s', next_addr := Suc (Suc n), process_results_doc := Ref n\<rparr>"
    unfolding fin s9 s8 s6 s5 s3 s2 s1' by simp
  have at: "store s' t = T" "store s' n = D" "store s' g = G" "store s' (Suc n) = C"
    using pn cg tp lt by (auto simp: st n_def)
  have keys: "''status'' \<notin> set mv_out_arr" "''summary'' \<notin> set mv_out_arr"
    by (simp_all add: mv_out_arr_def)
  have a1: "\<forall>a. a \<noteq> t \<and> a \<noteq> g \<and> a \<noteq> n \<and> a \<noteq> Suc n \<longrightarrow> store s' a = store s a"
    by (simp add: st)
  have a2: "\<forall>k\<in>set mv_out_arr. map_of (store s' n) k \<noteq> None
                  \<and> map_of (store s' (Suc n)) k = None
                  \<and> map_of (store s' g) k = map_of (store s' n) k"
    using D(1) C G by (auto simp: at c8)
  have a3: "\<forall>k v. map_of (store s' (Suc n)) k = Some v \<longrightarrow> is_dict v \<and> map_of (store s' n) k = Some v"
    using D(2) C by (auto simp: at c8 split: if_splits)
  have a4: "\<forall>k. k \<notin> set mv_out_arr \<longrightarrow> map_of (store s' (Suc n)) k = map_of (store s' n) k"
    using C by (simp add: at c8)
  have a5: "map_of (store s' g) ''status'' = Some (Val (SStr (if r = FAIL then ''error'' else ''finished'')))"
    using G keys by (simp add: at g8 G3_def G2_def update_conv')
  have a6: "map_of (store s' g) ''summary'' = Some (Ref (Suc n))"
    using G keys by (simp add: at g8 G3_def update_conv')
  show ?thesis
    apply (rule exI [of _ t])
    using fin(1) t rec a1 at(1) a2 a3 a4 a5 a6 unfolding n_def [symmetric] T_def by blast
qed

lemma truthy_Val: "truthy st (Val c) = truthy (\<lambda>_. []) (Val c)"
  by (cases c) simp_all

lemma map_of_summary_value:
  "map_of (summary_value st m) k = map_option (stored st) (map_of (st m) k)"
  unfolding summary_value_def by (rule map_of_map_values)

lemma vals_Nil: "vals e = [] \<longleftrightarrow> e = []"
  by (simp add: vals_def)

text \<open>Line 212 on a run without fault.\<close>

lemma error_flag_eff:
  fixes s :: "'fs state"
  assumes run: "error_flag (Ref m) s = (Inr r, s')"
      and lt: "m < next_addr s"
      and ch: "\<forall>k a. map_of (store s m) k = Some (Ref a) \<longrightarrow>
                 a < next_addr s \<and> store s a = vals (scalars_of (store s a))"
  shows "\<exists>c. summary_flag (summary_value (store s) m) = Some c \<and> r = Val c
           \<and> s' = s\<lparr>store := store s', next_addr := next_addr s'\<rparr>
           \<and> next_addr s \<le> next_addr s'
           \<and> (\<forall>a<next_addr s. store s' a = store s a)"
proof -
  define e where "e = dict_get (store s m) ''error''"
  from run obtain e0 s1 b s2 where
    1: "get_method (Ref m) ''error'' s = (Inr e0, s1)"
    and 2: "is_true e0 s1 = (Inr b, s2)"
    and 3: "(if b
             then seq (new_dict []) (\<lambda>dflt.
                  seq (get_method_default (Ref m) ''error'' dflt) (\<lambda>e'.
                  get_method e' ''flag''))
             else ret (Val (SStr ''OK''))) s2 = (Inr r, s')"
    unfolding error_flag_def by (elim seq_InrE) blast
  from 1 2 have s2: "s2 = s" "e0 = e" "b = truthy (store s) e"
    by (auto simp: prim_Inr e_def)
  show ?thesis
  proof (cases b)
    case False
    then have fin: "s' = s" "r = Val (SStr ''OK'')" using 3 by (auto simp: ret_def s2)
    have "summary_flag (summary_value (store s) m) = Some (SStr ''OK'')"
    proof (cases "map_of (store s m) ''error''")
      case None
      then show ?thesis by (simp add: summary_flag_def map_of_summary_value)
    next
      case (Some v)
      then have ev: "e = v" by (simp add: e_def dict_get_def)
      show ?thesis
      proof (cases v)
        case (Val c)
        then have "\<not> truthy (\<lambda>_. []) (Val c)"
          using False s2(3) ev truthy_Val [of "store s" c] by simp
        then show ?thesis using Some Val by (simp add: summary_flag_def map_of_summary_value stored_def)
      next
        case (Ref a)
        then have "store s a = []" using False s2(3) ev by simp
        then show ?thesis using Some Ref
          by (simp add: summary_flag_def map_of_summary_value stored_def scalars_of_def)
      qed
    qed
    then show ?thesis using fin by simp
  next
    case True
    from 3 True obtain dflt q1 e' q2 where
      4: "new_dict [] s = (Inr dflt, q1)"
      and 5: "get_method_default (Ref m) ''error'' dflt q1 = (Inr e', q2)"
      and 6: "get_method e' ''flag'' q2 = (Inr r, s')"
      unfolding s2 by (simp only: if_True) (elim seq_InrE, blast)
    from 4 have q1: "q1 = s\<lparr>store := (store s)(next_addr s := []), next_addr := Suc (next_addr s)\<rparr>"
      by (auto simp: new_dict_def alloc_def dict_of_def)
    obtain v where v: "map_of (store s m) ''error'' = Some v" "e = v"
      using True s2(3) by (cases "map_of (store s m) ''error''") (auto simp: e_def dict_get_def)
    from 5 have q2: "q2 = q1" "e' = v"
      using lt v by (auto simp: prim_Inr q1)
    from 6 obtain a where a: "v = Ref a" "r = dict_get (store q1 a) ''flag''" "s' = q1"
      by (auto simp: prim_Inr q2)
    from ch v a have al: "a < next_addr s" "store s a = vals (scalars_of (store s a))" by auto
    have ne: "store s a \<noteq> []" using True s2(3) v a by simp
    define E where "E = scalars_of (store s a)"
    have sa: "store s a = vals E" using al(2) by (simp add: E_def)
    have En: "E \<noteq> []" using ne sa by (simp add: vals_Nil)
    have r: "r = Val (case map_of E ''flag'' of None \<Rightarrow> SNone | Some c \<Rightarrow> c)"
      using al(1) by (simp add: a q1 sa dict_get_def map_of_vals split: option.splits)
    have "summary_flag (summary_value (store s) m) = Some (case map_of E ''flag'' of None \<Rightarrow> SNone | Some c \<Rightarrow> c)"
      using v a En by (simp add: summary_flag_def map_of_summary_value stored_def E_def)
    then show ?thesis using r by (simp add: a(3) q1)
  qed
qed

lemma move_file_filesys:
  fixes s s0 :: "'fs state"
  assumes "filesys s = filesys s0"
  shows "filesys (snd (move_file os name fp tp s)) = filesys (snd (move_file os name fp tp s0))"
  using assms unfolding move_file_eq Let_def
  by (simp split: option.splits prod.splits sum.splits)

lemma move_file_rec:
  fixes s :: "'fs state"
  assumes "move_file os name fp tp s = (res, s')"
  shows "s' = s\<lparr>calls := calls s @ [Call_move_file name fp tp], filesys := filesys s'\<rparr>"
  using assms unfolding move_file_eq Let_def
  by (auto split: option.splits prod.splits sum.splits if_splits)

text \<open>Lines 212 to 216 on a run without fault.\<close>

lemma route_file_eff:
  fixes s :: "'fs state"
  assumes run: "route_file os files_path f (Ref m) s = (Inr r, s')"
      and lt: "m < next_addr s"
      and ch: "\<forall>k a. map_of (store s m) k = Some (Ref a) \<longrightarrow>
                 a < next_addr s \<and> store s a = vals (scalars_of (store s a))"
  shows "\<exists>c. summary_flag (summary_value (store s) m) = Some c \<and> r = Val c
           \<and> s' = s\<lparr>store := store s', next_addr := next_addr s',
                     calls := calls s @ [Call_move_file (file_name f) (files_path ''repo_path'')
                        (if c = SStr ''FAIL'' then files_path ''err_path'' else files_path ''ok_path'')],
                     filesys := filesys (snd (move_file os (file_name f) (files_path ''repo_path'')
                        (if c = SStr ''FAIL'' then files_path ''err_path'' else files_path ''ok_path'') s))\<rparr>
           \<and> next_addr s \<le> next_addr s'
           \<and> (\<forall>a<next_addr s. store s' a = store s a)"
proof -
  from run obtain r1 s1 b s2 where
    1: "error_flag (Ref m) s = (Inr r1, s1)"
    and 2: "move_file os (file_name f) (files_path ''repo_path'')
              (if r1 = FAIL then files_path ''err_path'' else files_path ''ok_path'') s1 = (Inr b, s2)"
    and 3: "ret r1 s2 = (Inr r, s')"
    unfolding route_file_def by (elim seq_InrE) blast
  from error_flag_eff [OF 1 lt ch] obtain c where
    c: "summary_flag (summary_value (store s) m) = Some c" "r1 = Val c"
    and s1: "s1 = s\<lparr>store := store s1, next_addr := next_addr s1\<rparr>"
    and fr: "next_addr s \<le> next_addr s1" "\<forall>a<next_addr s. store s1 a = store s a"
    by blast
  let ?to = "if c = SStr ''FAIL'' then files_path ''err_path'' else files_path ''ok_path''"
  have to: "(if r1 = FAIL then files_path ''err_path'' else files_path ''ok_path'') = ?to"
    by (simp add: c FAIL_def)
  have f1: "filesys s1 = filesys s" "calls s1 = calls s"
    by (subst s1, simp)+
  from 3 have fin: "r = r1" "s' = s2" by (auto simp: ret_def)
  have fs: "filesys s2 = filesys (snd (move_file os (file_name f) (files_path ''repo_path'') ?to s))"
    using move_file_filesys [OF f1(1), of os "file_name f" "files_path ''repo_path''" ?to] 2
    by (simp add: to)
  have s2: "s2 = s1\<lparr>calls := calls s1 @ [Call_move_file (file_name f) (files_path ''repo_path'') ?to],
                    filesys := filesys s2\<rparr>"
    using move_file_rec [OF 2 [unfolded to]] .
  have st: "store s2 = store s1" "next_addr s2 = next_addr s1"
    by (subst s2, simp)+
  have rec: "s' = s\<lparr>store := store s', next_addr := next_addr s',
                     calls := calls s @ [Call_move_file (file_name f) (files_path ''repo_path'') ?to],
                     filesys := filesys (snd (move_file os (file_name f) (files_path ''repo_path'') ?to s))\<rparr>"
    unfolding fin fs [symmetric] st
    by (subst s2, subst s1) (simp add: f1)
  show ?thesis
    apply (rule exI [of _ c])
    using c fin(1) rec fr unfolding fin(2) st by blast
qed

lemma foldl_update_triv:
  "(\<forall>(k, v)\<in>set e. map_of d k = Some v) \<Longrightarrow> foldl (\<lambda>d (k, v). AList.update k v d) d e = d"
  by (induction e) (auto simp: update_triv)

lemma dict_update_self: "distinct (map fst d) \<Longrightarrow> dict_update d d = d"
  unfolding dict_update_def by (rule foldl_update_triv) auto

text \<open>The value of the summary once a truthy site name has been deleted from its totals.\<close>

lemma summary_after:
  assumes dk: "distinct (map fst (st m))"
      and inj: "\<forall>k k' a. map_of (st m) k = Some (Ref a) \<and> map_of (st m) k' = Some (Ref a) \<longrightarrow> k = k'"
      and ch: "\<forall>k a. map_of (st m) k = Some (Ref a) \<longrightarrow> st a = vals (scalars_of (st a))"
      and tot: "map_of (st m) ''totals'' = Some (Ref t)"
      and m': "st' m = st m"
      and t': "st' t = (if truthy st0 (dict_get (st t) ''site_name'')
                        then AList.delete ''site_name'' (st t) else st t)"
      and o': "\<forall>k a. map_of (st m) k = Some (Ref a) \<and> a \<noteq> t \<longrightarrow> st' a = st a"
  shows "summary_value st' m = without_site_name (summary_value st m)"
proof -
  have "stored st' v = (case stored st v of
            Scalar c \<Rightarrow> Scalar c
          | Nested e \<Rightarrow>
              if k = ''totals'' \<and> truthy (\<lambda>_. []) (dict_get (vals e) ''site_name'')
              then Nested (AList.delete ''site_name'' e) else Nested e)"
    if kv: "(k, v) \<in> set (st m)" for k v
  proof (cases v)
    case (Val c)
    then show ?thesis by (simp add: stored_def)
  next
    case (Ref a)
    have mo: "map_of (st m) k = Some (Ref a)"
      using kv dk Ref by simp
    have sv: "st a = vals (scalars_of (st a))" using ch mo by blast
    show ?thesis
    proof (cases "a = t")
      case True
      have k: "k = ''totals''" using inj mo tot True by blast
      obtain c where c: "dict_get (st t) ''site_name'' = Val c"
        using dict_get_scalar [OF sv [unfolded True]] by blast
      have tr: "truthy st0 (dict_get (st t) ''site_name'')
                  = truthy (\<lambda>_. []) (dict_get (vals (scalars_of (st t))) ''site_name'')"
        using sv True c truthy_Val [of st0 c] by simp
      have del: "scalars_of (AList.delete ''site_name'' (st t)) = AList.delete ''site_name'' (scalars_of (st t))"
      proof -
        have "scalars_of (AList.delete ''site_name'' (vals (scalars_of (st t))))
                = AList.delete ''site_name'' (scalars_of (st t))"
          by (simp add: delete_vals scalars_of_vals)
        then show ?thesis using sv True by simp
      qed
      show ?thesis
        unfolding Ref True stored_def using k t' tr del by simp
    next
      case False
      have k: "k \<noteq> ''totals''" using mo tot False by auto
      have "st' a = st a" using o' mo False by blast
      then show ?thesis using k by (simp add: Ref stored_def)
    qed
  qed
  then show ?thesis
    unfolding summary_value_def without_site_name_def m' by (auto simp: map_eq_conv)
qed

lemma set_summary_Inr:
  "set_summary v s = (Inr u, s') \<longleftrightarrow> s' = s\<lparr>summary := (case v of Ref a \<Rightarrow> Some a | Val _ \<Rightarrow> None)\<rparr>"
  by (auto simp: set_summary_def)

lemma set_task_id_Inr: "set_task_id v s = (Inr u, s') \<longleftrightarrow> s' = s\<lparr>task_id := v\<rparr>"
  by (auto simp: set_task_id_def)

text \<open>Lines 193 to 247 on a run without fault.\<close>

lemma process_selected_eff:
  fixes s :: "'fs state"
  assumes run: "process_selected os parser t0 t1 files_path f s = (Inr v, s')"
      and par: "parser f (job_id_of s) = Inr lit"
  shows "\<exists>c d m. summary_flag (norm_lit lit) = Some c
           \<and> v = RResult (file_name f) (Ref d)
           \<and> process_results_doc s' = Ref d
           \<and> summary s' = Some m
           \<and> summary_value (store s') m = without_site_name (norm_lit lit)
           \<and> calls s' = calls s @ [Call_create_job (job_id_of s),
                 Call_move_file (file_name f) (files_path ''repo_path'')
                   (if c = SStr ''FAIL'' then files_path ''err_path'' else files_path ''ok_path''),
                 Call_update_job (job_id_of s)]
           \<and> filesys s' = filesys (snd (move_file os (file_name f) (files_path ''repo_path'')
                   (if c = SStr ''FAIL'' then files_path ''err_path'' else files_path ''ok_path'') s))
           \<and> stage_field s' (job_id_of s) ''status''
                = Some (Val (SStr (if c = SStr ''FAIL'' then ''error'' else ''finished'')))
           \<and> stage_field s' (job_id_of s) ''summary'' = Some (Ref (Suc d))
           \<and> (\<forall>k\<in>set mv_out_arr. map_of (store s' d) k \<noteq> None
                  \<and> map_of (store s' (Suc d)) k = None
                  \<and> stage_field s' (job_id_of s) k = map_of (store s' d) k)
           \<and> (\<forall>k w. map_of (store s' (Suc d)) k = Some w \<longrightarrow>
                  is_dict w \<and> map_of (store s' d) k = Some w)
           \<and> (\<forall>k. k \<notin> set mv_out_arr \<longrightarrow> map_of (store s' (Suc d)) k = map_of (store s' d) k)
           \<and> file_to_proc s' = file_to_proc s \<and> local_err s' = local_err s"
proof -
  define n where "n = next_addr s"
  define jid where "jid = job_id_of s"
  define P0 where "P0 = [(''process_id'', Val (SStr my_proc_name)),
                         (''file'', Val (SStr (file_name f))),
                         (''star_date'', Val (SIso t0)),
                         (proc_name, Ref n)]"
  from open_job_eff [of t0 f s] obtain s1 where
    oj: "open_job t0 f s = (Inr (Ref (Suc n), jid), s1)"
    and s1: "calls s1 = calls s @ [Call_create_job jid]"
            "next_addr s1 = Suc (Suc n)"
            "store s1 (Suc n) = P0"
            "jobs s1 = (jobs s)(jid \<mapsto> Suc n)"
            "file_to_proc s1 = file_to_proc s" "local_err s1 = local_err s"
            "filesys s1 = filesys s"
    unfolding n_def jid_def P0_def by auto
  from call_parser_spec [where parser = parser and f = f and jid = "job_id_of s" and lit = lit and s = s1, OF par]
  obtain st m where
    cp: "call_parser parser f jid s1 = (Inr (Ref m), s1\<lparr>store := st, next_addr := Suc m\<rparr>)"
    and m: "Suc (Suc n) \<le> m"
    and fr: "\<forall>a<Suc (Suc n). st a = store s1 a"
    and ch: "\<forall>k a. map_of (st m) k = Some (Ref a) \<longrightarrow>
                  Suc (Suc n) \<le> a \<and> a < m \<and> st a = vals (scalars_of (st a))"
    and inj: "\<forall>k k' a. map_of (st m) k = Some (Ref a) \<and> map_of (st m) k' = Some (Ref a) \<longrightarrow> k = k'"
    and sv: "summary_value st m = norm_lit lit"
    unfolding s1(2) jid_def by blast
  define s3 where "s3 = s1\<lparr>store := st, next_addr := Suc m, summary := Some m\<rparr>"
  have ss: "set_summary (Ref m) (s1\<lparr>store := st, next_addr := Suc m\<rparr>) = (Inr (), s3)"
    by (simp add: set_summary_def s3_def)
  have rest: "seq (route_file os files_path f (Ref m)) (\<lambda>r.
              seq (fold_results t0 t1 (Ref (Suc n)) (Ref m) r) (\<lambda>doc.
              seq (update_job jid (Ref (Suc n))) (\<lambda>_.
              seq (set_task_id None) (\<lambda>_.
              ret (RResult (file_name f) doc))))) s3 = (Inr v, s')"
    using run unfolding process_selected_def
    by (simp add: seq_Inr [where m = "open_job t0 f" and s = s, OF oj]
                  seq_Inr [where m = "call_parser parser f jid" and s = s1, OF cp]
                  seq_Inr [where m = "set_summary (Ref m)" and s = "s1\<lparr>store := st, next_addr := Suc m\<rparr>", OF ss])
  from rest obtain r s4 doc s5 b s6 u s7 where
    1: "route_file os files_path f (Ref m) s3 = (Inr r, s4)"
    and 2: "fold_results t0 t1 (Ref (Suc n)) (Ref m) r s4 = (Inr doc, s5)"
    and 3: "update_job jid (Ref (Suc n)) s5 = (Inr b, s6)"
    and 4: "set_task_id None s6 = (Inr u, s7)"
    and 5: "ret (RResult (file_name f) doc) s7 = (Inr v, s')"
    by (elim seq_InrE) blast
  have f3: "next_addr s3 = Suc m" "store s3 = st" "calls s3 = calls s1" "jobs s3 = jobs s1"
    "filesys s3 = filesys s" "summary s3 = Some m" "file_to_proc s3 = file_to_proc s"
    "local_err s3 = local_err s"
    by (simp_all add: s3_def s1)
  have ch3: "\<forall>k a. map_of (store s3 m) k = Some (Ref a) \<longrightarrow>
                 a < next_addr s3 \<and> store s3 a = vals (scalars_of (store s3 a))"
    unfolding f3 using ch less_Suc_eq by blast
  have lt3: "m < next_addr s3" by (simp add: f3)
  from route_file_eff [OF 1 lt3 ch3] obtain c where
    c: "summary_flag (summary_value st m) = Some c" "r = Val c"
    and s4: "s4 = s3\<lparr>store := store s4, next_addr := next_addr s4,
                     calls := calls s3 @ [Call_move_file (file_name f) (files_path ''repo_path'')
                        (if c = SStr ''FAIL'' then files_path ''err_path'' else files_path ''ok_path'')],
                     filesys := filesys (snd (move_file os (file_name f) (files_path ''repo_path'')
                        (if c = SStr ''FAIL'' then files_path ''err_path'' else files_path ''ok_path'') s3))\<rparr>"
    and fr4: "Suc m \<le> next_addr s4" "\<forall>a<Suc m. store s4 a = st a"
    unfolding f3 by blast
  let ?to = "if c = SStr ''FAIL'' then files_path ''err_path'' else files_path ''ok_path''"
  have f4: "calls s4 = calls s @ [Call_create_job jid, Call_move_file (file_name f) (files_path ''repo_path'') ?to]"
    "jobs s4 = (jobs s)(jid \<mapsto> Suc n)"
    "filesys s4 = filesys (snd (move_file os (file_name f) (files_path ''repo_path'') ?to s))"
    "summary s4 = Some m" "file_to_proc s4 = file_to_proc s" "local_err s4 = local_err s"
    using move_file_filesys [OF f3(5), of os "file_name f" "files_path ''repo_path''" ?to]
    by (subst s4, simp add: f3 s1)+
  define d where "d = next_addr s4"
  have ord: "Suc n < m" "m < d" using m fr4(1) by (auto simp: d_def)
  have m4: "store s4 m = st m" "store s4 (Suc n) = P0" "store s4 n = st n"
    using fr4(2) fr ord by (auto simp: s1)
  have P4: "map_of (store s4 (Suc n)) proc_name = Some (Ref n)"
    by (simp add: m4 P0_def proc_name_def)
  have tot4: "\<forall>a. map_of (store s4 m) ''totals'' = Some (Ref a) \<longrightarrow>
                  a < next_addr s4 \<and> a \<noteq> n \<and> a \<noteq> Suc n \<and> store s4 a = vals (scalars_of (store s4 a))"
  proof (intro allI impI)
    fix a assume "map_of (store s4 m) ''totals'' = Some (Ref a)"
    then have a: "map_of (st m) ''totals'' = Some (Ref a)" by (simp add: m4)
    note b = ch [rule_format, OF a]
    have "store s4 a = st a" using fr4(2) b by simp
    then show "a < next_addr s4 \<and> a \<noteq> n \<and> a \<noteq> Suc n \<and> store s4 a = vals (scalars_of (store s4 a))"
      using b fr4(1) by auto
  qed
  have lt4: "n < next_addr s4" "Suc n < next_addr s4" "m < next_addr s4"
    using ord by (auto simp: d_def)
  have ne4: "m \<noteq> n" "m \<noteq> Suc n" "n \<noteq> Suc n" using ord by auto
  from fold_results_eff [OF 2 P4 lt4 ne4 tot4] obtain t where
    doc: "doc = Ref d"
    and t: "map_of (st m) ''totals'' = Some (Ref t)"
    and s5: "s5 = s4\<lparr>store := store s5, next_addr := Suc (Suc d), process_results_doc := Ref d\<rparr>"
    and o5: "\<forall>a. a \<noteq> t \<and> a \<noteq> n \<and> a \<noteq> d \<and> a \<noteq> Suc d \<longrightarrow> store s5 a = store s4 a"
    and t5: "store s5 t = (if truthy (store s4) (dict_get (store s4 t) ''site_name'')
                           then AList.delete ''site_name'' (store s4 t) else store s4 t)"
    and k5: "\<forall>k\<in>set mv_out_arr. map_of (store s5 d) k \<noteq> None
                  \<and> map_of (store s5 (Suc d)) k = None
                  \<and> map_of (store s5 n) k = map_of (store s5 d) k"
    and c5: "\<forall>k v. map_of (store s5 (Suc d)) k = Some v \<longrightarrow> is_dict v \<and> map_of (store s5 d) k = Some v"
    and e5: "\<forall>k. k \<notin> set mv_out_arr \<longrightarrow> map_of (store s5 (Suc d)) k = map_of (store s5 d) k"
    and st5: "map_of (store s5 n) ''status'' = Some (Val (SStr (if r = FAIL then ''error'' else ''finished'')))"
    and su5: "map_of (store s5 n) ''summary'' = Some (Ref (Suc d))"
    unfolding d_def [symmetric] m4 by blast
  have tr: "Suc (Suc n) \<le> t" "t < m" using ch [rule_format, OF t] by auto
  have f5: "calls s5 = calls s4" "jobs s5 = jobs s4" "filesys s5 = filesys s4" "summary s5 = Some m"
    "file_to_proc s5 = file_to_proc s" "local_err s5 = local_err s" "process_results_doc s5 = Ref d"
    by (subst s5, simp add: f4)+
  have p5: "store s5 (Suc n) = P0" "store s5 m = st m"
    using o5 tr ord by (auto simp: m4)
  have dP: "distinct (map fst P0)"
    by (simp add: P0_def proc_name_def)
  have j5: "jobs s5 jid = Some (Suc n)" by (simp add: f5 f4)
  have triv: "(store s5)(Suc n := P0) = store s5"
    using p5(1) by (auto simp: fun_eq_iff)
  from 3 have "s6 = s5\<lparr>calls := calls s5 @ [Call_update_job jid], store := (store s5)(Suc n := P0)\<rparr>"
    by (auto simp: update_job_def Let_def j5 p5 dict_update_self [OF dP])
  then have s6: "s6 = s5\<lparr>calls := calls s5 @ [Call_update_job jid], store := store s5\<rparr>"
    by (simp only: triv)
  from 4 5 have s7: "s' = s6\<lparr>task_id := None\<rparr>" "v = RResult (file_name f) (Ref d)"
    by (auto simp: set_task_id_Inr ret_def doc)
  have fin: "store s' = store s5" "calls s' = calls s5 @ [Call_update_job jid]" "jobs s' = jobs s5"
    "filesys s' = filesys s5" "summary s' = Some m" "file_to_proc s' = file_to_proc s"
    "local_err s' = local_err s" "process_results_doc s' = Ref d"
    by (simp_all add: s7 s6 f5)
  have sf: "stage_field s' jid k = map_of (store s5 n) k" for k
    by (simp add: stage_field_def fin f5 f4 p5 P0_def proc_name_def)
  have dk: "distinct (map fst (st m))"
  proof -
    have "map fst (summary_value st m) = map fst (st m)"
      by (simp add: summary_value_def comp_def case_prod_beta)
    moreover have "map fst (norm_lit lit) = map fst (dict_of lit)"
      by (simp add: norm_lit_def comp_def case_prod_beta)
    ultimately show ?thesis using sv distinct_dict_of [of lit] by simp
  qed
  have ch': "\<forall>k a. map_of (st m) k = Some (Ref a) \<longrightarrow> st a = vals (scalars_of (st a))"
    using ch by blast
  have t5': "store s5 t = (if truthy (store s4) (dict_get (st t) ''site_name'')
                           then AList.delete ''site_name'' (st t) else st t)"
    using t5 fr4(2) tr by simp
  have o5': "\<forall>k a. map_of (st m) k = Some (Ref a) \<and> a \<noteq> t \<longrightarrow> store s5 a = st a"
  proof (intro allI impI)
    fix k a assume a: "map_of (st m) k = Some (Ref a) \<and> a \<noteq> t"
    then have "Suc (Suc n) \<le> a" "a < m" using ch [rule_format, of k a] by auto
    then have "store s5 a = store s4 a" "store s4 a = st a" using o5 a ord fr4(2) by auto
    then show "store s5 a = st a" by simp
  qed
  have sa: "summary_value (store s') m = without_site_name (norm_lit lit)"
    unfolding fin(1) sv [symmetric]
    by (rule summary_after [OF dk inj ch' t p5(2) t5' o5'])
  have rF: "(r = FAIL) = (c = SStr ''FAIL'')" by (simp add: c FAIL_def)
  have a1: "summary_flag (norm_lit lit) = Some c" using c sv by simp
  have a2: "calls s' = calls s @ [Call_create_job jid,
                 Call_move_file (file_name f) (files_path ''repo_path'') ?to, Call_update_job jid]"
    by (simp add: fin f5 f4)
  have a3: "filesys s' = filesys (snd (move_file os (file_name f) (files_path ''repo_path'') ?to s))"
    by (simp add: fin f5 f4)
  have a4: "stage_field s' jid ''status'' = Some (Val (SStr (if c = SStr ''FAIL'' then ''error'' else ''finished'')))"
    using st5 by (simp add: sf rF)
  have a5: "stage_field s' jid ''summary'' = Some (Ref (Suc d))"
    using su5 by (simp add: sf)
  have a6: "\<forall>k\<in>set mv_out_arr. map_of (store s' d) k \<noteq> None
                  \<and> map_of (store s' (Suc d)) k = None
                  \<and> stage_field s' jid k = map_of (store s' d) k"
    using k5 by (simp add: sf fin(1))
  have a7: "\<forall>k w. map_of (store s' (Suc d)) k = Some w \<longrightarrow> is_dict w \<and> map_of (store s' d) k = Some w"
    using c5 by (simp add: fin(1))
  have a8: "\<forall>k. k \<notin> set mv_out_arr \<longrightarrow> map_of (store s' (Suc d)) k = map_of (store s' d) k"
    using e5 by (simp add: fin(1))
  show ?thesis
    apply (rule exI [of _ c], rule exI [of _ d], rule exI [of _ m])
    using a1 s7(2) fin(8) fin(5) sa a2 a3 a4 a5 a6 a7 a8 fin(6) fin(7)
    unfolding jid_def by blast
qed

text \<open>Line 212 returns when the error entry is absent, falsy or a dictionary.\<close>

lemma error_flag_total:
  fixes s :: "'fs state"
  assumes lt: "m < next_addr s"
      and fl: "summary_flag (summary_value (store s) m) \<noteq> None"
  shows "\<exists>r s'. error_flag (Ref m) s = (Inr r, s')"
proof (cases "map_of (store s m) ''error''")
  case None
  then show ?thesis
    by (simp add: error_flag_def seq_def get_method_def is_true_def ret_def)
next
  case (Some v)
  show ?thesis
  proof (cases v)
    case (Val c)
    then have "\<not> truthy (\<lambda>_. []) (Val c)"
      using fl Some by (simp add: summary_flag_def map_of_summary_value stored_def split: if_splits)
    then have "\<not> truthy (store s) (Val c)" using truthy_Val [of "store s" c] by simp
    then show ?thesis using Some Val
      by (simp add: error_flag_def seq_def get_method_def is_true_def ret_def)
  next
    case (Ref a)
    have mn: "m \<noteq> next_addr s" using lt by simp
    show ?thesis using Some Ref mn
      by (cases "store s a = []")
         (simp_all add: error_flag_def seq_def get_method_def is_true_def ret_def new_dict_def
            alloc_def dict_of_def get_method_default_def split: option.splits)
  qed
qed

lemma move_file_total:
  fixes s :: "'fs state"
  shows "\<exists>b s'. move_file os name fp tp s = (Inr b, s')"
  unfolding move_file_eq Let_def
  by (auto split: option.splits prod.splits sum.splits)

lemma route_file_total:
  fixes s :: "'fs state"
  assumes lt: "m < next_addr s"
      and fl: "summary_flag (summary_value (store s) m) \<noteq> None"
  shows "\<exists>r s'. route_file os files_path f (Ref m) s = (Inr r, s')"
proof -
  from error_flag_total [OF lt fl] obtain r s1 where
    1: "error_flag (Ref m) s = (Inr r, s1)" by blast
  from move_file_total [of os "file_name f" "files_path ''repo_path''"
         "if r = FAIL then files_path ''err_path'' else files_path ''ok_path''" s1]
  obtain b s2 where
    2: "move_file os (file_name f) (files_path ''repo_path'')
          (if r = FAIL then files_path ''err_path'' else files_path ''ok_path'') s1 = (Inr b, s2)"
    by blast
  show ?thesis
    unfolding route_file_def
    by (simp add: seq_Inr [where m = "error_flag (Ref m)" and s = s, OF 1]
                  seq_Inr [where m = "move_file os (file_name f) (files_path ''repo_path'')
                      (if r = FAIL then files_path ''err_path'' else files_path ''ok_path'')" and s = s1, OF 2] ret_def)
qed

text \<open>Lines 218 to 220 return when the summary has a dictionary of totals.\<close>

lemma move_site_name_total:
  fixes s :: "'fs state"
  assumes tot: "map_of (store s m) ''totals'' = Some (Ref t)"
      and P: "map_of (store s p) proc_name = Some (Ref g)"
      and ne: "m \<noteq> g" "t \<noteq> g"
  shows "\<exists>u s'. move_site_name (Ref m) (Ref p) s = (Inr u, s')"
proof (cases "map_of (store s t) ''site_name''")
  case None
  then show ?thesis using tot
    by (simp add: move_site_name_def seq_def get_item_def get_method_def is_true_def ret_def)
next
  case (Some v)
  show ?thesis using tot P ne Some
    by (cases "truthy (store s) v")
       (simp_all add: move_site_name_def seq_def get_item_def get_method_def is_true_def ret_def
          set_item_def del_item_def)
qed

lemma or_num_total:
  assumes "num_of (Val c) \<noteq> None \<or> \<not> truthy (\<lambda>_. []) (Val c)"
  shows "\<exists>y. num_of (if truthy st (Val c) then Val c else Val (SInt d)) = Some y"
  using assms truthy_Val [of st c] by auto

lemma dict_get_delete: "k \<noteq> k' \<Longrightarrow> dict_get (AList.delete k' d) k = dict_get d k"
  by (simp add: dict_get_def delete_conv')

text \<open>Lines 218 to 241 return for well-formed totals.\<close>

lemma fold_results_total:
  fixes s :: "'fs state"
  assumes P: "map_of (store s p) proc_name = Some (Ref g)"
      and lt: "g < next_addr s" "p < next_addr s" "m < next_addr s"
      and ne: "m \<noteq> g" "m \<noteq> p" "g \<noteq> p"
      and tot: "map_of (store s m) ''totals'' = Some (Ref t)"
      and tp: "t < next_addr s" "t \<noteq> g" "t \<noteq> p" "store s t = vals (scalars_of (store s t))"
      and rok: "map_of (store s t) ''records_ok'' = Some (Val c)" "num_of (Val c) \<noteq> None"
      and w1: "\<And>c. dict_get (store s t) ''raw_lines'' = Val c \<Longrightarrow> num_or_falsy c"
      and w2: "\<And>c. dict_get (store s t) ''transactions'' = Val c \<Longrightarrow> num_or_falsy c"
  shows "\<exists>doc s'. fold_results t0 t1 (Ref p) (Ref m) r s = (Inr doc, s')"
proof -
  define n where "n = next_addr s"
  from move_site_name_total [OF tot P ne(1) tp(2)] obtain u1 s1 where
    1: "move_site_name (Ref m) (Ref p) s = (Inr u1, s1)" by blast
  have tg: "\<forall>a. map_of (store s m) ''totals'' = Some (Ref a) \<longrightarrow> a \<noteq> g \<and> a \<noteq> p"
    using tot tp by auto
  from move_site_name_eff [OF 1 P ne(1,2) tg] tot have
    s1: "s1 = (if truthy (store s) (dict_get (store s t) ''site_name'')
                  then s\<lparr>store := (store s)
                         (g := AList.update ''site_name'' (dict_get (store s t) ''site_name'') (store s g),
                          t := AList.delete ''site_name'' (store s t))\<rparr>
                  else s)"
    by auto
  have tm: "t \<noteq> m"
  proof
    assume "t = m"
    then have "map_of (vals (scalars_of (store s m))) ''totals'' = Some (Ref m)"
      using tot tp(4) by simp
    then show False by (auto simp: map_of_vals)
  qed
  define T where "T = (if truthy (store s) (dict_get (store s t) ''site_name'')
                           then AList.delete ''site_name'' (store s t) else store s t)"
  define G1 where "G1 = (if truthy (store s) (dict_get (store s t) ''site_name'')
                           then AList.update ''site_name'' (dict_get (store s t) ''site_name'') (store s g)
                           else store s g)"
  have s1': "s1 = s\<lparr>store := (store s)(g := G1, t := T)\<rparr>"
    unfolding s1 T_def G1_def by simp
  have n1: "next_addr s1 = n" by (simp add: s1' n_def)
  have m1: "store s1 m = store s m" "store s1 p = store s p" "store s1 t = T" "store s1 g = G1"
    using ne tm tp by (simp_all add: s1')
  have Tv: "T = vals (scalars_of T)"
    unfolding T_def using tp(4) scalar_dict_delete [OF tp(4)] by simp
  have dg: "dict_get T ''raw_lines'' = dict_get (store s t) ''raw_lines''"
           "dict_get T ''transactions'' = dict_get (store s t) ''transactions''"
           "map_of T ''records_ok'' = Some (Val c)"
    using rok(1) by (simp_all add: T_def dict_get_delete delete_conv')
  obtain x where x: "num_of (Val c) = Some x" using rok(2) by auto
  obtain craw where craw: "dict_get (store s t) ''raw_lines'' = Val craw"
    using dict_get_scalar [OF tp(4)] by blast
  obtain ctr where ctr: "dict_get (store s t) ''transactions'' = Val ctr"
    using dict_get_scalar [OF tp(4)] by blast
  have rl1: "dict_get (store s1 t) ''raw_lines'' = Val craw"
            "dict_get (store s1 t) ''transactions'' = Val ctr"
    by (simp_all add: m1 dg craw ctr)
  from or_num_total [OF w1 [OF craw, unfolded num_or_falsy_def], of "store s1" 1] obtain y where
    "num_of (if truthy (store s1) (Val craw) then Val craw else Val (SInt 1)) = Some y"
    by blast
  then have y: "num_of (if truthy (store s1) (dict_get (store s1 t) ''raw_lines'')
                       then dict_get (store s1 t) ''raw_lines'' else Val (SInt 1)) = Some y"
    unfolding rl1 .
  from or_num_total [OF w2 [OF ctr, unfolded num_or_falsy_def], of "store s1" "- 1"] obtain z where
    "num_of (if truthy (store s1) (Val ctr) then Val ctr else Val (SInt (- 1))) = Some z"
    by blast
  then have z: "num_of (if truthy (store s1) (dict_get (store s1 t) ''transactions'')
                       then dict_get (store s1 t) ''transactions'' else Val (SInt (- 1))) = Some z"
    unfolding rl1 .
  have tot1: "map_of (store s1 m) ''totals'' = Some (Ref t)" by (simp add: m1 tot)
  have ne1: "m \<noteq> next_addr s1" "t \<noteq> next_addr s1" using lt tp by (auto simp: n1 n_def)
  have tv1: "store s1 t = vals (scalars_of (store s1 t))" using Tv by (simp add: m1)
  have rok1: "map_of (store s1 t) ''records_ok'' = Some (Val c)" by (simp add: m1 dg)
  from create_process_doc_run [OF tot1 ne1 tv1 rok1 x y z, of t0 t1] obtain D where
    2: "create_process_doc t0 t1 (Ref m) s1 =
          (Inr (Ref n), s1\<lparr>store := (store s1)(n := D), next_addr := Suc n\<rparr>)"
    unfolding n1 by blast
  let ?st = "Val (SStr (if r = FAIL then ''error'' else ''finished''))"
  define s2 where "s2 = s1\<lparr>store := (store s1)(n := D), next_addr := Suc n\<rparr>"
  define s3 where "s3 = s2\<lparr>process_results_doc := Ref n\<rparr>"
  define s5 where "s5 = s3\<lparr>store := (store s3)(g := AList.update ''status'' ?st (store s3 g))\<rparr>"
  define s6 where "s6 = s5\<lparr>store := (store s5)(Suc n := store s5 n), next_addr := Suc (Suc n)\<rparr>"
  define s8 where "s8 = s6\<lparr>store := (store s6)(g := AList.update ''summary'' (Ref (Suc n)) (store s6 g))\<rparr>"
  have pn: "p \<noteq> n" "g \<noteq> n" "t \<noteq> n" "m \<noteq> n" "Suc n \<noteq> g" "Suc n \<noteq> p" using lt tp by (auto simp: n_def)
  have Pk: "store s3 p = store s p" "store s6 p = store s p" "store s8 p = store s p"
    using pn ne by (simp_all add: s8_def s6_def s5_def s3_def s2_def m1)
  have na: "next_addr s5 = Suc n" by (simp add: s5_def s3_def s2_def)
  have 2: "create_process_doc t0 t1 (Ref m) s1 = (Inr (Ref n), s2)"
    using 2 by (simp add: s2_def)
  have 3: "set_process_results_doc (Ref n) s2 = (Inr (), s3)"
    by (simp add: set_process_results_doc_def s3_def)
  have 4: "get_item (Ref p) proc_name s3 = (Inr (Ref g), s3)"
    using P by (simp add: get_item_def Pk)
  have 5: "set_item (Ref g) ''status'' ?st s3 = (Inr (), s5)"
    by (simp add: set_item_def s5_def)
  have 6: "dict_copy (Ref n) s5 = (Inr (Ref (Suc n)), s6)"
    by (simp add: dict_copy_def alloc_def na s6_def)
  have 7: "get_item (Ref p) proc_name s6 = (Inr (Ref g), s6)"
    using P by (simp add: get_item_def Pk)
  have 8: "set_item (Ref g) ''summary'' (Ref (Suc n)) s6 = (Inr (), s8)"
    by (simp add: set_item_def s8_def)
  have P8: "map_of (store s8 p) proc_name = Some (Ref g)"
    using P by (simp add: Pk)
  from mv_out_spec [OF P8 pn(5,6) ne(3), of mv_out_arr] obtain s9 where
    9: "mv_out mv_out_arr (Ref (Suc n)) (Ref p) s8 = (Inr (), s9)" by blast
  have "fold_results t0 t1 (Ref p) (Ref m) r s = (Inr (Ref n), s9)"
    unfolding fold_results_def
    by (simp add: seq_Inr [where m = "move_site_name (Ref m) (Ref p)" and s = s, OF 1]
                  seq_Inr [where m = "create_process_doc t0 t1 (Ref m)" and s = s1, OF 2]
                  seq_Inr [where m = "set_process_results_doc (Ref n)" and s = s2, OF 3]
                  seq_Inr [where m = "get_item (Ref p) proc_name" and s = s3, OF 4]
                  seq_Inr [where m = "set_item (Ref g) ''status'' ?st" and s = s3, OF 5]
                  seq_Inr [where m = "dict_copy (Ref n)" and s = s5, OF 6]
                  seq_Inr [where m = "get_item (Ref p) proc_name" and s = s6, OF 7]
                  seq_Inr [where m = "set_item (Ref g) ''summary'' (Ref (Suc n))" and s = s6, OF 8]
                  seq_Inr [where m = "mv_out mv_out_arr (Ref (Suc n)) (Ref p)" and s = s8, OF 9]
                  ret_def)
  then show ?thesis by blast
qed

lemma stored_Nested:
  assumes "map_of (summary_value st m) k = Some (Nested e)"
  shows "\<exists>a. map_of (st m) k = Some (Ref a) \<and> scalars_of (st a) = e"
proof -
  from assms obtain v where v: "map_of (st m) k = Some v" "stored st v = Nested e"
    by (auto simp: map_of_summary_value)
  then show ?thesis by (cases v) (auto simp: stored_def)
qed

text \<open>Lines 193 to 247 return for a well-formed summary.\<close>

lemma process_selected_total:
  fixes s :: "'fs state"
  assumes par: "parser f (job_id_of s) = Inr lit"
      and wf: "wf_summary (norm_lit lit)"
  shows "\<exists>v s'. process_selected os parser t0 t1 files_path f s = (Inr v, s')"
proof -
  define n where "n = next_addr s"
  define jid where "jid = job_id_of s"
  define P0 where "P0 = [(''process_id'', Val (SStr my_proc_name)),
                         (''file'', Val (SStr (file_name f))),
                         (''star_date'', Val (SIso t0)),
                         (proc_name, Ref n)]"
  from open_job_eff [of t0 f s] obtain s1 where
    oj: "open_job t0 f s = (Inr (Ref (Suc n), jid), s1)"
    and s1: "next_addr s1 = Suc (Suc n)" "store s1 (Suc n) = P0"
    unfolding n_def jid_def P0_def by auto
  from call_parser_spec [where parser = parser and f = f and jid = "job_id_of s" and lit = lit and s = s1, OF par]
  obtain st m where
    cp: "call_parser parser f jid s1 = (Inr (Ref m), s1\<lparr>store := st, next_addr := Suc m\<rparr>)"
    and m: "Suc (Suc n) \<le> m"
    and fr: "\<forall>a<Suc (Suc n). st a = store s1 a"
    and ch: "\<forall>k a. map_of (st m) k = Some (Ref a) \<longrightarrow>
                  Suc (Suc n) \<le> a \<and> a < m \<and> st a = vals (scalars_of (st a))"
    and sv: "summary_value st m = norm_lit lit"
    unfolding s1(1) jid_def by blast
  define s3 where "s3 = s1\<lparr>store := st, next_addr := Suc m, summary := Some m\<rparr>"
  have ss: "set_summary (Ref m) (s1\<lparr>store := st, next_addr := Suc m\<rparr>) = (Inr (), s3)"
    by (simp add: set_summary_def s3_def)
  have f3: "next_addr s3 = Suc m" "store s3 = st" by (simp_all add: s3_def)
  have lt3: "m < next_addr s3" by (simp add: f3)
  have ch3: "\<forall>k a. map_of (store s3 m) k = Some (Ref a) \<longrightarrow>
                 a < next_addr s3 \<and> store s3 a = vals (scalars_of (store s3 a))"
    unfolding f3 using ch less_Suc_eq by blast
  have fl3: "summary_flag (summary_value (store s3) m) \<noteq> None"
    using wf by (simp add: f3 sv wf_summary_def)
  from route_file_total [OF lt3 fl3, of os files_path f] obtain r s4 where
    1: "route_file os files_path f (Ref m) s3 = (Inr r, s4)" by blast
  from route_file_eff [OF 1 lt3 ch3] have
    fr4: "Suc m \<le> next_addr s4" "\<forall>a<Suc m. store s4 a = st a"
    unfolding f3 by blast+
  obtain fl where fl: "map_of (norm_lit lit) ''totals'' = Some fl"
    using wf by (cases "map_of (norm_lit lit) ''totals''") (auto simp: wf_summary_def)
  obtain e where e: "map_of (norm_lit lit) ''totals'' = Some (Nested e)"
    using wf fl by (cases fl) (auto simp: wf_summary_def)
  have we: "(case map_of e ''records_ok'' of Some c \<Rightarrow> num_of (Val c) \<noteq> None | None \<Rightarrow> False)"
    and w: "case map_of e ''raw_lines'' of Some c \<Rightarrow> num_or_falsy c | None \<Rightarrow> True"
           "case map_of e ''transactions'' of Some c \<Rightarrow> num_or_falsy c | None \<Rightarrow> True"
    using wf by (simp_all add: wf_summary_def e)
  obtain c where rk: "map_of e ''records_ok'' = Some c" "num_of (Val c) \<noteq> None"
    using we by (cases "map_of e ''records_ok''") auto
  from stored_Nested [of st m "''totals''" e] e obtain t where
    t: "map_of (st m) ''totals'' = Some (Ref t)" "scalars_of (st t) = e"
    by (auto simp: sv)
  note tb = ch [rule_format, OF t(1)]
  have stt: "st t = vals e" using tb t(2) by simp
  have ord: "Suc n < m" "m < next_addr s4" using m fr4(1) by auto
  have m4: "store s4 m = st m" "store s4 (Suc n) = P0" "store s4 t = vals e"
    using fr4(2) fr ord tb by (auto simp: s1 stt)
  have P4: "map_of (store s4 (Suc n)) proc_name = Some (Ref n)"
    by (simp add: m4 P0_def proc_name_def)
  have lt4: "n < next_addr s4" "Suc n < next_addr s4" "m < next_addr s4" using ord by auto
  have ne4: "m \<noteq> n" "m \<noteq> Suc n" "n \<noteq> Suc n" using ord by auto
  have tot4: "map_of (store s4 m) ''totals'' = Some (Ref t)" by (simp add: m4 t)
  have tp4: "t < next_addr s4" "t \<noteq> n" "t \<noteq> Suc n" "store s4 t = vals (scalars_of (store s4 t))"
    using tb ord by (auto simp: m4 scalars_of_vals)
  have rok4: "map_of (store s4 t) ''records_ok'' = Some (Val c)"
    by (simp add: m4 map_of_vals rk)
  have nf: "num_or_falsy SNone" by (simp add: num_or_falsy_def)
  have w1: "\<And>c. dict_get (store s4 t) ''raw_lines'' = Val c \<Longrightarrow> num_or_falsy c"
    using w(1) nf by (auto simp: m4 dict_get_def map_of_vals split: option.splits)
  have w2: "\<And>c. dict_get (store s4 t) ''transactions'' = Val c \<Longrightarrow> num_or_falsy c"
    using w(2) nf by (auto simp: m4 dict_get_def map_of_vals split: option.splits)
  from fold_results_total [OF P4 lt4 ne4 tot4 tp4 rok4 rk(2) w1 w2, of t0 t1 r] obtain doc s5 where
    2: "fold_results t0 t1 (Ref (Suc n)) (Ref m) r s4 = (Inr doc, s5)" by blast
  from update_job_ref [of jid "Suc n" s5] obtain s6 where
    3: "update_job jid (Ref (Suc n)) s5 = (Inr True, s6)" by blast
  have 4: "set_task_id None s6 = (Inr (), s6\<lparr>task_id := None\<rparr>)"
    by (simp add: set_task_id_def)
  have "process_selected os parser t0 t1 files_path f s
          = (Inr (RResult (file_name f) doc), s6\<lparr>task_id := None\<rparr>)"
    unfolding process_selected_def
    by (simp add: seq_Inr [where m = "open_job t0 f" and s = s, OF oj]
                  seq_Inr [where m = "call_parser parser f jid" and s = s1, OF cp]
                  seq_Inr [where m = "set_summary (Ref m)" and s = "s1\<lparr>store := st, next_addr := Suc m\<rparr>", OF ss]
                  seq_Inr [where m = "route_file os files_path f (Ref m)" and s = s3, OF 1]
                  seq_Inr [where m = "fold_results t0 t1 (Ref (Suc n)) (Ref m) r" and s = s4, OF 2]
                  seq_Inr [where m = "update_job jid (Ref (Suc n))" and s = s5, OF 3]
                  seq_Inr [where m = "set_task_id None" and s = s6, OF 4]
                  ret_def)
  then show ?thesis by blast
qed

text \<open>
  The whole function on a run that selected a file and whose parser returned a summary:
  a well-formed summary gives an exit without fault, and an exit without fault leaves
  the objects below.
\<close>

lemma process_next_file_normal:
  fixes os :: "'fs os_api" and s :: "'fs state"
  assumes sel: "get_first_available_file os (filesys s) files_path r = Inr (Some f)"
      and par: "parser f (job_id_of s) = Inr lit"
      and run: "process_next_file os parser t0 t1 files_path r s = (v, s')"
  shows "(wf_summary (norm_lit lit) \<longrightarrow> local_err s' = None)
       \<and> (local_err s' = None \<longrightarrow>
           (\<exists>c d m. summary_flag (norm_lit lit) = Some c
              \<and> v = Inr (RResult (file_name f) (Ref d))
              \<and> summary s' = Some m
              \<and> summary_value (store s') m = without_site_name (norm_lit lit)
              \<and> calls s' = calls s @ [Call_create_job (job_id_of s),
                    Call_move_file (file_name f) (files_path ''repo_path'')
                      (if c = SStr ''FAIL'' then files_path ''err_path'' else files_path ''ok_path''),
                    Call_update_job (job_id_of s),
                    Call_clean_file_process_q (file_name f) None]
              \<and> filesys s' = filesys (snd (move_file os (file_name f) (files_path ''repo_path'')
                      (if c = SStr ''FAIL'' then files_path ''err_path'' else files_path ''ok_path'') s))
              \<and> stage_field s' (job_id_of s) ''status''
                   = Some (Val (SStr (if c = SStr ''FAIL'' then ''error'' else ''finished'')))
              \<and> stage_field s' (job_id_of s) ''summary'' = Some (Ref (Suc d))
              \<and> (\<forall>k\<in>set mv_out_arr. map_of (store s' d) k \<noteq> None
                     \<and> map_of (store s' (Suc d)) k = None
                     \<and> stage_field s' (job_id_of s) k = map_of (store s' d) k)
              \<and> (\<forall>k w. map_of (store s' (Suc d)) k = Some w \<longrightarrow>
                     is_dict w \<and> map_of (store s' d) k = Some w)
              \<and> (\<forall>k. k \<notin> set mv_out_arr \<longrightarrow> map_of (store s' (Suc d)) k = map_of (store s' d) k)))"
proof -
  let ?s0 = "s\<lparr>local_err := None, file_to_proc := None, process_results_doc := Val SNone\<rparr>"
  let ?s1 = "?s0\<lparr>file_to_proc := Some f\<rparr>"
  obtain r1 s1 where ps: "process_selected os parser t0 t1 files_path f ?s1 = (r1, s1)"
    by (cases "process_selected os parser t0 t1 files_path f ?s1")
  have fs: "filesys ?s0 = filesys s" by simp
  have tb: "try_block os parser t0 t1 files_path r ?s0 = (r1, s1)"
    unfolding try_block_unfold fs sel using ps by simp
  have ftp: "file_to_proc s1 = Some f"
    using keepsD [OF keeps_process_selected [OF ignores_run_fields(1)] ps] by simp
  have le: "local_err s1 = None"
    using keepsD [OF keeps_process_selected [OF ignores_run_fields(2)] ps] by simp
  have j: "job_id_of ?s1 = job_id_of s" by (rule job_id_of_frame)
  have par1: "parser f (job_id_of ?s1) = Inr lit" unfolding j by (rule par)
  have c0: "calls ?s1 = calls s" "filesys ?s1 = filesys s" by simp_all
  show ?thesis
  proof (cases r1)
    case (Inl e)
    have s': "local_err s' = Some e"
      using run unfolding process_next_file_unfold tb using Inl ftp by auto
    have "\<not> wf_summary (norm_lit lit)"
      using process_selected_total [where parser = parser and f = f and lit = lit and os = os
               and ?t0.0 = t0 and ?t1.0 = t1 and files_path = files_path and s = ?s1, OF par1] ps Inl
      by auto
    then show ?thesis using s' by simp
  next
    case (Inr w)
    have s': "s' = s1\<lparr>calls := calls s1 @ [Call_clean_file_process_q (file_name f) None]\<rparr>" "v = Inr w"
      using run unfolding process_next_file_unfold tb using Inr ftp le by auto
    have ok: "local_err s' = None" using le by (simp add: s')
    have fx: "store s' = store s1" "summary s' = summary s1" "filesys s' = filesys s1"
      by (simp_all add: s')
    have sfx: "stage_field s' = stage_field s1"
      by (auto simp: s' stage_field_def fun_eq_iff split: option.splits pyval.splits)
    from process_selected_eff [where parser = parser and f = f and lit = lit and s = ?s1,
           OF ps [unfolded Inr] par1] obtain c d m where
      a: "summary_flag (norm_lit lit) = Some c"
         "w = RResult (file_name f) (Ref d)"
         "summary s1 = Some m"
         "summary_value (store s1) m = without_site_name (norm_lit lit)"
         "calls s1 = calls ?s1 @ [Call_create_job (job_id_of ?s1),
                 Call_move_file (file_name f) (files_path ''repo_path'')
                   (if c = SStr ''FAIL'' then files_path ''err_path'' else files_path ''ok_path''),
                 Call_update_job (job_id_of ?s1)]"
         "filesys s1 = filesys (snd (move_file os (file_name f) (files_path ''repo_path'')
                   (if c = SStr ''FAIL'' then files_path ''err_path'' else files_path ''ok_path'') ?s1))"
         "stage_field s1 (job_id_of ?s1) ''status''
                = Some (Val (SStr (if c = SStr ''FAIL'' then ''error'' else ''finished'')))"
         "stage_field s1 (job_id_of ?s1) ''summary'' = Some (Ref (Suc d))"
         "\<forall>k\<in>set mv_out_arr. map_of (store s1 d) k \<noteq> None
                  \<and> map_of (store s1 (Suc d)) k = None
                  \<and> stage_field s1 (job_id_of ?s1) k = map_of (store s1 d) k"
         "\<forall>k w. map_of (store s1 (Suc d)) k = Some w \<longrightarrow>
                  is_dict w \<and> map_of (store s1 d) k = Some w"
         "\<forall>k. k \<notin> set mv_out_arr \<longrightarrow> map_of (store s1 (Suc d)) k = map_of (store s1 d) k"
      by blast
    let ?to = "if c = SStr ''FAIL'' then files_path ''err_path'' else files_path ''ok_path''"
    have mf: "filesys (snd (move_file os (file_name f) (files_path ''repo_path'') ?to ?s1))
                = filesys (snd (move_file os (file_name f) (files_path ''repo_path'') ?to s))"
      by (rule move_file_filesys) simp
    have b5: "calls s' = calls s @ [Call_create_job (job_id_of s),
                    Call_move_file (file_name f) (files_path ''repo_path'') ?to,
                    Call_update_job (job_id_of s),
                    Call_clean_file_process_q (file_name f) None]"
      using a(5) unfolding j c0 by (simp add: s')
    have b6: "filesys s' = filesys (snd (move_file os (file_name f) (files_path ''repo_path'') ?to s))"
      using a(6) unfolding mf fx by simp
    have "\<exists>c d m. summary_flag (norm_lit lit) = Some c
              \<and> v = Inr (RResult (file_name f) (Ref d))
              \<and> summary s' = Some m
              \<and> summary_value (store s') m = without_site_name (norm_lit lit)
              \<and> calls s' = calls s @ [Call_create_job (job_id_of s),
                    Call_move_file (file_name f) (files_path ''repo_path'')
                      (if c = SStr ''FAIL'' then files_path ''err_path'' else files_path ''ok_path''),
                    Call_update_job (job_id_of s),
                    Call_clean_file_process_q (file_name f) None]
              \<and> filesys s' = filesys (snd (move_file os (file_name f) (files_path ''repo_path'')
                      (if c = SStr ''FAIL'' then files_path ''err_path'' else files_path ''ok_path'') s))
              \<and> stage_field s' (job_id_of s) ''status''
                   = Some (Val (SStr (if c = SStr ''FAIL'' then ''error'' else ''finished'')))
              \<and> stage_field s' (job_id_of s) ''summary'' = Some (Ref (Suc d))
              \<and> (\<forall>k\<in>set mv_out_arr. map_of (store s' d) k \<noteq> None
                     \<and> map_of (store s' (Suc d)) k = None
                     \<and> stage_field s' (job_id_of s) k = map_of (store s' d) k)
              \<and> (\<forall>k w. map_of (store s' (Suc d)) k = Some w \<longrightarrow>
                     is_dict w \<and> map_of (store s' d) k = Some w)
              \<and> (\<forall>k. k \<notin> set mv_out_arr \<longrightarrow> map_of (store s' (Suc d)) k = map_of (store s' d) k)"
      apply (rule exI [of _ c], rule exI [of _ d], rule exI [of _ m])
      using a(1) a(2) a(3) a(4) b5 b6 a(7) a(8) a(9) a(10) a(11) s'(2)
      unfolding fx sfx j by blast
    then show ?thesis using ok by blast
  qed
qed

lemma main_sel:
  "get_first_available_file toy_os (filesys (init_state main_fs)) main_files_path False
     = Inr (Some main_file)"
  using main_select by (simp add: init_state_def)


lemma import_feed_file_value:
  "norm_lit [(''totals'', Nested [(''raw_lines'', SInt 100), (''records_ok'', SInt 95),
                                  (''transactions'', SInt 95), (''site_name'', SStr ''Site_A'')]),
             (''error'', Scalar SNone)]
     = [(''totals'', Nested [(''raw_lines'', SInt 100), (''records_ok'', SInt 95),
                             (''transactions'', SInt 95), (''site_name'', SStr ''Site_A'')]),
        (''error'', Scalar SNone)]"
  by (simp add: norm_lit_def dict_of_def norm_field_def)




text \<open>
  Claim C4, as amended. On every run that exits without a caught fault (as a
  well-formed summary ensures), the document returned as \<^verbatim>\<open>hist_doc\<close> still holds the
  six metric fields: line 227 stores a shallow copy of it in the stage slot of the job
  record under \<^verbatim>\<open>summary\<close>, and the loop of lines 238 to 241 moves the six fields out
  of that copy. So the copy holds none of them and only dictionaries, each shared with
  the returned document, and the stage slot holds the six fields with the values the
  returned document has.
\<close>

theorem metric_fields_moved_out_of_copy:
  fixes os :: "'fs os_api" and s :: "'fs state"
  assumes "get_first_available_file os (filesys s) files_path r = Inr (Some f)"
      and "parser f (job_id_of s) = Inr lit"
      and "process_next_file os parser t0 t1 files_path r s = (v, s')"
  shows "(wf_summary (norm_lit lit) \<longrightarrow> local_err s' = None)
       \<and> (local_err s' = None \<longrightarrow>
           (\<exists>d. v = Inr (RResult (file_name f) (Ref d))
              \<and> stage_field s' (job_id_of s) ''summary'' = Some (Ref (Suc d))
              \<and> (\<forall>k\<in>set mv_out_arr. map_of (store s' d) k \<noteq> None
                     \<and> map_of (store s' (Suc d)) k = None
                     \<and> stage_field s' (job_id_of s) k = map_of (store s' d) k)
              \<and> (\<forall>k w. map_of (store s' (Suc d)) k = Some w \<longrightarrow>
                     is_dict w \<and> map_of (store s' d) k = Some w)))"
  using process_next_file_normal [OF assms] by blast

theorem metric_fields_moved_out_of_copy_witness:
  "get_first_available_file toy_os (filesys (init_state main_fs)) main_files_path False
     = Inr (Some main_file)
   \<and> local_err (snd main_run) = None
   \<and> fst main_run = Inr (RResult ''a.csv'' (Ref 4))
   \<and> stage_field (snd main_run) ''JOB_1'' ''summary'' = Some (Ref 5)
   \<and> map_of (store (snd main_run) 4) ''tps'' = Some (Val (SFloat (95 / 2)))
   \<and> map_of (store (snd main_run) 5) ''tps'' = None
   \<and> stage_field (snd main_run) ''JOB_1'' ''tps'' = Some (Val (SFloat (95 / 2)))
   \<and> map_of (store (snd main_run) 5) ''totals'' = Some (Ref 2)
   \<and> map_of (store (snd main_run) 4) ''totals'' = Some (Ref 2)"
proof -
  have p2: "import_feed_file main_file (job_id_of (init_state main_fs))
              = Inr [(''totals'', Nested [(''raw_lines'', SInt 100), (''records_ok'', SInt 95),
                                  (''transactions'', SInt 95), (''site_name'', SStr ''Site_A'')]),
                     (''error'', Scalar SNone)]"
    by (simp add: import_feed_file_def)
  have r2: "process_next_file toy_os import_feed_file 0 2000000 main_files_path False (init_state main_fs)
              = (fst main_run, snd main_run)"
    by (simp add: main_run_def)
  note b = metric_fields_moved_out_of_copy [OF main_sel p2 r2, unfolded import_feed_file_value]
  have le: "local_err (snd main_run) = None"
    using b by (simp add: wf_summary_def summary_flag_def num_or_falsy_def)
  from b le have "\<exists>d. fst main_run = Inr (RResult (file_name main_file) (Ref d))
              \<and> stage_field (snd main_run) ''JOB_1'' ''summary'' = Some (Ref (Suc d))
              \<and> (\<forall>k\<in>set mv_out_arr. map_of (store (snd main_run) d) k \<noteq> None
                     \<and> map_of (store (snd main_run) (Suc d)) k = None
                     \<and> stage_field (snd main_run) ''JOB_1'' k = map_of (store (snd main_run) d) k)"
    unfolding job_id_of_init' by blast
  then have c: "stage_field (snd main_run) ''JOB_1'' ''summary'' = Some (Ref 5)"
    "\<forall>k\<in>set mv_out_arr. map_of (store (snd main_run) 4) k \<noteq> None
                     \<and> map_of (store (snd main_run) 5) k = None
                     \<and> stage_field (snd main_run) ''JOB_1'' k = map_of (store (snd main_run) 4) k"
    by (auto simp: main_run_facts(1))
  have k: "''tps'' \<in> set mv_out_arr" by (simp add: mv_out_arr_def)
  show ?thesis
    using main_sel le c(1) c(2) [rule_format, OF k] by (simp add: main_run_facts)
qed

theorem hist_doc_keeps_metric_fields_counterexample:
  "main_run = process_next_file toy_os import_feed_file 0 2000000 main_files_path False (init_state main_fs)
   \<and> local_err (snd main_run) = None
   \<and> fst main_run = Inr (RResult ''a.csv'' (Ref 4))
   \<and> store (snd main_run) 4 = [(''start_time'', Val (SIso 0)), (''end_time'', Val (SIso 2000000)),
                     (''elapsed_time_in_millisecs'', Val (SInt 2000)),
                     (''elapsed_time_in_secs'', Val (SFloat 2)),
                     (''valid_transac_perc'', Val (SFloat 95)),
                     (''tps'', Val (SFloat (95 / 2))), (''totals'', Ref 2)]"
  using main_run_facts(1,2,11) by (simp add: main_run_def)




end
